theory Spec2Isabelle
  imports Main
begin

section \<open>JavaScript values used by the client\<close>

text \<open>
  The browser's \<open>localStorage\<close> is a map from keys to strings: \<open>getItem\<close> of a missing
  key is \<open>null\<close> (here \<open>None\<close>).  A JavaScript string is truthy when it is present and
  not empty.
\<close>

type_synonym storage = "string \<Rightarrow> string option"

definition getItem :: "storage \<Rightarrow> string \<Rightarrow> string option" where
  "getItem st k = st k"

definition setItem :: "storage \<Rightarrow> string \<Rightarrow> string \<Rightarrow> storage" where
  "setItem st k v = st(k \<mapsto> v)"

definition removeItem :: "storage \<Rightarrow> string \<Rightarrow> storage" where
  "removeItem st k = st(k := None)"

definition truthy :: "string option \<Rightarrow> bool" where
  "truthy v = (case v of None \<Rightarrow> False | Some s \<Rightarrow> s \<noteq> [])"

text \<open>\<open>String(v)\<close> of an optional string: \<open>undefined\<close> is stored as the text "undefined".\<close>

definition js_string :: "string option \<Rightarrow> string" where
  "js_string v = (case v of None \<Rightarrow> ''undefined'' | Some s \<Rightarrow> s)"

definition startsWith :: "string \<Rightarrow> string \<Rightarrow> bool" where
  "startsWith s p = (take (length p) s = p)"

fun str_includes :: "string \<Rightarrow> string \<Rightarrow> bool" where
  "str_includes [] p = (p = [])"
| "str_includes (c # cs) p = (startsWith (c # cs) p \<or> str_includes cs p)"

section \<open>Users and permissions (utils/permissions.js)\<close>

record staff_profile =
  restaurant_id :: nat
  can_view_reports :: bool
  can_manage_menu :: bool
  can_manage_orders :: bool
  can_manage_staff :: bool
  role :: string

text \<open>\<open>email_verified\<close> is \<open>None\<close> when the server omitted the field (\<open>undefined\<close>).\<close>

record user_rec =
  email :: string
  user_type :: string
  email_verified :: "bool option"
  staff_profile :: "staff_profile option"

text \<open>A restaurant id argument is truthy when it is given and not \<open>0\<close>.\<close>

definition id_truthy :: "nat option \<Rightarrow> bool" where
  "id_truthy r = (case r of None \<Rightarrow> False | Some n \<Rightarrow> n \<noteq> 0)"

definition staff_permission :: "staff_profile \<Rightarrow> string \<Rightarrow> bool" where
  "staff_permission sp permission =
     (if permission = ''view_reports'' then can_view_reports sp
      else if permission = ''manage_menu'' then can_manage_menu sp
      else if permission = ''manage_orders'' then can_manage_orders sp
      else if permission = ''manage_staff'' then can_manage_staff sp
      else if permission = ''access_kitchen'' then role sp = ''chef'' \<or> role sp = ''manager''
      else if permission = ''process_payments'' then role sp = ''cashier'' \<or> role sp = ''manager''
      else False)"

definition hasPermission :: "user_rec option \<Rightarrow> string \<Rightarrow> nat option \<Rightarrow> bool" where
  "hasPermission u permission restaurantId =
     (case u of
        None \<Rightarrow> False
      | Some usr \<Rightarrow>
          if user_type usr = ''owner'' then True
          else (case staff_profile usr of
                  Some sp \<Rightarrow>
                    if user_type usr = ''staff'' then
                      (if id_truthy restaurantId \<and> Some (restaurant_id sp) \<noteq> restaurantId
                       then False
                       else staff_permission sp permission)
                    else False
                | None \<Rightarrow> False))"

section \<open>The session state of the owner portal (store/slices/authSlice.js)\<close>

record credentials =
  username :: string
  password :: string

text \<open>
  What a rejected thunk carries: the server's error object
  (\<open>error.response.data\<close>) or, without one, the message of the exception.
\<close>

record err_data =
  err_text :: "string option"
  requiresVerification :: bool
  err_email :: "string option"

datatype payload = Obj err_data | Msg string

record auth_state =
  user :: "user_rec option"
  owner :: "user_rec option"
  restaurants :: "string list"
  staff :: "string list"
  token :: "string option"
  refreshToken :: "string option"
  isAuthenticated :: bool
  isOwner :: bool
  requires2FA :: bool
  tempLoginData :: "credentials option"
  loading :: bool
  loginLoading :: bool
  registerLoading :: bool
  staffLoading :: bool
  verificationLoading :: bool
  csrfInitialized :: bool
  csrfLoading :: bool
  csrfError :: "payload option"
  error :: "payload option"
  loginError :: "payload option"
  registerError :: "payload option"
  staffError :: "payload option"
  verificationError :: "payload option"
  successMessage :: "string option"

definition initialState :: "storage \<Rightarrow> auth_state" where
  "initialState st =
     \<lparr> user = None, owner = None, restaurants = [], staff = [],
       token = getItem st ''token'',
       refreshToken = getItem st ''refreshToken'',
       isAuthenticated = truthy (getItem st ''token''),
       isOwner = False,
       requires2FA = False, tempLoginData = None,
       loading = False, loginLoading = False, registerLoading = False,
       staffLoading = False, verificationLoading = False,
       csrfInitialized = False, csrfLoading = False, csrfError = None,
       error = None, loginError = None, registerError = None,
       staffError = None, verificationError = None,
       successMessage = None \<rparr>"

section \<open>The route guard (components/ProtectedRoute.jsx)\<close>

record route_props =
  requiredPermission :: "string option"
  restaurantId :: "nat option"
  ownerOnly :: bool
  requireEmailVerified :: bool
  allowUnverified :: bool

text \<open>The defaults of the component's parameters.\<close>

definition default_props :: route_props where
  "default_props =
     \<lparr> requiredPermission = None, restaurantId = None, ownerOnly = False,
       requireEmailVerified = True, allowUnverified = False \<rparr>"

text \<open>
  What the component returns: the spinner, a \<open>Navigate\<close> element (target and the
  remembered \<open>state.from\<close> path, if any), the children, or the \<open>TypeError\<close> of reading
  \<open>user.user_type\<close> when \<open>user\<close> is \<open>null\<close>.
\<close>

datatype render = Spinner | Navigate string "string option" | Children | TypeError

text \<open>\<open>user?.email_verified\<close> as a condition.\<close>

definition user_verified :: "user_rec option \<Rightarrow> bool" where
  "user_verified u = (case u of None \<Rightarrow> False | Some usr \<Rightarrow> email_verified usr = Some True)"

definition allowedWithoutVerification :: "string \<Rightarrow> bool" where
  "allowedWithoutVerification pathname =
     (str_includes pathname ''/verify-email'' \<or> str_includes pathname ''/logout''
      \<or> str_includes pathname ''/settings'')"

definition ProtectedRoute :: "route_props \<Rightarrow> auth_state \<Rightarrow> storage \<Rightarrow> string \<Rightarrow> render" where
  "ProtectedRoute props s st pathname =
     (if loading s then Spinner
      else
        let hasPendingVerification = truthy (getItem st ''pendingVerificationEmail'') in
        if isAuthenticated s \<and> user_verified (user s) \<and> pathname = ''/login''
          then Navigate ''/owner/dashboard'' None
        else if \<not> isAuthenticated s \<and> \<not> hasPendingVerification
          then Navigate ''/login'' (Some pathname)
        else if \<not> isAuthenticated s \<and> hasPendingVerification
                \<and> \<not> str_includes pathname ''/verify-email''
          then Navigate ''/verify-email'' None
        else if isAuthenticated s \<and> requireEmailVerified props \<and> \<not> user_verified (user s)
                \<and> \<not> allowedWithoutVerification pathname \<and> \<not> allowUnverified props
          then Navigate ''/verify-email'' (Some pathname)
        else if isAuthenticated s \<and> ownerOnly props
          then (case user s of
                  None \<Rightarrow> TypeError
                | Some usr \<Rightarrow>
                    if user_type usr \<noteq> ''owner'' then Navigate ''/unauthorized'' None
                    else if truthy (requiredPermission props)
                            \<and> \<not> hasPermission (user s) (js_string (requiredPermission props))
                                  (restaurantId props)
                      then Navigate ''/unauthorized'' None
                    else Children)
        else if isAuthenticated s \<and> truthy (requiredPermission props)
                \<and> \<not> hasPermission (user s) (js_string (requiredPermission props))
                      (restaurantId props)
          then Navigate ''/unauthorized'' None
        else Children)"

section \<open>The other route guards\<close>

text \<open>
  \<open>PublicRoute\<close> of the owner portal wraps the routes for anonymous visitors.  Its
  target is the path the visitor came from (\<open>location.state?.from?.pathname\<close>), or
  the \<open>redirectTo\<close> parameter, or a path chosen by the type of the account, which is
  \<open>undefined\<close> for an account that is neither owner nor staff.  The application
  mounts \<open>/login\<close> and \<open>/register\<close> with \<open>redirectTo = '/owner/dashboard'\<close>.
\<close>

record public_props =
  restricted :: bool
  redirectTo :: "string option"

datatype public_render = Redirect "string option" | Shown

definition getRedirectPath :: "public_props \<Rightarrow> auth_state \<Rightarrow> string option" where
  "getRedirectPath props s =
     (if truthy (redirectTo props) then redirectTo props
      else (case user s of
              None \<Rightarrow> None
            | Some usr \<Rightarrow>
                if user_type usr = ''owner'' then Some ''/owner/dashboard''
                else if user_type usr = ''staff'' then Some ''/staff/dashboard''
                else None))"

definition PublicRoute :: "public_props \<Rightarrow> auth_state \<Rightarrow> storage \<Rightarrow> string \<Rightarrow> string option \<Rightarrow> public_render" where
  "PublicRoute props s st pathname from_pathname =
     (if restricted props \<and> isAuthenticated s
        then Redirect (if truthy from_pathname then from_pathname else getRedirectPath props s)
      else if restricted props \<and> truthy (getItem st ''pendingVerificationEmail'')
              \<and> \<not> str_includes pathname ''/verify-email''
        then Redirect (Some ''/verify-email'')
      else if restricted props \<and> isAuthenticated s \<and> \<not> user_verified (user s)
              \<and> pathname \<noteq> ''/verify-email''
        then Redirect (Some ''/verify-email'')
      else Shown)"

text \<open>
  \<open>ProtectedRoute\<close> of the customer storefront reads \<open>isAuthenticated\<close> alone; the
  routes for anonymous visitors are mounted with \<open>requireAuth = false\<close>.
\<close>

definition customer_ProtectedRoute :: "bool \<Rightarrow> bool \<Rightarrow> string \<Rightarrow> render" where
  "customer_ProtectedRoute requireAuth authenticated pathname =
     (if requireAuth \<and> \<not> authenticated then Navigate ''/login'' (Some pathname)
      else if \<not> requireAuth \<and> authenticated then Navigate ''/'' None
      else Children)"

text \<open>\<open>authService.isAuthenticated\<close> of the customer storefront, the initial value of its flag.\<close>

definition customer_isAuthenticated :: "storage \<Rightarrow> bool" where
  "customer_isAuthenticated st = truthy (getItem st ''access_token'')"

section \<open>Actions and reducers of the auth slice\<close>

record tokens_rec =
  access :: "string option"
  refresh :: "string option"

text \<open>The body of a successful answer of an authentication endpoint.\<close>

record response =
  resp_user :: "user_rec option"
  tokens :: "tokens_rec option"
  requires_2fa :: bool
  message :: "string option"

text \<open>
  What \<open>loadUserFromToken\<close> resolves with: the profile, possibly with the profile
  nested once more under \<open>data\<close>.
\<close>

record loaded =
  l_user :: user_rec
  l_data :: "user_rec option"

datatype action =
    ClearError
  | SetLoginError "payload option"
  | SetRegisterError "payload option"
  | ClearAuth
  | ClearVerificationData
  | Set2FARequired "credentials option"
  | Clear2FA
  | SetEmailVerified "bool option"
  | DebugAuthState
  | InitializeCSRF_pending
  | InitializeCSRF_fulfilled
  | InitializeCSRF_rejected "payload option"
  | OwnerLogin_pending
  | OwnerLogin_fulfilled response credentials
  | OwnerLogin_rejected "payload option"
  | OwnerRegister_pending
  | OwnerRegister_fulfilled response
  | OwnerRegister_rejected "payload option"
  | LoadUserFromToken_pending
  | LoadUserFromToken_fulfilled loaded
  | LoadUserFromToken_rejected "payload option"
  | VerifyEmailCode_pending
  | VerifyEmailCode_fulfilled response
  | VerifyEmailCode_rejected "payload option"
  | ResendVerificationEmail_pending
  | ResendVerificationEmail_fulfilled response
  | ResendVerificationEmail_rejected "payload option"
  | OwnerVerifyEmail_pending
  | OwnerVerifyEmail_fulfilled response
  | OwnerVerifyEmail_rejected "payload option"
  | OwnerVerifyCode_pending
  | OwnerVerifyCode_fulfilled response
  | OwnerVerifyCode_rejected "payload option"
  | Verify2FACode_pending
  | Verify2FACode_fulfilled response
  | Verify2FACode_rejected "payload option"
  | SocialLogin_pending
  | SocialLogin_fulfilled response
  | SocialLogin_rejected "payload option"
  | Login_pending
  | Login_fulfilled response
  | Login_rejected "payload option"
  | Logout_pending
  | Logout_fulfilled response
  | Logout_rejected "payload option"

text \<open>\<open>x.email_verified !== undefined ? x.email_verified : true\<close>\<close>

definition verified_or_true :: "user_rec \<Rightarrow> user_rec" where
  "verified_or_true u =
     u\<lparr>email_verified := (case email_verified u of None \<Rightarrow> Some True | Some b \<Rightarrow> Some b)\<rparr>"

text \<open>\<open>payload.user?.user_type === 'owner'\<close>\<close>

definition is_owner_user :: "user_rec option \<Rightarrow> bool" where
  "is_owner_user u = (case u of None \<Rightarrow> False | Some usr \<Rightarrow> user_type usr = ''owner'')"

text \<open>\<open>payload.requiresVerification\<close> of a rejected login, read through \<open>?.\<close>\<close>

definition payload_requiresVerification :: "payload option \<Rightarrow> bool" where
  "payload_requiresVerification p =
     (case p of Some (Obj d) \<Rightarrow> requiresVerification d | _ \<Rightarrow> False)"

text \<open>\<open>payload.message || fallback\<close>\<close>

definition message_or :: "response \<Rightarrow> string \<Rightarrow> string" where
  "message_or r fallback = (if truthy (message r) then js_string (message r) else fallback)"

definition clearAuth :: "auth_state \<Rightarrow> storage \<Rightarrow> auth_state \<times> storage" where
  "clearAuth s st =
      ((s\<lparr> user := None, owner := None, restaurants := [], staff := [],
            token := None, refreshToken := None, isAuthenticated := False,
            isOwner := False, requires2FA := False, tempLoginData := None,
            error := None, loginError := None, registerError := None,
            staffError := None, verificationError := None, successMessage := None \<rparr>,
        removeItem (removeItem (removeItem (removeItem (removeItem st ''token'')
          ''refreshToken'') ''csrfToken'') ''pendingVerificationEmail'') ''pendingUserType''))"

text \<open>
  The reducer takes the session state and the local storage, since four of its cases
  write to the storage.  A case that throws (a field read on a missing \<open>user\<close> or
  \<open>tokens\<close>) leaves both as they were.  The thunks \<open>login\<close> and \<open>logout\<close> and the
  pending action of \<open>socialLogin\<close> have no case: the state is returned unchanged.
\<close>

primrec authReducer :: "action \<Rightarrow> auth_state \<Rightarrow> storage \<Rightarrow> auth_state \<times> storage" where
  "authReducer ClearError s st =
     (s\<lparr> error := None, csrfError := None, loginError := None, registerError := None,
          staffError := None, verificationError := None, successMessage := None \<rparr>, st)"
| "authReducer (SetLoginError p) s st = (s\<lparr> loginError := p \<rparr>, st)"
| "authReducer (SetRegisterError p) s st = (s\<lparr> registerError := p \<rparr>, st)"
| "authReducer ClearAuth s st = clearAuth s st"
| "authReducer ClearVerificationData s st =
     (s, removeItem (removeItem st ''pendingVerificationEmail'') ''pendingUserType'')"
| "authReducer (Set2FARequired c) s st = (s\<lparr> requires2FA := True, tempLoginData := c \<rparr>, st)"
| "authReducer Clear2FA s st = (s\<lparr> requires2FA := False, tempLoginData := None \<rparr>, st)"
| "authReducer (SetEmailVerified b) s st =
     (s\<lparr> user := map_option (\<lambda>u. u\<lparr>email_verified := b\<rparr>) (user s),
          owner := map_option (\<lambda>u. u\<lparr>email_verified := b\<rparr>) (owner s) \<rparr>, st)"
| "authReducer DebugAuthState s st = (s, st)"
| "authReducer InitializeCSRF_pending s st = (s\<lparr> csrfLoading := True, csrfError := None \<rparr>, st)"
| "authReducer InitializeCSRF_fulfilled s st =
     (s\<lparr> csrfLoading := False, csrfInitialized := True \<rparr>, st)"
| "authReducer (InitializeCSRF_rejected p) s st =
     (s\<lparr> csrfLoading := False, csrfError := p, csrfInitialized := True \<rparr>, st)"
| "authReducer OwnerLogin_pending s st = (s\<lparr> loginLoading := True, loginError := None \<rparr>, st)"
| "authReducer (OwnerLogin_fulfilled r arg) s st =
     (if requires_2fa r
      then (s\<lparr> loginLoading := False, requires2FA := True, tempLoginData := Some arg \<rparr>, st)
      else (case resp_user r of
              None \<Rightarrow> (s, st)
            | Some u \<Rightarrow>
               (case tokens r of
                  None \<Rightarrow> (s, st)
                | Some t \<Rightarrow>
                   (s\<lparr> loginLoading := False,
                        user := Some (verified_or_true u), owner := Some (verified_or_true u),
                        token := access t, refreshToken := refresh t,
                        isAuthenticated := True, isOwner := True,
                        successMessage := Some ''Login successful'' \<rparr>,
                    removeItem (removeItem
                      (setItem (setItem st ''token'' (js_string (access t)))
                         ''refreshToken'' (js_string (refresh t)))
                      ''pendingVerificationEmail'') ''pendingUserType''))))"
| "authReducer (OwnerLogin_rejected p) s st =
     (s\<lparr> loginLoading := False,
          loginError :=
            (if payload_requiresVerification p
             then Some (Obj \<lparr> err_text = Some ''Please verify your email to activate your account.'',
                             requiresVerification = True, err_email = None \<rparr>)
             else p) \<rparr>, st)"
| "authReducer OwnerRegister_pending s st =
     (s\<lparr> registerLoading := True, registerError := None \<rparr>, st)"
| "authReducer (OwnerRegister_fulfilled r) s st =
     (s\<lparr> registerLoading := False,
          successMessage := Some (message_or r
            ''Registration successful! Please check your email for verification.'') \<rparr>, st)"
| "authReducer (OwnerRegister_rejected p) s st =
     (s\<lparr> registerLoading := False, registerError := p \<rparr>, st)"
| "authReducer LoadUserFromToken_pending s st = (s\<lparr> loading := True \<rparr>, st)"
| "authReducer (LoadUserFromToken_fulfilled l) s st =
     (let userData = (case l_data l of Some d \<Rightarrow> d | None \<Rightarrow> l_user l);
          verifiedUserData = verified_or_true userData
      in (s\<lparr> loading := False, user := Some verifiedUserData, owner := Some verifiedUserData,
              isAuthenticated := True, isOwner := (user_type verifiedUserData = ''owner'') \<rparr>, st))"
| "authReducer (LoadUserFromToken_rejected p) s st =
     (s\<lparr> loading := False, isAuthenticated := False, user := None, owner := None \<rparr>, st)"
| "authReducer VerifyEmailCode_pending s st =
     (s\<lparr> verificationLoading := True, verificationError := None \<rparr>, st)"
| "authReducer (VerifyEmailCode_fulfilled r) s st =
     (s\<lparr> verificationLoading := False, user := resp_user r, isAuthenticated := True,
          successMessage := Some ''Email verified successfully!'' \<rparr>, st)"
| "authReducer (VerifyEmailCode_rejected p) s st =
     (s\<lparr> verificationLoading := False, verificationError := p \<rparr>, st)"
| "authReducer ResendVerificationEmail_pending s st =
     (s\<lparr> verificationLoading := True, verificationError := None \<rparr>, st)"
| "authReducer (ResendVerificationEmail_fulfilled r) s st =
     (s\<lparr> verificationLoading := False,
          successMessage := Some ''Verification code sent successfully!'' \<rparr>, st)"
| "authReducer (ResendVerificationEmail_rejected p) s st =
     (s\<lparr> verificationLoading := False, verificationError := p \<rparr>, st)"
| "authReducer OwnerVerifyEmail_pending s st =
     (s\<lparr> verificationLoading := True, verificationError := None \<rparr>, st)"
| "authReducer (OwnerVerifyEmail_fulfilled r) s st =
     (s\<lparr> verificationLoading := False,
          successMessage := Some (message_or r ''Verification email sent successfully!'') \<rparr>, st)"
| "authReducer (OwnerVerifyEmail_rejected p) s st =
     (s\<lparr> verificationLoading := False, verificationError := p \<rparr>, st)"
| "authReducer OwnerVerifyCode_pending s st =
     (s\<lparr> verificationLoading := True, verificationError := None \<rparr>, st)"
| "authReducer (OwnerVerifyCode_fulfilled r) s st =
     (s\<lparr> verificationLoading := False,
          successMessage := Some (message_or r
            ''Email verified successfully! You can now log in.'') \<rparr>, st)"
| "authReducer (OwnerVerifyCode_rejected p) s st =
     (s\<lparr> verificationLoading := False, verificationError := p \<rparr>, st)"
| "authReducer Verify2FACode_pending s st =
     (s\<lparr> verificationLoading := True, verificationError := None \<rparr>, st)"
| "authReducer (Verify2FACode_fulfilled r) s st =
     (case tokens r of
        None \<Rightarrow> (s, st)
      | Some t \<Rightarrow>
         (s\<lparr> verificationLoading := False, user := resp_user r,
              token := access t, refreshToken := refresh t,
              isAuthenticated := True, isOwner := is_owner_user (resp_user r),
              requires2FA := False, tempLoginData := None,
              successMessage := Some ''Login successful'' \<rparr>,
          setItem (setItem st ''token'' (js_string (access t)))
            ''refreshToken'' (js_string (refresh t))))"
| "authReducer (Verify2FACode_rejected p) s st =
     (s\<lparr> verificationLoading := False, verificationError := p \<rparr>, st)"
| "authReducer SocialLogin_pending s st = (s, st)"
| "authReducer (SocialLogin_fulfilled r) s st =
     (s\<lparr> user := resp_user r,
          token := (case tokens r of None \<Rightarrow> None | Some t \<Rightarrow> access t),
          refreshToken := (case tokens r of None \<Rightarrow> None | Some t \<Rightarrow> refresh t),
          isAuthenticated := True, isOwner := is_owner_user (resp_user r),
          successMessage := Some ''Login successful'' \<rparr>, st)"
| "authReducer (SocialLogin_rejected p) s st = (s\<lparr> loginError := p \<rparr>, st)"
| "authReducer Login_pending s st = (s, st)"
| "authReducer (Login_fulfilled r) s st = (s, st)"
| "authReducer (Login_rejected p) s st = (s, st)"
| "authReducer Logout_pending s st = (s, st)"
| "authReducer (Logout_fulfilled r) s st = (s, st)"
| "authReducer (Logout_rejected p) s st = (s, st)"

text \<open>
  The session states the store can be in: the initial state, computed from whatever the
  storage holds when the application starts, and every state a dispatched action leads to.
\<close>

inductive reachable :: "auth_state \<Rightarrow> bool" where
  start: "reachable (initialState st)"
| step: "reachable s \<Longrightarrow> reachable (fst (authReducer a s st))"

section \<open>The HTTP layer as the session controller sees it\<close>

text \<open>
  The thunks of registration, verification and social login are described for a
  request that has settled: it has resolved with the body of the answer or rejected
  with an error, of which the thunks read \<open>error.response?.data\<close> and
  \<open>error.message\<close>.  On the way the interceptors of the instance may have written
  the two keys they manage: \<open>token\<close> (after a refresh) and \<open>csrfToken\<close> (after a new
  acquisition, or removed after a rejected one).  What happens on the wire, and
  whether a request settles at all, is the subject of the sections on the HTTP client;
  \<open>logout\<close> is described there.
\<close>

record failure =
  f_data :: "err_data option"
  f_message :: string

datatype csrf_write = CsrfKeep | CsrfSet string | CsrfRemove

record http_result =
  outcome :: "failure + response"
  wrote_token :: "string option"
  wrote_csrf :: csrf_write

type_synonym http = "string \<Rightarrow> storage \<Rightarrow> http_result"

text \<open>The store, the local storage, and the URLs requested so far.\<close>

record store =
  auth :: auth_state
  ls :: storage
  calls :: "string list"

definition api_post :: "http \<Rightarrow> string \<Rightarrow> store \<Rightarrow> (failure + response) \<times> store" where
  "api_post h url w =
     (let r = h url (ls w);
          st1 = (case wrote_token r of None \<Rightarrow> ls w | Some t \<Rightarrow> setItem (ls w) ''token'' t);
          st2 = (case wrote_csrf r of
                   CsrfKeep \<Rightarrow> st1
                 | CsrfSet c \<Rightarrow> setItem st1 ''csrfToken'' c
                 | CsrfRemove \<Rightarrow> removeItem st1 ''csrfToken'')
      in (outcome r, w\<lparr> ls := st2, calls := calls w @ [url] \<rparr>))"

definition dispatch :: "action \<Rightarrow> store \<Rightarrow> store" where
  "dispatch a w =
     (case authReducer a (auth w) (ls w) of (s', st') \<Rightarrow> w\<lparr> auth := s', ls := st' \<rparr>)"

text \<open>\<open>error.response?.data || error.message\<close>\<close>

definition rejected_value :: "failure \<Rightarrow> payload option" where
  "rejected_value e = (case f_data e of Some d \<Rightarrow> Some (Obj d) | None \<Rightarrow> Some (Msg (f_message e)))"

subsection \<open>services/authService.js\<close>

definition svc_ownerRegister :: "http \<Rightarrow> store \<Rightarrow> (failure + response) \<times> store" where
  "svc_ownerRegister h w = api_post h ''/owner/auth/register/'' w"

definition svc_verifyEmailCode :: "http \<Rightarrow> store \<Rightarrow> (failure + response) \<times> store" where
  "svc_verifyEmailCode h w = api_post h ''/auth/verify-code/'' w"

definition svc_googleLogin :: "http \<Rightarrow> store \<Rightarrow> (failure + response) \<times> store" where
  "svc_googleLogin h w = api_post h ''/auth/google/login/'' w"

definition svc_facebookLogin :: "http \<Rightarrow> store \<Rightarrow> (failure + response) \<times> store" where
  "svc_facebookLogin h w = api_post h ''/auth/facebook/login/'' w"

subsection \<open>The thunks of the auth slice\<close>

text \<open>
  A thunk dispatches its pending action, runs its payload creator, and dispatches the
  fulfilled or the rejected action, which it also returns: the promise of a dispatched
  thunk always resolves with one of the two.
\<close>

definition store_tokens :: "response \<Rightarrow> store \<Rightarrow> store" where
  "store_tokens d w =
     (case tokens d of
        Some t \<Rightarrow>
          if truthy (access t)
          then w\<lparr> ls := setItem (setItem (ls w) ''token'' (js_string (access t)))
                           ''refreshToken'' (js_string (refresh t)) \<rparr>
          else w
      | None \<Rightarrow> w)"

record owner_data =
  reg_email :: string
  reg_password :: string

definition ownerRegister :: "http \<Rightarrow> owner_data \<Rightarrow> store \<Rightarrow> action \<times> store" where
  "ownerRegister h ownerData w =
     (case svc_ownerRegister h (dispatch OwnerRegister_pending w) of
        (Inr d, w1) \<Rightarrow>
          (OwnerRegister_fulfilled d,
           dispatch (OwnerRegister_fulfilled d)
             (w1\<lparr> ls := setItem (setItem (ls w1) ''pendingVerificationEmail'' (reg_email ownerData))
                            ''pendingUserType'' ''owner'' \<rparr>))
      | (Inl e, w1) \<Rightarrow>
          (OwnerRegister_rejected (rejected_value e),
           dispatch (OwnerRegister_rejected (rejected_value e)) w1))"

text \<open>The e-mail address and the code travel in the request body.\<close>

definition verifyEmailCode :: "http \<Rightarrow> string \<Rightarrow> string \<Rightarrow> store \<Rightarrow> action \<times> store" where
  "verifyEmailCode h mail code w =
     (case svc_verifyEmailCode h (dispatch VerifyEmailCode_pending w) of
        (Inr d, w1) \<Rightarrow>
          (VerifyEmailCode_fulfilled d,
           dispatch (VerifyEmailCode_fulfilled d)
             (w1\<lparr> ls := removeItem (removeItem (ls w1) ''pendingVerificationEmail'')
                            ''pendingUserType'' \<rparr>))
      | (Inl e, w1) \<Rightarrow>
          (VerifyEmailCode_rejected (rejected_value e),
           dispatch (VerifyEmailCode_rejected (rejected_value e)) w1))"

text \<open>
  \<open>socialLogin\<close>: the exception for an unknown provider is thrown inside the
  \<open>try\<close> block, so the \<open>catch\<close> of the same block receives it; it carries no
  \<open>response\<close>, and the thunk rejects with the generic object.
\<close>

definition social_failed :: "string \<Rightarrow> payload option" where
  "social_failed provider =
     Some (Obj \<lparr> err_text = Some (provider @ '' authentication failed''),
                requiresVerification = False, err_email = None \<rparr>)"

definition social_rejected_value :: "string \<Rightarrow> failure \<Rightarrow> payload option" where
  "social_rejected_value provider e =
     (case f_data e of Some d \<Rightarrow> Some (Obj d) | None \<Rightarrow> social_failed provider)"

definition social_settle :: "string \<Rightarrow> (failure + response) \<times> store \<Rightarrow> action \<times> store" where
  "social_settle provider rw =
     (case rw of
        (Inr d, w1) \<Rightarrow>
          (SocialLogin_fulfilled d, dispatch (SocialLogin_fulfilled d) (store_tokens d w1))
      | (Inl e, w1) \<Rightarrow>
          (SocialLogin_rejected (social_rejected_value provider e),
           dispatch (SocialLogin_rejected (social_rejected_value provider e)) w1))"

definition socialLogin :: "http \<Rightarrow> string \<Rightarrow> string \<Rightarrow> store \<Rightarrow> action \<times> store" where
  "socialLogin h provider tok w =
     (let w0 = dispatch SocialLogin_pending w in
      if provider = ''google'' then social_settle provider (svc_googleLogin h w0)
      else if provider = ''facebook'' then social_settle provider (svc_facebookLogin h w0)
      else (SocialLogin_rejected (social_failed provider),
            dispatch (SocialLogin_rejected (social_failed provider)) w0))"

subsection \<open>Example values\<close>

definition staff_user :: user_rec where
  "staff_user = \<lparr> email = ''staff@example.com'', user_type = ''staff'',
                  email_verified = Some True, staff_profile = None \<rparr>"

definition owner_user :: user_rec where
  "owner_user = \<lparr> email = ''owner@example.com'', user_type = ''owner'',
                  email_verified = Some True, staff_profile = None \<rparr>"

definition customer_user :: user_rec where
  "customer_user = \<lparr> email = ''guest@example.com'', user_type = ''customer'',
                     email_verified = Some True, staff_profile = None \<rparr>"

definition signed_in :: "user_rec \<Rightarrow> auth_state" where
  "signed_in u = (initialState Map.empty)\<lparr> user := Some u, isAuthenticated := True \<rparr>"

definition login_answer :: response where
  "login_answer = \<lparr> resp_user = Some owner_user,
                     tokens = Some \<lparr> access = Some ''a1'', refresh = Some ''r1'' \<rparr>,
                     requires_2fa = False, message = None \<rparr>"

definition empty_answer :: response where
  "empty_answer = \<lparr> resp_user = None, tokens = None, requires_2fa = False, message = None \<rparr>"

definition http_ok :: "response \<Rightarrow> http" where
  "http_ok d url st = \<lparr> outcome = Inr d, wrote_token = None, wrote_csrf = CsrfKeep \<rparr>"

definition http_fail :: "failure \<Rightarrow> http" where
  "http_fail e url st = \<lparr> outcome = Inl e, wrote_token = None, wrote_csrf = CsrfKeep \<rparr>"

definition network_down :: failure where
  "network_down = \<lparr> f_data = None, f_message = ''Network Error'' \<rparr>"

definition invalid_code :: failure where
  "invalid_code = \<lparr> f_data = Some \<lparr> err_text = Some ''Invalid or expired code'',
                                      requiresVerification = False, err_email = None \<rparr>,
                     f_message = ''Request failed with status code 400'' \<rparr>"

definition fresh_store :: "storage \<Rightarrow> store" where
  "fresh_store st = \<lparr> auth = initialState st, ls = st, calls = [] \<rparr>"

definition after_register :: store where
  "after_register =
     snd (ownerRegister (http_ok empty_answer)
            \<lparr> reg_email = ''new@example.com'', reg_password = ''pw'' \<rparr>
            (fresh_store Map.empty))"

section \<open>Requests, answers and the server\<close>

datatype http_method = GET | POST | PUT | PATCH | DELETE | HEAD

text \<open>
  A request configuration: the target, the method, the three headers the clients set,
  the two retry marks the owner client puts on a configuration (\<open>_csrfRetried\<close>,
  \<open>_retry\<close>; the customer client uses \<open>_retry\<close> alone), and the \<open>refresh\<close> field
  of the body of a token-refresh request.
\<close>

record config =
  url :: string
  http_verb :: http_method
  authorization :: "string option"
  x_csrftoken :: "string option"
  x_csrf_request :: bool
  csrfRetried :: bool
  retry :: bool
  refresh_field :: "string option"

text \<open>The fields the clients read from the body of an answer.\<close>

record body =
  b_csrfToken :: "string option"
  b_access :: "string option"

text \<open>
  The server answers a request with a status and a body, or not at all (a network
  failure); its answer may depend on the requests it has received before.
\<close>

datatype reply = Reply nat body | NoReply

type_synonym server = "config list \<Rightarrow> config \<Rightarrow> reply"

text \<open>
  What a promise rejects with: an axios error with a response, an axios error without
  one, or a plain \<open>Error\<close> with a message.
\<close>

datatype api_error = HttpError nat body | NetworkError | PlainError string

text \<open>\<open>error.response?.status\<close>\<close>

definition status_of :: "api_error \<Rightarrow> nat option" where
  "status_of e = (case e of HttpError code b \<Rightarrow> Some code | _ \<Rightarrow> None)"

text \<open>axios resolves a promise for a status from 200 to 299 and rejects it otherwise.\<close>

definition settle_reply :: "reply \<Rightarrow> api_error + body" where
  "settle_reply r =
     (case r of
        Reply code b \<Rightarrow> if 200 \<le> code \<and> code < 300 then Inr b else Inl (HttpError code b)
      | NoReply \<Rightarrow> Inl NetworkError)"

definition plain_request :: "string \<Rightarrow> http_method \<Rightarrow> config" where
  "plain_request u m =
     \<lparr> url = u, http_verb = m, authorization = None, x_csrftoken = None,
       x_csrf_request = False, csrfRetried = False, retry = False, refresh_field = None \<rparr>"

section \<open>The HTTP client of the owner portal (services/api.js)\<close>

text \<open>
  A pending \<open>initializationPromise\<close> is identified by the number of the attempt that
  created it.  Seen from one chain of calls it is either a promise the chain has
  created itself, whose request the chain is still handling, or the promise of
  another caller, whose request is under way; what that request settles with (or
  \<open>None\<close>, if it never settles) is then an input, as the answers of the server are.
\<close>

datatype pending = Mine nat | Theirs nat "(api_error + body) option"

primrec promise_id :: "pending \<Rightarrow> nat" where
  "promise_id (Mine p) = p"
| "promise_id (Theirs p r) = p"

text \<open>
  The state of the module: the local storage, the four module variables, and the
  requests handed to the network so far.
\<close>

record client =
  localStorage :: storage
  csrfToken :: "string option"
  isInitialized :: bool
  initializationPromise :: "pending option"
  initializationCount :: nat
  sent :: "config list"

definition load_client :: "storage \<Rightarrow> client" where
  "load_client st =
     \<lparr> localStorage = st, csrfToken = getItem st ''csrfToken'', isInitialized = False,
       initializationPromise = None, initializationCount = 0, sent = [] \<rparr>"

subsection \<open>\<open>getCSRFToken\<close>\<close>

text \<open>
  The function runs without interruption up to its \<open>await\<close>: it returns the cached
  token, or the pending promise, or it counts a new attempt, starts the request and
  stores the new promise.
\<close>

datatype handle = Cached string | Joined nat | Started nat

definition getCSRFToken_call :: "bool \<Rightarrow> client \<Rightarrow> handle \<times> client" where
  "getCSRFToken_call forceRefresh c =
     (if \<not> forceRefresh \<and> truthy (csrfToken c) then (Cached (js_string (csrfToken c)), c)
      else (case initializationPromise c of
              Some q \<Rightarrow> (Joined (promise_id q), c)
            | None \<Rightarrow>
                (Started (Suc (initializationCount c)),
                 c\<lparr> initializationCount := Suc (initializationCount c),
                    initializationPromise := Some (Mine (Suc (initializationCount c))) \<rparr>)))"

text \<open>
  The rest of the function runs when the request has settled: the \<open>try\<close> body, the
  \<open>catch\<close>, which forgets the cached token for the statuses 403 and 401 only, and the
  \<open>finally\<close>.  Its result settles the promise, for the caller that started the request
  and for every caller that joined it.
\<close>

definition getCSRFToken_settle :: "api_error + body \<Rightarrow> client \<Rightarrow> (api_error + string) \<times> client" where
  "getCSRFToken_settle r c =
     (case r of
        Inr b \<Rightarrow>
          if truthy (b_csrfToken b)
          then (Inr (js_string (b_csrfToken b)),
                c\<lparr> csrfToken := b_csrfToken b,
                   localStorage := setItem (localStorage c) ''csrfToken'' (js_string (b_csrfToken b)),
                   isInitialized := True, initializationPromise := None \<rparr>)
          else (Inl (PlainError ''No CSRF token in response''),
                c\<lparr> initializationPromise := None \<rparr>)
      | Inl e \<Rightarrow>
          if status_of e = Some 403 \<or> status_of e = Some 401
          then (Inl e, c\<lparr> csrfToken := None,
                          localStorage := removeItem (localStorage c) ''csrfToken'',
                          isInitialized := False, initializationPromise := None \<rparr>)
          else (Inl e, c\<lparr> initializationPromise := None \<rparr>))"

definition csrf_request :: config where
  "csrf_request = (plain_request ''/auth/csrf/'' GET)\<lparr> x_csrf_request := True \<rparr>"

text \<open>
  Waiting for the pending promise.  The promise of another caller settles when that
  caller's request has settled and the rest of its \<open>getCSRFToken\<close> has run; the
  waiting chain then goes on with the result.  A promise of the chain's own is
  found pending only by a call made while its request is being handled, and that
  request cannot settle before the call returns: the call waits for ever.
\<close>

definition await_promise :: "client \<Rightarrow> (api_error + string) option \<times> client" where
  "await_promise c =
     (case initializationPromise c of
        Some (Theirs p (Some r)) \<Rightarrow> (case getCSRFToken_settle r c of (t, c1) \<Rightarrow> (Some t, c1))
      | _ \<Rightarrow> (None, c))"

text \<open>
  One chain of calls.  \<open>self\<close> is the axios instance, through which the request is
  made; a call returns what its promise settles with, or \<open>None\<close> when the promise has
  not settled, together with the state it has reached.
\<close>

type_synonym axios_instance = "config \<Rightarrow> client \<Rightarrow> (api_error + body) option \<times> client"

definition getCSRFToken_via :: "axios_instance \<Rightarrow> bool \<Rightarrow> client \<Rightarrow> (api_error + string) option \<times> client" where
  "getCSRFToken_via self forceRefresh c =
     (case getCSRFToken_call forceRefresh c of
        (Cached t, c1) \<Rightarrow> (Some (Inr t), c1)
      | (Joined p, c1) \<Rightarrow> await_promise c1
      | (Started p, c1) \<Rightarrow>
          (case self csrf_request c1 of
             (None, c2) \<Rightarrow> (None, c2)
           | (Some r, c2) \<Rightarrow>
               (case getCSRFToken_settle r c2 of (t, c3) \<Rightarrow> (Some t, c3))))"

subsection \<open>The interceptors\<close>

definition isStateChangingMethod :: "http_method \<Rightarrow> bool" where
  "isStateChangingMethod m = (m = POST \<or> m = PUT \<or> m = PATCH \<or> m = DELETE)"

definition request_interceptor :: "client \<Rightarrow> config \<Rightarrow> config" where
  "request_interceptor c cfg =
     (let cfg1 = (if truthy (getItem (localStorage c) ''token'')
                  then cfg\<lparr> authorization :=
                         Some (''Bearer '' @ js_string (getItem (localStorage c) ''token'')) \<rparr>
                  else cfg)
      in if isStateChangingMethod (http_verb cfg1) \<and> startsWith (url cfg1) ''/''
            \<and> \<not> x_csrf_request cfg1 \<and> truthy (csrfToken c)
         then cfg1\<lparr> x_csrftoken := csrfToken c \<rparr>
         else cfg1)"

definition refresh_request :: "string \<Rightarrow> config" where
  "refresh_request t = (plain_request ''/auth/token/refresh/'' POST)\<lparr> refresh_field := Some t \<rparr>"

text \<open>
  The 401 branch of the response interceptor and the final \<open>Promise.reject(error)\<close>.
  The refresh request goes through the same instance.  When it fails the \<open>catch\<close>
  only logs, and the original error is rejected.
\<close>

definition handle_unauthorized :: "axios_instance \<Rightarrow> api_error \<Rightarrow> config \<Rightarrow> client \<Rightarrow> (api_error + body) option \<times> client" where
  "handle_unauthorized self err originalRequest c =
     (if status_of err = Some 401 \<and> \<not> retry originalRequest then
        (if truthy (getItem (localStorage c) ''refreshToken'') then
           (case self (refresh_request (js_string (getItem (localStorage c) ''refreshToken''))) c of
              (None, c1) \<Rightarrow> (None, c1)
            | (Some (Inr b), c1) \<Rightarrow>
                self (originalRequest\<lparr> retry := True,
                        authorization := Some (''Bearer '' @ js_string (b_access b)) \<rparr>)
                     (c1\<lparr> localStorage := setItem (localStorage c1) ''token'' (js_string (b_access b)) \<rparr>)
            | (Some (Inl refreshError), c1) \<Rightarrow> (Some (Inl err), c1))
         else (Some (Inl err), c))
      else (Some (Inl err), c))"

text \<open>
  The error handler of the response interceptor: the 403 branch first.  Its \<open>catch\<close>
  receives a failure of \<open>getCSRFToken\<close> only: the repeated request is returned, not
  awaited, so its outcome is the outcome of the handler.  The same holds for the
  repeated request of the 401 branch.
\<close>

definition response_rejected :: "axios_instance \<Rightarrow> api_error \<Rightarrow> config \<Rightarrow> client \<Rightarrow> (api_error + body) option \<times> client" where
  "response_rejected self err originalRequest c =
     (if status_of err = Some 403 \<and> \<not> csrfRetried originalRequest
         \<and> \<not> x_csrf_request originalRequest then
        (case getCSRFToken_via self True c of
           (None, c1) \<Rightarrow> (None, c1)
         | (Some (Inl csrfErr), c1) \<Rightarrow>
             (Some (Inl (PlainError ''Security token validation failed'')), c1)
         | (Some (Inr t), c1) \<Rightarrow>
             if truthy (csrfToken c1)
             then self (originalRequest\<lparr> csrfRetried := True, x_csrftoken := csrfToken c1 \<rparr>) c1
             else handle_unauthorized self err (originalRequest\<lparr> csrfRetried := True \<rparr>) c1)
      else handle_unauthorized self err originalRequest c)"

text \<open>
  One pass of a request through the instance: the request interceptor, the network,
  and the response interceptor.
\<close>

definition api_pass :: "axios_instance \<Rightarrow> server \<Rightarrow> axios_instance" where
  "api_pass self srv cfg c =
     (let cfg1 = request_interceptor c cfg;
          c1 = c\<lparr> sent := sent c @ [cfg1] \<rparr>
      in case settle_reply (srv (sent c) cfg1) of
           Inr b \<Rightarrow> (Some (Inr b), c1)
         | Inl err \<Rightarrow> response_rejected self err cfg1 c1)"

text \<open>
  The instance.  Handling a response can make requests through the instance again, to
  no depth known in advance; the first argument bounds the depth of such calls.  At
  depth \<open>0\<close> nothing is sent and nothing has settled.
\<close>

primrec api :: "nat \<Rightarrow> server \<Rightarrow> axios_instance" where
  "api 0 srv = (\<lambda>cfg c. (None, c))"
| "api (Suc n) srv = api_pass (api n srv) srv"

definition getCSRFToken :: "nat \<Rightarrow> server \<Rightarrow> bool \<Rightarrow> client \<Rightarrow> (api_error + string) option \<times> client" where
  "getCSRFToken n srv forceRefresh c = getCSRFToken_via (api n srv) forceRefresh c"

definition initializeApp :: "nat \<Rightarrow> server \<Rightarrow> client \<Rightarrow> (api_error + string) option \<times> client" where
  "initializeApp n srv c =
     (if isInitialized c \<and> truthy (csrfToken c) then (Some (Inr (js_string (csrfToken c))), c)
      else if initializationPromise c \<noteq> None then await_promise c
      else getCSRFToken n srv False c)"

subsection \<open>Several callers before the request settles\<close>

text \<open>
  The callers run one after the other, each up to its \<open>await\<close>, before the pending
  request settles.  Of the pending promise they see the number only.
\<close>

fun getCSRFToken_calls :: "bool list \<Rightarrow> client \<Rightarrow> handle list \<times> client" where
  "getCSRFToken_calls [] c = ([], c)"
| "getCSRFToken_calls (f # fs) c =
     (case getCSRFToken_call f c of
        (h, c1) \<Rightarrow> (case getCSRFToken_calls fs c1 of (hs, c2) \<Rightarrow> (h # hs, c2)))"

definition started :: "handle list \<Rightarrow> nat" where
  "started hs = length (filter (\<lambda>h. case h of Started p \<Rightarrow> True | _ \<Rightarrow> False) hs)"

text \<open>
  The pending request settles with \<open>r\<close>: the rest of \<open>getCSRFToken\<close> runs in the
  caller that started it, and the pending promise, of which the number is returned,
  settles with its result.
\<close>

definition settle_pending :: "api_error + body \<Rightarrow> client \<Rightarrow> (nat \<times> (api_error + string)) option \<times> client" where
  "settle_pending r c =
     (case initializationPromise c of
        None \<Rightarrow> (None, c)
      | Some q \<Rightarrow> (case getCSRFToken_settle r c of (t, c1) \<Rightarrow> (Some (promise_id q, t), c1)))"

text \<open>
  What a caller has received once promise \<open>p\<close> has settled with \<open>t\<close>: the cached
  token it was given at once, or \<open>t\<close> if \<open>p\<close> is the promise it holds, or nothing yet.
\<close>

definition received :: "nat \<Rightarrow> api_error + string \<Rightarrow> handle \<Rightarrow> (api_error + string) option" where
  "received p t h =
     (case h of
        Cached v \<Rightarrow> Some (Inr v)
      | Joined q \<Rightarrow> if q = p then Some t else None
      | Started q \<Rightarrow> if q = p then Some t else None)"

section \<open>The portal: the store and the HTTP client\<close>

text \<open>
  The owner portal as the thunks \<open>initializeCSRF\<close> and \<open>logout\<close> see it: the
  session state of the store and the HTTP client, whose local storage is the one the
  reducers write to.
\<close>

record portal =
  p_auth :: auth_state
  p_client :: client

definition portal_dispatch :: "action \<Rightarrow> portal \<Rightarrow> portal" where
  "portal_dispatch a w =
     (case authReducer a (p_auth w) (localStorage (p_client w)) of
        (s', st') \<Rightarrow> w\<lparr> p_auth := s', p_client := (p_client w)\<lparr> localStorage := st' \<rparr> \<rparr>)"

text \<open>The portal when the application is loaded in a browser whose storage is \<open>st\<close>.\<close>

definition new_portal :: "storage \<Rightarrow> portal" where
  "new_portal st = \<lparr> p_auth = initialState st, p_client = load_client st \<rparr>"

subsection \<open>\<open>initializeCSRF\<close> of the auth slice\<close>

text \<open>
  The thunk reads \<open>csrfInitialized\<close> after its pending action has been reduced.  It
  catches a failure of \<open>initializeApp\<close> and returns an object, so it is fulfilled
  whatever \<open>initializeApp\<close> settles with; while \<open>initializeApp\<close> has not settled
  the thunk has not settled either (\<open>None\<close>).
\<close>

definition initializeCSRF :: "nat \<Rightarrow> server \<Rightarrow> portal \<Rightarrow> action option \<times> portal" where
  "initializeCSRF n srv w =
     (let w0 = portal_dispatch InitializeCSRF_pending w in
      if csrfInitialized (p_auth w0)
      then (Some InitializeCSRF_fulfilled, portal_dispatch InitializeCSRF_fulfilled w0)
      else (case initializeApp n srv (p_client w0) of
              (None, c1) \<Rightarrow> (None, w0\<lparr> p_client := c1 \<rparr>)
            | (Some (Inr t), c1) \<Rightarrow>
                (Some InitializeCSRF_fulfilled,
                 portal_dispatch InitializeCSRF_fulfilled (w0\<lparr> p_client := c1 \<rparr>))
            | (Some (Inl e), c1) \<Rightarrow>
                (Some InitializeCSRF_fulfilled,
                 portal_dispatch InitializeCSRF_fulfilled (w0\<lparr> p_client := c1 \<rparr>))))"

section \<open>Logout (services/authService.js and the thunk of the auth slice)\<close>

definition logout_request :: config where
  "logout_request = plain_request ''/auth/logout/'' POST"

text \<open>
  \<open>authService.logout\<close> awaits the request, made through the instance; only when it
  has resolved are the three keys removed.  While the request has not settled the
  function has not returned.
\<close>

definition svc_logout :: "nat \<Rightarrow> server \<Rightarrow> portal \<Rightarrow> (api_error + body) option \<times> portal" where
  "svc_logout n srv w =
     (case api n srv logout_request (p_client w) of
        (None, c1) \<Rightarrow> (None, w\<lparr> p_client := c1 \<rparr>)
      | (Some (Inl e), c1) \<Rightarrow> (Some (Inl e), w\<lparr> p_client := c1 \<rparr>)
      | (Some (Inr b), c1) \<Rightarrow>
          (Some (Inr b),
           w\<lparr> p_client := c1\<lparr> localStorage :=
                   removeItem (removeItem (removeItem (localStorage c1) ''token'')
                     ''refreshToken'') ''csrfToken'' \<rparr> \<rparr>))"

text \<open>
  The slice has no case for the actions of \<open>logout\<close>, so their payloads are never
  read.  Of the answer the fulfilled action keeps the fields a \<open>response\<close> has, of
  which the body of an answer, as the client reads it, has none; the rejected action
  carries \<open>error.response?.data || error.message\<close>.
\<close>

definition logout_answer :: "body \<Rightarrow> response" where
  "logout_answer b = \<lparr> resp_user = None, tokens = None, requires_2fa = False, message = None \<rparr>"

definition error_payload :: "api_error \<Rightarrow> payload option" where
  "error_payload e =
     (case e of
        HttpError code b \<Rightarrow>
          Some (Obj \<lparr> err_text = None, requiresVerification = False, err_email = None \<rparr>)
      | NetworkError \<Rightarrow> Some (Msg ''Network Error'')
      | PlainError m \<Rightarrow> Some (Msg m))"

text \<open>
  The thunk: \<open>clearAuth\<close> is dispatched after \<open>authService.logout\<close> has returned
  or thrown, and the thunk settles with its fulfilled or rejected action.  While
  \<open>authService.logout\<close> has not returned, nothing of this has happened (\<open>None\<close>).
\<close>

definition logout :: "nat \<Rightarrow> server \<Rightarrow> portal \<Rightarrow> action option \<times> portal" where
  "logout n srv w =
     (case svc_logout n srv (portal_dispatch Logout_pending w) of
        (None, w1) \<Rightarrow> (None, w1)
      | (Some (Inr b), w1) \<Rightarrow>
          (Some (Logout_fulfilled (logout_answer b)),
           portal_dispatch (Logout_fulfilled (logout_answer b)) (portal_dispatch ClearAuth w1))
      | (Some (Inl e), w1) \<Rightarrow>
          (Some (Logout_rejected (error_payload e)),
           portal_dispatch (Logout_rejected (error_payload e)) (portal_dispatch ClearAuth w1)))"

section \<open>The HTTP client of the customer storefront (services/api.js)\<close>

text \<open>
  The state: the local storage, the value of the \<open>csrftoken\<close> cookie in
  \<open>document.cookie\<close>, the last assignment to \<open>window.location.href\<close>, and the
  requests handed to the network.
\<close>

record customer =
  c_storage :: storage
  cookie :: "string option"
  location_href :: "string option"
  c_sent :: "config list"

text \<open>\<open>getCSRFToken\<close> of this client reads the cookie: \<open>cookiesValue || ''\<close>.\<close>

definition cookie_token :: "customer \<Rightarrow> string" where
  "cookie_token c = (case cookie c of None \<Rightarrow> [] | Some v \<Rightarrow> v)"

definition customer_csrf_request :: config where
  "customer_csrf_request = plain_request ''/api/auth/csrf/'' GET"

text \<open>A request made with the bare \<open>axios\<close>, which has no interceptors.\<close>

definition bare :: "server \<Rightarrow> config \<Rightarrow> customer \<Rightarrow> (api_error + body) \<times> customer" where
  "bare srv cfg c = (settle_reply (srv (c_sent c) cfg), c\<lparr> c_sent := c_sent c @ [cfg] \<rparr>)"

text \<open>
  \<open>ensureCSRFToken\<close> up to its \<open>await\<close>: with a cookie it has the token, without one
  it starts a request of its own.
\<close>

datatype ensure = Have string | Fetching

definition ensureCSRFToken_call :: "customer \<Rightarrow> ensure \<times> customer" where
  "ensureCSRFToken_call c =
     (if cookie_token c \<noteq> [] then (Have (cookie_token c), c)
      else (Fetching, c\<lparr> c_sent := c_sent c @ [customer_csrf_request] \<rparr>))"

fun ensureCSRFToken_calls :: "nat \<Rightarrow> customer \<Rightarrow> ensure list \<times> customer" where
  "ensureCSRFToken_calls 0 c = ([], c)"
| "ensureCSRFToken_calls (Suc n) c =
     (case ensureCSRFToken_call c of
        (h, c1) \<Rightarrow> (case ensureCSRFToken_calls n c1 of (hs, c2) \<Rightarrow> (h # hs, c2)))"

text \<open>The whole function: a failed request is logged and the empty token returned.\<close>

definition ensureCSRFToken :: "server \<Rightarrow> customer \<Rightarrow> string option \<times> customer" where
  "ensureCSRFToken srv c =
     (if cookie_token c \<noteq> [] then (Some (cookie_token c), c)
      else (case bare srv customer_csrf_request c of
              (Inr b, c1) \<Rightarrow> (b_csrfToken b, c1)
            | (Inl e, c1) \<Rightarrow> (Some [], c1)))"

definition customer_request_interceptor :: "server \<Rightarrow> config \<Rightarrow> customer \<Rightarrow> config \<times> customer" where
  "customer_request_interceptor srv cfg c =
     (let (cfg1, c1) =
            (if http_verb cfg \<noteq> GET
             then (case ensureCSRFToken srv c of
                     (t, c') \<Rightarrow> (if truthy t then cfg\<lparr> x_csrftoken := t \<rparr> else cfg, c'))
             else (cfg, c))
      in if truthy (getItem (c_storage c1) ''access_token'')
         then (cfg1\<lparr> authorization :=
                  Some (''Bearer '' @ js_string (getItem (c_storage c1) ''access_token'')) \<rparr>, c1)
         else (cfg1, c1))"

definition customer_sign_out :: "customer \<Rightarrow> customer" where
  "customer_sign_out c =
     c\<lparr> c_storage := removeItem (removeItem (removeItem (c_storage c) ''access_token'')
                         ''refresh_token'') ''user'',
        location_href := Some ''/login'' \<rparr>"

text \<open>
  The instance of the customer client.  A configuration is sent again only with
  \<open>_retry\<close> set, and both branches of the error handler require it unset, so the
  recursion ends after one repetition.  The \<open>catch\<close> of the 403 branch is never
  entered: \<open>ensureCSRFToken\<close> catches its own failure, and the repeated request is
  returned, not awaited.  The \<open>catch\<close> of the 401 branch receives a failure of the
  refresh request.
\<close>

function customer_api :: "server \<Rightarrow> config \<Rightarrow> customer \<Rightarrow> (api_error + body) \<times> customer" where
  "customer_api srv cfg c =
     (case customer_request_interceptor srv cfg c of
        (cfg1, c1) \<Rightarrow>
          (case settle_reply (srv (c_sent c1) cfg1) of
             Inr b \<Rightarrow> (Inr b, c1\<lparr> c_sent := c_sent c1 @ [cfg1] \<rparr>)
           | Inl err \<Rightarrow>
               (let c2 = c1\<lparr> c_sent := c_sent c1 @ [cfg1] \<rparr> in
                if status_of err = Some 403 \<and> \<not> retry cfg1 then
                  (case ensureCSRFToken srv c2 of
                     (newCSRFToken, c3) \<Rightarrow>
                       customer_api srv (cfg1\<lparr> retry := True, x_csrftoken := newCSRFToken \<rparr>) c3)
                else if status_of err = Some 401 \<and> \<not> retry cfg1 then
                  (if truthy (getItem (c_storage c2) ''refresh_token'') then
                     (case bare srv (refresh_request
                                 (js_string (getItem (c_storage c2) ''refresh_token''))
                               \<lparr> url := ''/api/auth/token/refresh/'' \<rparr>) c2 of
                        (Inr b, c3) \<Rightarrow>
                          customer_api srv
                            (cfg1\<lparr> retry := True,
                                  authorization := Some (''Bearer '' @ js_string (b_access b)) \<rparr>)
                            (c3\<lparr> c_storage := setItem (c_storage c3) ''access_token''
                                                  (js_string (b_access b)) \<rparr>)
                      | (Inl refreshError, c3) \<Rightarrow> (Inl refreshError, customer_sign_out c3))
                   else (Inl err, c2))
                else (Inl err, c2))))"
  by pat_completeness auto

lemma customer_request_interceptor_retry:
  "retry (fst (customer_request_interceptor srv cfg c)) = retry cfg"
  by (simp add: customer_request_interceptor_def Let_def split: prod.splits)

termination customer_api
proof (relation "measure (\<lambda>(srv, cfg, c). if retry cfg then 0 else 1)")
  show "wf (measure (\<lambda>(srv, cfg, c). if retry cfg then 0 else (1::nat)))" by simp
qed (use customer_request_interceptor_retry in \<open>auto dest: arg_cong [where f = "\<lambda>p. retry (fst p)"]\<close>)

section \<open>Example servers and clients\<close>

definition no_body :: body where
  "no_body = \<lparr> b_csrfToken = None, b_access = None \<rparr>"

text \<open>A server that accepts every request.\<close>

definition server_ok :: server where
  "server_ok history cfg = Reply 200 no_body"

text \<open>A server that cannot be reached.\<close>

definition server_down :: server where
  "server_down history cfg = NoReply"

text \<open>A server that answers every request with 401.\<close>

definition server_401 :: server where
  "server_401 history cfg = Reply 401 no_body"

text \<open>
  A server that answers the refresh request with 403 and every other request, the
  request for the CSRF token among them, with 401.
\<close>

definition server_locked :: server where
  "server_locked history cfg =
     (if url cfg = ''/auth/token/refresh/'' then Reply 403 no_body else Reply 401 no_body)"

text \<open>
  A server on which the access token has expired and the refresh token is not
  accepted: 400 for the refresh request, 401 for every other request.
\<close>

definition server_expired :: server where
  "server_expired history cfg =
     (if url cfg = ''/auth/token/refresh/'' \<or> url cfg = ''/api/auth/token/refresh/''
      then Reply 400 no_body else Reply 401 no_body)"

text \<open>
  A server that issues the CSRF token \<open>c2\<close> and the access token \<open>a2\<close>, and checks on
  every other request first the CSRF token, then the access token.
\<close>

definition server_strict :: server where
  "server_strict history cfg =
     (if url cfg = ''/auth/csrf/'' then Reply 200 \<lparr> b_csrfToken = Some ''c2'', b_access = None \<rparr>
      else if url cfg = ''/auth/token/refresh/''
        then Reply 200 \<lparr> b_csrfToken = None, b_access = Some ''a2'' \<rparr>
      else if x_csrftoken cfg \<noteq> Some ''c2'' then Reply 403 no_body
      else if authorization cfg \<noteq> Some ''Bearer a2'' then Reply 401 no_body
      else Reply 200 no_body)"

definition stale_storage :: storage where
  "stale_storage = [''token'' \<mapsto> ''a1'', ''refreshToken'' \<mapsto> ''r1'', ''csrfToken'' \<mapsto> ''c1'']"

definition new_customer :: "storage \<Rightarrow> customer" where
  "new_customer st = \<lparr> c_storage = st, cookie = None, location_href = None, c_sent = [] \<rparr>"

text \<open>
  The portal of a browser that holds the three tokens, once the CSRF initialisation of
  the application start has completed.
\<close>

definition stale_portal :: portal where
  "stale_portal = portal_dispatch InitializeCSRF_fulfilled (new_portal stale_storage)"

text \<open>The number of requests to a URL among the requests sent.\<close>

definition requests_to :: "string \<Rightarrow> config list \<Rightarrow> nat" where
  "requests_to u xs = length (filter (\<lambda>q. url q = u) xs)"

text \<open>
  The requests sent, each with the answer the server gave to it: the answer to a
  request depends on the requests sent before it.
\<close>

fun exchanges :: "server \<Rightarrow> config list \<Rightarrow> config list \<Rightarrow> (config \<times> reply) list" where
  "exchanges srv history [] = []"
| "exchanges srv history (q # qs) = (q, srv history q) # exchanges srv (history @ [q]) qs"

definition reply_status :: "reply \<Rightarrow> nat option" where
  "reply_status r = (case r of Reply code b \<Rightarrow> Some code | NoReply \<Rightarrow> None)"

text \<open>The number of requests sent whose configuration and answer satisfy \<open>P\<close>.\<close>

definition tally :: "(config \<Rightarrow> reply \<Rightarrow> bool) \<Rightarrow> server \<Rightarrow> config list \<Rightarrow> nat" where
  "tally P srv xs = length (filter (\<lambda>(q, r). P q r) (exchanges srv [] xs))"

text \<open>
  The answers to a request for \<open>u\<close> on which the error handler of the owner client
  starts a recovery for that request: a 403 on a configuration without
  \<open>_csrfRetried\<close> (and without \<open>X-CSRF-Request\<close>) starts the acquisition of a new
  CSRF token, a 401 on a configuration without \<open>_retry\<close> starts the token refresh.
\<close>

definition csrf_recoveries :: "server \<Rightarrow> string \<Rightarrow> config list \<Rightarrow> nat" where
  "csrf_recoveries srv u xs =
     tally (\<lambda>q r. url q = u \<and> reply_status r = Some 403 \<and> \<not> csrfRetried q
                   \<and> \<not> x_csrf_request q) srv xs"

definition token_recoveries :: "server \<Rightarrow> string \<Rightarrow> config list \<Rightarrow> nat" where
  "token_recoveries srv u xs =
     tally (\<lambda>q r. url q = u \<and> reply_status r = Some 401 \<and> \<not> retry q) srv xs"

text \<open>
  The same for the customer client, whose handler starts either recovery on a
  configuration without \<open>_retry\<close>.
\<close>

definition customer_recoveries :: "server \<Rightarrow> string \<Rightarrow> config list \<Rightarrow> nat" where
  "customer_recoveries srv u xs =
     tally (\<lambda>q r. url q = u \<and> (reply_status r = Some 403 \<or> reply_status r = Some 401)
                   \<and> \<not> retry q) srv xs"

section \<open>Auxiliary notions for the proofs\<close>

text \<open>The retry marks a configuration does not carry yet.\<close>

definition recoveries_left :: "config \<Rightarrow> nat" where
  "recoveries_left cfg = (if csrfRetried cfg then 0 else 1) + (if retry cfg then 0 else 1)"

text \<open>
  Two conditions under which every call through the instance of the owner client
  settles: the server answers no refresh request with a status that starts a recovery,
  and no promise is pending that cannot settle, that is, none of this chain's own and
  none whose request never settles.
\<close>

definition plain_refresh :: "server \<Rightarrow> bool" where
  "plain_refresh srv =
     (\<forall>history q. url q = ''/auth/token/refresh/'' \<longrightarrow>
        reply_status (srv history q) \<noteq> Some 401 \<and> reply_status (srv history q) \<noteq> Some 403)"

definition no_hanging_promise :: "client \<Rightarrow> bool" where
  "no_hanging_promise c =
     (case initializationPromise c of
        None \<Rightarrow> True
      | Some (Mine p) \<Rightarrow> False
      | Some (Theirs p r) \<Rightarrow> r \<noteq> None)"

text \<open>An instance that settles every call the other settles, with the same result.\<close>

definition extends :: "axios_instance \<Rightarrow> axios_instance \<Rightarrow> bool" where
  "extends self self' = (\<forall>cfg c. fst (self cfg c) \<noteq> None \<longrightarrow> self' cfg c = self cfg c)"

section \<open>Permission checks\<close>

text \<open>
  C10. \<open>hasPermission\<close> is false without a user, for a user whose type is neither
  owner nor staff, and for a staff user without a staff profile; for an owner it is
  true for every permission name and every restaurant id: the owner branch never looks
  at the restaurant.
\<close>

theorem hasPermission_owner_and_denials:
  "hasPermission None permission rid = False
   \<and> (user_type u1 \<noteq> ''owner'' \<and> user_type u1 \<noteq> ''staff''
        \<longrightarrow> hasPermission (Some u1) permission rid = False)
   \<and> (user_type u2 = ''staff'' \<and> staff_profile u2 = None
        \<longrightarrow> hasPermission (Some u2) permission rid = False)
   \<and> (user_type u3 = ''owner'' \<longrightarrow> hasPermission (Some u3) permission rid = True)"
  by (simp add: hasPermission_def split: option.splits)

text \<open>
  The three cases at a customer, at a staff user without profile and at an owner asked
  about restaurant 7.
\<close>

theorem hasPermission_owner_and_denials_witness:
  "hasPermission None ''manage_menu'' (Some 7) = False
   \<and> user_type customer_user \<noteq> ''owner'' \<and> user_type customer_user \<noteq> ''staff''
   \<and> hasPermission (Some customer_user) ''manage_menu'' (Some 7) = False
   \<and> user_type staff_user = ''staff'' \<and> staff_profile staff_user = None
   \<and> hasPermission (Some staff_user) ''manage_menu'' (Some 7) = False
   \<and> user_type owner_user = ''owner''
   \<and> hasPermission (Some owner_user) ''manage_menu'' (Some 7) = True"
  using hasPermission_owner_and_denials
          [of "''manage_menu''" "Some 7" customer_user staff_user owner_user]
  by (simp add: customer_user_def staff_user_def owner_user_def)

section \<open>The route guard\<close>

text \<open>
  C8, as the code has it.  While the session is loading the guard renders the spinner,
  whatever the route; otherwise a session that is authenticated with a verified e-mail
  address and is on \<open>/login\<close> is sent to \<open>/owner/dashboard\<close>, whatever the type of
  the account.
\<close>

theorem ProtectedRoute_login_redirect:
  "(loading s1 \<longrightarrow> ProtectedRoute props s1 st pathname = Spinner)
   \<and> (\<not> loading s2 \<and> isAuthenticated s2 \<and> user s2 = Some usr
        \<and> email_verified usr = Some True
        \<longrightarrow> ProtectedRoute props s2 st ''/login'' = Navigate ''/owner/dashboard'' None)"
  by (simp add: ProtectedRoute_def user_verified_def)

theorem ProtectedRoute_login_redirect_witness:
  "loading ((signed_in owner_user)\<lparr> loading := True \<rparr>)
   \<and> ProtectedRoute default_props ((signed_in owner_user)\<lparr> loading := True \<rparr>) Map.empty
        ''/owner/orders'' = Spinner
   \<and> \<not> loading (signed_in owner_user) \<and> isAuthenticated (signed_in owner_user)
   \<and> user (signed_in owner_user) = Some owner_user
   \<and> email_verified owner_user = Some True
   \<and> ProtectedRoute default_props (signed_in owner_user) Map.empty ''/login''
        = Navigate ''/owner/dashboard'' None"
  using ProtectedRoute_login_redirect
          [of "(signed_in owner_user)\<lparr> loading := True \<rparr>" default_props Map.empty
              "''/owner/orders''" "signed_in owner_user" owner_user]
  by (simp add: signed_in_def initialState_def owner_user_def)

text \<open>
  C8 sends a staff account to a staff dashboard and a customer to the home page.
  The guard sends a verified staff account on \<open>/login\<close> to the owner dashboard, and
  decides for a customer exactly as for an owner.
\<close>

theorem ProtectedRoute_staff_login_counterexample:
  "ProtectedRoute default_props (signed_in staff_user) Map.empty ''/login''
     = Navigate ''/owner/dashboard'' None
   \<and> ProtectedRoute default_props (signed_in customer_user) Map.empty ''/login''
     = ProtectedRoute default_props (signed_in owner_user) Map.empty ''/login''"
  by (simp add: ProtectedRoute_def user_verified_def signed_in_def initialState_def
      staff_user_def customer_user_def owner_user_def)

text \<open>
  The other guards at the routes for anonymous visitors.  \<open>PublicRoute\<close>, as the
  application mounts it at \<open>/login\<close>, sends every authenticated account to the owner
  dashboard too; only without \<open>redirectTo\<close> does it tell owner from staff, and then a
  customer account gets no target.  The guard of the customer storefront sends every
  authenticated account to \<open>/\<close>.
\<close>

lemma PublicRoute_targets:
  "PublicRoute \<lparr> restricted = True, redirectTo = Some ''/owner/dashboard'' \<rparr>
       (signed_in staff_user) Map.empty ''/login'' None = Redirect (Some ''/owner/dashboard'')"
  "PublicRoute \<lparr> restricted = True, redirectTo = Some ''/owner/dashboard'' \<rparr>
       (signed_in customer_user) Map.empty ''/login'' None = Redirect (Some ''/owner/dashboard'')"
  "PublicRoute \<lparr> restricted = True, redirectTo = None \<rparr>
       (signed_in owner_user) Map.empty ''/verify-email'' None = Redirect (Some ''/owner/dashboard'')"
  "PublicRoute \<lparr> restricted = True, redirectTo = None \<rparr>
       (signed_in staff_user) Map.empty ''/verify-email'' None = Redirect (Some ''/staff/dashboard'')"
  "PublicRoute \<lparr> restricted = True, redirectTo = None \<rparr>
       (signed_in customer_user) Map.empty ''/verify-email'' None = Redirect None"
  by (simp_all add: PublicRoute_def getRedirectPath_def signed_in_def initialState_def
        staff_user_def customer_user_def owner_user_def truthy_def)

lemma customer_ProtectedRoute_login: "customer_ProtectedRoute False True ''/login'' = Navigate ''/'' None"
  by (simp add: customer_ProtectedRoute_def)

section \<open>The session invariant\<close>

lemmas storage_defs = getItem_def setItem_def removeItem_def

lemma reachable_user_authenticated:
  "reachable s \<Longrightarrow> user s \<noteq> None \<longrightarrow> isAuthenticated s"
proof (induction rule: reachable.induct)
  case (start st)
  show ?case by (simp add: initialState_def)
next
  case (step s a st)
  then show ?case
    by (cases a) (auto simp: clearAuth_def Let_def split: option.splits)
qed

text \<open>
  C2, the half that holds.  In every reachable session state a present user implies
  \<open>isAuthenticated\<close>, so an access token together with a user implies it too.  The
  state created at application start is authenticated exactly when the storage holds a
  non-empty access token, and it never has a user.
\<close>

theorem reachable_user_implies_authenticated:
  "(reachable s \<longrightarrow> (user s \<noteq> None \<longrightarrow> isAuthenticated s)
                \<and> (truthy (token s) \<and> user s \<noteq> None \<longrightarrow> isAuthenticated s))
   \<and> (isAuthenticated (initialState st) \<longleftrightarrow> truthy (getItem st ''token''))
   \<and> user (initialState st) = None"
  using reachable_user_authenticated [of s] by (simp add: initialState_def)

theorem reachable_user_implies_authenticated_witness:
  "reachable (fst (authReducer (Verify2FACode_fulfilled login_answer)
                     (initialState Map.empty) Map.empty))
   \<and> user (fst (authReducer (Verify2FACode_fulfilled login_answer)
                     (initialState Map.empty) Map.empty)) \<noteq> None
   \<and> truthy (token (fst (authReducer (Verify2FACode_fulfilled login_answer)
                     (initialState Map.empty) Map.empty)))
   \<and> isAuthenticated (fst (authReducer (Verify2FACode_fulfilled login_answer)
                     (initialState Map.empty) Map.empty))"
proof -
  let ?s = "fst (authReducer (Verify2FACode_fulfilled login_answer)
                   (initialState Map.empty) Map.empty)"
  have r: "reachable ?s" by (rule reachable.step) (rule reachable.start)
  have u: "user ?s \<noteq> None" "truthy (token ?s)"
    by (simp_all add: login_answer_def truthy_def)
  from reachable_user_implies_authenticated [of ?s Map.empty] r u show ?thesis by blast
qed

text \<open>
  The other half fails already in the initial state: with an access token in the
  storage the application starts with \<open>isAuthenticated\<close> true and no user.
\<close>

theorem initialState_authenticated_without_user:
  "reachable (initialState [''token'' \<mapsto> ''abc''])
   \<and> isAuthenticated (initialState [''token'' \<mapsto> ''abc''])
   \<and> user (initialState [''token'' \<mapsto> ''abc'']) = None
   \<and> \<not> (isAuthenticated (initialState [''token'' \<mapsto> ''abc''])
          \<longleftrightarrow> truthy (token (initialState [''token'' \<mapsto> ''abc'']))
               \<and> user (initialState [''token'' \<mapsto> ''abc'']) \<noteq> None)"
proof -
  have r: "reachable (initialState [''token'' \<mapsto> ''abc''])" by (rule reachable.start)
  have v: "isAuthenticated (initialState [''token'' \<mapsto> ''abc''])"
          "user (initialState [''token'' \<mapsto> ''abc'']) = None"
    by (simp_all add: initialState_def storage_defs truthy_def)
  from r v show ?thesis by simp
qed

text \<open>
  Nor does every operation that sets the flag ensure a token and a user: a verification
  answered without a user leaves the session authenticated with neither.
\<close>

lemma verifyEmailCode_authenticates_without_token:
  "isAuthenticated (auth (snd (verifyEmailCode (http_ok empty_answer) ''a@b.c'' ''123456''
      (fresh_store Map.empty))))
   \<and> token (auth (snd (verifyEmailCode (http_ok empty_answer) ''a@b.c'' ''123456''
      (fresh_store Map.empty)))) = None
   \<and> user (auth (snd (verifyEmailCode (http_ok empty_answer) ''a@b.c'' ''123456''
      (fresh_store Map.empty)))) = None
   \<and> getItem (ls (snd (verifyEmailCode (http_ok empty_answer) ''a@b.c'' ''123456''
      (fresh_store Map.empty)))) ''token'' = None"
  by (simp add: verifyEmailCode_def svc_verifyEmailCode_def api_post_def dispatch_def
        http_ok_def fresh_store_def initialState_def empty_answer_def storage_defs)

section \<open>Requests of the session controller\<close>

lemma api_post_auth: "auth (snd (api_post h u w)) = auth w"
  by (simp add: api_post_def Let_def)

lemma api_post_other:
  "k \<noteq> ''token'' \<Longrightarrow> k \<noteq> ''csrfToken'' \<Longrightarrow> ls (snd (api_post h u w)) k = ls w k"
  by (simp add: api_post_def Let_def storage_defs split: option.splits csrf_write.splits)

lemma api_post_fst: "fst (api_post h u w) = outcome (h u (ls w))"
  by (simp add: api_post_def Let_def)

section \<open>Registration and e-mail verification\<close>

lemma dispatch_ls_pending:
  "ls (dispatch OwnerRegister_pending w) = ls w" "ls (dispatch VerifyEmailCode_pending w) = ls w"
  by (simp_all add: dispatch_def)

lemma register_ok:
  assumes "outcome (h ''/owner/auth/register/'' (ls w)) = Inr d"
  shows "getItem (ls (snd (ownerRegister h ownerData w))) ''pendingVerificationEmail''
           = Some (reg_email ownerData)
       \<and> getItem (ls (snd (ownerRegister h ownerData w))) ''pendingUserType'' = Some ''owner''
       \<and> isAuthenticated (auth (snd (ownerRegister h ownerData w))) = isAuthenticated (auth w)
       \<and> user (auth (snd (ownerRegister h ownerData w))) = user (auth w)
       \<and> token (auth (snd (ownerRegister h ownerData w))) = token (auth w)"
proof -
  let ?w0 = "dispatch OwnerRegister_pending w"
  obtain r w1 where a: "api_post h ''/owner/auth/register/'' ?w0 = (r, w1)"
    by (cases "api_post h ''/owner/auth/register/'' ?w0")
  from a api_post_fst [of h "''/owner/auth/register/''" ?w0] assms have r: "r = Inr d"
    by (simp add: dispatch_ls_pending)
  from a api_post_auth [of h "''/owner/auth/register/''" ?w0] have w1: "auth w1 = auth ?w0"
    by simp
  show ?thesis
    using a r w1 by (simp add: ownerRegister_def svc_ownerRegister_def dispatch_def storage_defs)
qed

lemma verify_ok:
  assumes "outcome (h ''/auth/verify-code/'' (ls w)) = Inr d"
  shows "getItem (ls (snd (verifyEmailCode h mail code w))) ''pendingVerificationEmail'' = None
       \<and> getItem (ls (snd (verifyEmailCode h mail code w))) ''pendingUserType'' = None
       \<and> isAuthenticated (auth (snd (verifyEmailCode h mail code w)))"
proof -
  let ?w0 = "dispatch VerifyEmailCode_pending w"
  obtain r w1 where a: "api_post h ''/auth/verify-code/'' ?w0 = (r, w1)"
    by (cases "api_post h ''/auth/verify-code/'' ?w0")
  from a api_post_fst [of h "''/auth/verify-code/''" ?w0] assms have r: "r = Inr d"
    by (simp add: dispatch_ls_pending)
  show ?thesis
    using a r by (simp add: verifyEmailCode_def svc_verifyEmailCode_def dispatch_def storage_defs)
qed

lemma verify_fail:
  assumes "outcome (h ''/auth/verify-code/'' (ls w)) = Inl e"
  shows "getItem (ls (snd (verifyEmailCode h mail code w))) ''pendingVerificationEmail''
           = getItem (ls w) ''pendingVerificationEmail''
       \<and> getItem (ls (snd (verifyEmailCode h mail code w))) ''pendingUserType''
           = getItem (ls w) ''pendingUserType''
       \<and> verificationError (auth (snd (verifyEmailCode h mail code w)))
           = (case f_data e of Some d \<Rightarrow> Some (Obj d) | None \<Rightarrow> Some (Msg (f_message e)))
       \<and> verificationError (auth (snd (verifyEmailCode h mail code w))) \<noteq> None
       \<and> isAuthenticated (auth (snd (verifyEmailCode h mail code w))) = isAuthenticated (auth w)
       \<and> user (auth (snd (verifyEmailCode h mail code w))) = user (auth w)"
proof -
  let ?w0 = "dispatch VerifyEmailCode_pending w"
  obtain r w1 where a: "api_post h ''/auth/verify-code/'' ?w0 = (r, w1)"
    by (cases "api_post h ''/auth/verify-code/'' ?w0")
  from a api_post_fst [of h "''/auth/verify-code/''" ?w0] assms have r: "r = Inl e"
    by (simp add: dispatch_ls_pending)
  from a api_post_auth [of h "''/auth/verify-code/''" ?w0] have w1: "auth w1 = auth ?w0"
    by simp
  from a api_post_other [of _ h "''/auth/verify-code/''" ?w0]
  have k: "ls w1 ''pendingVerificationEmail'' = ls w ''pendingVerificationEmail''"
          "ls w1 ''pendingUserType'' = ls w ''pendingUserType''"
    by (simp_all add: dispatch_ls_pending)
  show ?thesis
    using a r w1 k
    by (simp add: verifyEmailCode_def svc_verifyEmailCode_def dispatch_def storage_defs
          rejected_value_def split: option.splits)
qed

text \<open>
  C7.  A registration the server accepts stores the e-mail address of the profile under
  \<open>pendingVerificationEmail\<close> (and the account type under \<open>pendingUserType\<close>) and
  leaves \<open>isAuthenticated\<close>, the user and the token of the session as they were.  A
  verification the server accepts removes both markers and sets \<open>isAuthenticated\<close>.
  A verification the server refuses leaves both markers as they were and leaves
  \<open>isAuthenticated\<close> and the user as they were; it records an error in
  \<open>verificationError\<close>, which is then not empty: the error object of the answer,
  or the message of the failure when there is no answer.
\<close>

theorem verification_round_trip:
  "(outcome (h1 ''/owner/auth/register/'' (ls w1)) = Inr d1 \<longrightarrow>
      getItem (ls (snd (ownerRegister h1 ownerData w1))) ''pendingVerificationEmail''
           = Some (reg_email ownerData)
       \<and> getItem (ls (snd (ownerRegister h1 ownerData w1))) ''pendingUserType'' = Some ''owner''
       \<and> isAuthenticated (auth (snd (ownerRegister h1 ownerData w1))) = isAuthenticated (auth w1)
       \<and> user (auth (snd (ownerRegister h1 ownerData w1))) = user (auth w1)
       \<and> token (auth (snd (ownerRegister h1 ownerData w1))) = token (auth w1))
 \<and> (outcome (h2 ''/auth/verify-code/'' (ls w2)) = Inr d2 \<longrightarrow>
      getItem (ls (snd (verifyEmailCode h2 mail code w2))) ''pendingVerificationEmail'' = None
       \<and> getItem (ls (snd (verifyEmailCode h2 mail code w2))) ''pendingUserType'' = None
       \<and> isAuthenticated (auth (snd (verifyEmailCode h2 mail code w2))))
 \<and> (outcome (h3 ''/auth/verify-code/'' (ls w3)) = Inl e \<longrightarrow>
      getItem (ls (snd (verifyEmailCode h3 mail code w3))) ''pendingVerificationEmail''
           = getItem (ls w3) ''pendingVerificationEmail''
       \<and> getItem (ls (snd (verifyEmailCode h3 mail code w3))) ''pendingUserType''
           = getItem (ls w3) ''pendingUserType''
       \<and> verificationError (auth (snd (verifyEmailCode h3 mail code w3)))
           = (case f_data e of Some d \<Rightarrow> Some (Obj d) | None \<Rightarrow> Some (Msg (f_message e)))
       \<and> verificationError (auth (snd (verifyEmailCode h3 mail code w3))) \<noteq> None
       \<and> isAuthenticated (auth (snd (verifyEmailCode h3 mail code w3)))
           = isAuthenticated (auth w3)
       \<and> user (auth (snd (verifyEmailCode h3 mail code w3))) = user (auth w3))"
  using register_ok [of h1 w1 d1 ownerData] verify_ok [of h2 w2 d2 mail code]
    verify_fail [of h3 w3 e mail code] by blast

text \<open>
  The round trip at a concrete registration: accepted, then verified with the right
  code, or refused with a wrong one.
\<close>

lemma after_register_state:
  "getItem (ls after_register) ''pendingVerificationEmail'' = Some ''new@example.com''"
  "getItem (ls after_register) ''pendingUserType'' = Some ''owner''"
  "isAuthenticated (auth after_register) = False"
  by (simp_all add: after_register_def ownerRegister_def svc_ownerRegister_def api_post_def
        dispatch_def http_ok_def fresh_store_def initialState_def storage_defs truthy_def)

theorem verification_round_trip_witness:
  "outcome (http_ok empty_answer ''/owner/auth/register/'' (ls (fresh_store Map.empty)))
     = Inr empty_answer
   \<and> getItem (ls after_register) ''pendingVerificationEmail'' = Some ''new@example.com''
   \<and> isAuthenticated (auth after_register) = False
   \<and> outcome (http_ok login_answer ''/auth/verify-code/'' (ls after_register)) = Inr login_answer
   \<and> getItem (ls (snd (verifyEmailCode (http_ok login_answer) ''new@example.com'' ''123456''
        after_register))) ''pendingVerificationEmail'' = None
   \<and> isAuthenticated (auth (snd (verifyEmailCode (http_ok login_answer) ''new@example.com''
        ''123456'' after_register)))
   \<and> outcome (http_fail invalid_code ''/auth/verify-code/'' (ls after_register))
     = Inl invalid_code
   \<and> getItem (ls (snd (verifyEmailCode (http_fail invalid_code) ''new@example.com'' ''000000''
        after_register))) ''pendingVerificationEmail'' = Some ''new@example.com''
   \<and> verificationError (auth (snd (verifyEmailCode (http_fail invalid_code) ''new@example.com''
        ''000000'' after_register)))
     = Some (Obj \<lparr> err_text = Some ''Invalid or expired code'',
                    requiresVerification = False, err_email = None \<rparr>)
   \<and> isAuthenticated (auth (snd (verifyEmailCode (http_fail invalid_code) ''new@example.com''
        ''000000'' after_register))) = False
   \<and> outcome (http_fail network_down ''/auth/verify-code/'' (ls after_register))
     = Inl network_down
   \<and> verificationError (auth (snd (verifyEmailCode (http_fail network_down) ''new@example.com''
        ''000000'' after_register)))
     = Some (Msg ''Network Error'')"
proof -
  have r: "outcome (http_ok empty_answer ''/owner/auth/register/'' (ls (fresh_store Map.empty)))
     = Inr empty_answer"
    by (simp add: http_ok_def)
  have v: "outcome (http_ok login_answer ''/auth/verify-code/'' (ls after_register))
     = Inr login_answer"
    by (simp add: http_ok_def)
  have f: "outcome (http_fail invalid_code ''/auth/verify-code/'' (ls after_register))
     = Inl invalid_code"
    by (simp add: http_fail_def)
  have g: "outcome (http_fail network_down ''/auth/verify-code/'' (ls after_register))
     = Inl network_down"
    by (simp add: http_fail_def)
  show ?thesis
    using r v f g after_register_state
      verification_round_trip [of "http_ok empty_answer" "fresh_store Map.empty" empty_answer
        "\<lparr> reg_email = ''new@example.com'', reg_password = ''pw'' \<rparr>"
        "http_ok login_answer" after_register login_answer "''new@example.com''" "''123456''"
        "http_fail invalid_code" after_register invalid_code]
      verification_round_trip [of "http_ok empty_answer" "fresh_store Map.empty" empty_answer
        "\<lparr> reg_email = ''new@example.com'', reg_password = ''pw'' \<rparr>"
        "http_ok login_answer" after_register login_answer "''new@example.com''" "''000000''"
        "http_fail invalid_code" after_register invalid_code]
      verification_round_trip [of "http_ok empty_answer" "fresh_store Map.empty" empty_answer
        "\<lparr> reg_email = ''new@example.com'', reg_password = ''pw'' \<rparr>"
        "http_ok login_answer" after_register login_answer "''new@example.com''" "''000000''"
        "http_fail network_down" after_register network_down]
    by (simp add: invalid_code_def network_down_def)
qed

section \<open>Social login\<close>

lemma socialLogin_unknown_provider:
  assumes "provider \<noteq> ''google''" "provider \<noteq> ''facebook''"
  shows "fst (socialLogin h provider tok w) = SocialLogin_rejected (social_failed provider)
       \<and> calls (snd (socialLogin h provider tok w)) = calls w
       \<and> ls (snd (socialLogin h provider tok w)) = ls w
       \<and> loginError (auth (snd (socialLogin h provider tok w))) = social_failed provider
       \<and> isAuthenticated (auth (snd (socialLogin h provider tok w))) = isAuthenticated (auth w)"
  using assms by (simp add: socialLogin_def dispatch_def)

lemma socialLogin_google_success:
  assumes "outcome (h ''/auth/google/login/'' (ls w)) = Inr d"
    and "tokens d = Some t" and "truthy (access t)"
  shows "getItem (ls (snd (socialLogin h ''google'' tok w))) ''token'' = access t
       \<and> getItem (ls (snd (socialLogin h ''google'' tok w))) ''refreshToken''
           = Some (js_string (refresh t))
       \<and> user (auth (snd (socialLogin h ''google'' tok w))) = resp_user d
       \<and> token (auth (snd (socialLogin h ''google'' tok w))) = access t
       \<and> isAuthenticated (auth (snd (socialLogin h ''google'' tok w)))"
proof -
  have p: "dispatch SocialLogin_pending w = w" by (simp add: dispatch_def)
  obtain r w1 where a: "api_post h ''/auth/google/login/'' w = (r, w1)"
    by (cases "api_post h ''/auth/google/login/'' w")
  from a assms(1) have r: "r = Inr d" by (simp add: api_post_def Let_def)
  obtain v where v: "access t = Some v"
    using assms(3) by (cases "access t") (simp_all add: truthy_def)
  show ?thesis
    using a r assms(2) assms(3) v
    by (simp add: socialLogin_def social_settle_def svc_googleLogin_def p
        dispatch_def store_tokens_def storage_defs js_string_def)
qed

text \<open>
  C9 at the provider \<open>twitter\<close>.  No request is made, but the thunk does not fail
  with the "Unsupported provider" error it throws: its own \<open>catch\<close> replaces that by
  the object \<open>{error: "twitter authentication failed"}\<close>, which is what the caller
  and \<open>loginError\<close> receive.
\<close>

theorem socialLogin_unsupported_provider_message:
  "fst (socialLogin h ''twitter'' tok w)
     = SocialLogin_rejected (Some (Obj \<lparr> err_text = Some ''twitter authentication failed'',
                requiresVerification = False, err_email = None \<rparr>))
   \<and> loginError (auth (snd (socialLogin h ''twitter'' tok w)))
     = Some (Obj \<lparr> err_text = Some ''twitter authentication failed'',
                requiresVerification = False, err_email = None \<rparr>)
   \<and> \<not> str_includes ''twitter authentication failed'' ''nsupported provider''
   \<and> calls (snd (socialLogin h ''twitter'' tok w)) = calls w"
  by (simp add: socialLogin_def dispatch_def social_failed_def startsWith_def)

section \<open>The owner client: depth, and what is sent\<close>

lemmas http_defs = api_pass_def response_rejected_def handle_unauthorized_def
  getCSRFToken_via_def getCSRFToken_call_def getCSRFToken_settle_def await_promise_def
  request_interceptor_def
  settle_reply_def status_of_def refresh_request_def csrf_request_def plain_request_def
  isStateChangingMethod_def startsWith_def truthy_def js_string_def Let_def

text \<open>A call that has settled at some depth settles in the same way at every greater depth.\<close>

lemma extendsD: "extends self self' \<Longrightarrow> self cfg c = (Some r, c1) \<Longrightarrow> self' cfg c = (Some r, c1)"
  by (simp add: extends_def)

lemma getCSRFToken_via_extends:
  assumes "extends self self'" and "fst (getCSRFToken_via self f c) \<noteq> None"
  shows "getCSRFToken_via self' f c = getCSRFToken_via self f c"
proof (cases "getCSRFToken_call f c")
  case (Pair h c1)
  show ?thesis
  proof (cases h)
    case (Started p)
    obtain r c2 where s: "self csrf_request c1 = (r, c2)" by (cases "self csrf_request c1")
    with assms(2) Pair Started obtain v where v: "r = Some v"
      by (cases r) (simp_all add: getCSRFToken_via_def)
    from extendsD [OF assms(1)] s v have "self' csrf_request c1 = (Some v, c2)" by simp
    with s v Pair Started show ?thesis by (simp add: getCSRFToken_via_def)
  qed (use Pair in \<open>simp_all add: getCSRFToken_via_def\<close>)
qed

lemma handle_unauthorized_extends:
  assumes "extends self self'" and "fst (handle_unauthorized self err cfg c) \<noteq> None"
  shows "handle_unauthorized self' err cfg c = handle_unauthorized self err cfg c"
proof (cases "status_of err = Some 401 \<and> \<not> retry cfg \<and> truthy (getItem (localStorage c) ''refreshToken'')")
  case False
  then show ?thesis by (auto simp: handle_unauthorized_def)
next
  case True
  let ?rq = "refresh_request (js_string (getItem (localStorage c) ''refreshToken''))"
  obtain r c1 where s: "self ?rq c = (r, c1)" by (cases "self ?rq c")
  with assms(2) True obtain v where v: "r = Some v"
    by (cases r) (simp_all add: handle_unauthorized_def)
  from extendsD [OF assms(1)] s v have s': "self' ?rq c = (Some v, c1)" by simp
  show ?thesis
  proof (cases v)
    case (Inl e)
    with s s' v True show ?thesis by (simp add: handle_unauthorized_def)
  next
    case (Inr b)
    let ?cfg = "cfg\<lparr> retry := True, authorization := Some (''Bearer '' @ js_string (b_access b)) \<rparr>"
    let ?c = "c1\<lparr> localStorage := setItem (localStorage c1) ''token'' (js_string (b_access b)) \<rparr>"
    from assms(2) s v Inr True have "fst (self ?cfg ?c) \<noteq> None"
      by (simp add: handle_unauthorized_def)
    with assms(1) have "self' ?cfg ?c = self ?cfg ?c" by (simp add: extends_def)
    with s s' v Inr True show ?thesis by (simp add: handle_unauthorized_def)
  qed
qed

lemma response_rejected_extends:
  assumes "extends self self'" and "fst (response_rejected self err cfg c) \<noteq> None"
  shows "response_rejected self' err cfg c = response_rejected self err cfg c"
proof (cases "status_of err = Some 403 \<and> \<not> csrfRetried cfg \<and> \<not> x_csrf_request cfg")
  case False
  with assms handle_unauthorized_extends [of self self' err cfg c] show ?thesis
    by (auto simp: response_rejected_def)
next
  case True
  obtain r c1 where s: "getCSRFToken_via self True c = (r, c1)" by (cases "getCSRFToken_via self True c")
  with assms(2) True obtain v where v: "r = Some v"
    by (cases r) (simp_all add: response_rejected_def)
  from getCSRFToken_via_extends [OF assms(1), of True c] s v
  have s': "getCSRFToken_via self' True c = (Some v, c1)" by simp
  show ?thesis
  proof (cases v)
    case (Inl e)
    with s s' v True show ?thesis by (simp add: response_rejected_def)
  next
    case (Inr t)
    show ?thesis
    proof (cases "truthy (csrfToken c1)")
      case tr: True
      let ?cfg = "cfg\<lparr> csrfRetried := True, x_csrftoken := csrfToken c1 \<rparr>"
      from assms(2) s v Inr True tr have "fst (self ?cfg c1) \<noteq> None"
        by (simp add: response_rejected_def)
      with assms(1) have "self' ?cfg c1 = self ?cfg c1" by (simp add: extends_def)
      with s s' v Inr True tr show ?thesis by (simp add: response_rejected_def)
    next
      case fl: False
      from assms(2) s v Inr True fl
      have "fst (handle_unauthorized self err (cfg\<lparr> csrfRetried := True \<rparr>) c1) \<noteq> None"
        by (simp add: response_rejected_def)
      from handle_unauthorized_extends [OF assms(1) this] s s' v Inr True fl
      show ?thesis by (simp add: response_rejected_def)
    qed
  qed
qed

lemma api_pass_extends:
  assumes "extends self self'"
  shows "extends (api_pass self srv) (api_pass self' srv)"
  unfolding extends_def
proof (intro allI impI)
  fix cfg c
  assume a: "fst (api_pass self srv cfg c) \<noteq> None"
  show "api_pass self' srv cfg c = api_pass self srv cfg c"
  proof (cases "settle_reply (srv (sent c) (request_interceptor c cfg))")
    case (Inr b)
    then show ?thesis by (simp add: api_pass_def Let_def)
  next
    case (Inl err)
    with a have "fst (response_rejected self err (request_interceptor c cfg)
        (c\<lparr> sent := sent c @ [request_interceptor c cfg] \<rparr>)) \<noteq> None"
      by (simp add: api_pass_def Let_def)
    from response_rejected_extends [OF assms this] Inl show ?thesis
      by (simp add: api_pass_def Let_def)
  qed
qed

lemma api_extends: "extends (api n srv) (api (Suc n) srv)"
proof (induction n)
  case 0
  show ?case by (simp add: extends_def)
next
  case (Suc n)
  from api_pass_extends [OF Suc] show ?case by simp
qed

lemma api_settled_deeper:
  "fst (api n srv cfg c) \<noteq> None \<Longrightarrow> api (n + k) srv cfg c = api n srv cfg c"
proof (induction k)
  case 0
  show ?case by simp
next
  case (Suc k)
  from Suc have e: "api (n + k) srv cfg c = api n srv cfg c" by simp
  with Suc.prems have "fst (api (n + k) srv cfg c) \<noteq> None" by simp
  with api_extends [of "n + k" srv] have "api (Suc (n + k)) srv cfg c = api (n + k) srv cfg c"
    unfolding extends_def by blast
  with e show ?case by simp
qed

lemma requests_to_snoc:
  "requests_to u (xs @ [q]) = requests_to u xs + (if url q = u then 1 else 0)"
  by (simp add: requests_to_def)

lemma request_interceptor_keeps:
  "url (request_interceptor c cfg) = url cfg"
  "retry (request_interceptor c cfg) = retry cfg"
  "csrfRetried (request_interceptor c cfg) = csrfRetried cfg"
  "x_csrf_request (request_interceptor c cfg) = x_csrf_request cfg"
  by (simp_all add: request_interceptor_def Let_def)

lemma getCSRFToken_call_sent: "sent (snd (getCSRFToken_call f c)) = sent c"
  by (simp add: getCSRFToken_call_def split: option.splits)

lemma getCSRFToken_settle_sent: "sent (snd (getCSRFToken_settle r c)) = sent c"
  by (simp add: getCSRFToken_settle_def split: sum.splits)

lemma await_promise_sent: "sent (snd (await_promise c)) = sent c"
proof (cases "initializationPromise c")
  case None
  then show ?thesis by (simp add: await_promise_def)
next
  case (Some q)
  show ?thesis
  proof (cases q)
    case (Mine p)
    with Some show ?thesis by (simp add: await_promise_def)
  next
    case (Theirs p r)
    show ?thesis
    proof (cases r)
      case None
      with Some Theirs show ?thesis by (simp add: await_promise_def)
    next
      case (Some v)
      obtain t c1 where t: "getCSRFToken_settle v c = (t, c1)" by (cases "getCSRFToken_settle v c")
      with getCSRFToken_settle_sent [of v c] have "sent c1 = sent c" by simp
      with \<open>initializationPromise c = Some q\<close> Theirs Some t show ?thesis
        by (simp add: await_promise_def)
    qed
  qed
qed

text \<open>
  The answers to the requests sent, counted by a predicate \<open>P\<close> that holds of
  requests to \<open>u\<close> only.  Requests made while a response is handled go to the two
  endpoints of the recovery; a call for another URL than \<open>u\<close> adds nothing to the
  count.
\<close>

lemma exchanges_snoc:
  "exchanges srv h (xs @ [q]) = exchanges srv h xs @ [(q, srv (h @ xs) q)]"
  by (induction xs arbitrary: h) simp_all

lemma tally_snoc:
  "tally P srv (xs @ [q]) = tally P srv xs + (if P q (srv xs q) then 1 else 0)"
  by (simp add: tally_def exchanges_snoc)

lemma tally_empty: "tally P srv [] = 0"
  by (simp add: tally_def)

lemma requests_to_tally: "requests_to u xs = tally (\<lambda>q r. url q = u) srv xs"
proof (induction xs rule: rev_induct)
  case Nil
  show ?case by (simp add: requests_to_def tally_def)
next
  case (snoc q xs)
  then show ?case by (simp add: tally_snoc requests_to_snoc)
qed

lemma settle_reply_status: "settle_reply r = Inl err \<Longrightarrow> status_of err = reply_status r"
  by (auto simp: settle_reply_def status_of_def reply_status_def split: reply.splits if_splits)

lemma getCSRFToken_via_pres:
  assumes pres: "\<And>cfg c. url cfg \<noteq> u \<Longrightarrow>
                   tally P srv (sent (snd (self cfg c))) = tally P srv (sent c)"
    and u: "u \<noteq> ''/auth/csrf/''"
  shows "tally P srv (sent (snd (getCSRFToken_via self f c))) = tally P srv (sent c)"
proof (cases "getCSRFToken_call f c")
  case (Pair h c1)
  with getCSRFToken_call_sent [of f c] have c1: "sent c1 = sent c" by simp
  show ?thesis
  proof (cases h)
    case (Started p)
    obtain r c2 where s: "self csrf_request c1 = (r, c2)" by (cases "self csrf_request c1")
    have "url csrf_request \<noteq> u" using u by (simp add: csrf_request_def plain_request_def)
    from pres [OF this, of c1] s c1 have c2: "tally P srv (sent c2) = tally P srv (sent c)"
      by simp
    show ?thesis
    proof (cases r)
      case None
      with Pair Started s c2 show ?thesis by (simp add: getCSRFToken_via_def)
    next
      case (Some v)
      obtain t c3 where t: "getCSRFToken_settle v c2 = (t, c3)"
        by (cases "getCSRFToken_settle v c2")
      with getCSRFToken_settle_sent [of v c2] have "sent c3 = sent c2" by simp
      with Some Pair Started s c2 t show ?thesis
        by (simp add: getCSRFToken_via_def)
    qed
  next
    case (Joined p)
    with Pair c1 await_promise_sent [of c1] show ?thesis by (simp add: getCSRFToken_via_def)
  qed (use Pair c1 in \<open>simp_all add: getCSRFToken_via_def\<close>)
qed

lemma handle_unauthorized_pres:
  assumes pres: "\<And>cfg c. url cfg \<noteq> u \<Longrightarrow>
                   tally P srv (sent (snd (self cfg c))) = tally P srv (sent c)"
    and u: "u \<noteq> ''/auth/token/refresh/''" and cfg: "url cfg \<noteq> u"
  shows "tally P srv (sent (snd (handle_unauthorized self err cfg c))) = tally P srv (sent c)"
proof (cases "status_of err = Some 401 \<and> \<not> retry cfg \<and> truthy (getItem (localStorage c) ''refreshToken'')")
  case False
  then show ?thesis by (auto simp: handle_unauthorized_def)
next
  case True
  let ?rq = "refresh_request (js_string (getItem (localStorage c) ''refreshToken''))"
  obtain r c1 where s: "self ?rq c = (r, c1)" by (cases "self ?rq c")
  have "url ?rq \<noteq> u" using u by (simp add: refresh_request_def plain_request_def)
  from pres [OF this, of c] s have c1: "tally P srv (sent c1) = tally P srv (sent c)" by simp
  show ?thesis
  proof (cases r)
    case None
    with s c1 True show ?thesis by (simp add: handle_unauthorized_def)
  next
    case (Some v)
    show ?thesis
    proof (cases v)
      case (Inl e)
      with Some s c1 True show ?thesis by (simp add: handle_unauthorized_def)
    next
      case (Inr b)
      let ?cfg = "cfg\<lparr> retry := True, authorization := Some (''Bearer '' @ js_string (b_access b)) \<rparr>"
      let ?c = "c1\<lparr> localStorage := setItem (localStorage c1) ''token'' (js_string (b_access b)) \<rparr>"
      have "url ?cfg \<noteq> u" using cfg by simp
      from pres [OF this, of ?c] c1
      have "tally P srv (sent (snd (self ?cfg ?c))) = tally P srv (sent c)" by simp
      with Some Inr s True show ?thesis by (simp add: handle_unauthorized_def)
    qed
  qed
qed

lemma response_rejected_pres:
  assumes pres: "\<And>cfg c. url cfg \<noteq> u \<Longrightarrow>
                   tally P srv (sent (snd (self cfg c))) = tally P srv (sent c)"
    and u: "u \<noteq> ''/auth/token/refresh/''" "u \<noteq> ''/auth/csrf/''" and cfg: "url cfg \<noteq> u"
  shows "tally P srv (sent (snd (response_rejected self err cfg c))) = tally P srv (sent c)"
proof (cases "status_of err = Some 403 \<and> \<not> csrfRetried cfg \<and> \<not> x_csrf_request cfg")
  case False
  with handle_unauthorized_pres [of u P srv self cfg err c, OF pres u(1) cfg] show ?thesis
    by (auto simp: response_rejected_def)
next
  case True
  obtain r c1 where s: "getCSRFToken_via self True c = (r, c1)"
    by (cases "getCSRFToken_via self True c")
  from getCSRFToken_via_pres [of u P srv self True c, OF pres u(2)] s
  have c1: "tally P srv (sent c1) = tally P srv (sent c)" by simp
  show ?thesis
  proof (cases r)
    case None
    with s c1 True show ?thesis by (simp add: response_rejected_def)
  next
    case (Some v)
    show ?thesis
    proof (cases v)
      case (Inl e)
      with Some s c1 True show ?thesis by (simp add: response_rejected_def)
    next
      case (Inr t)
      show ?thesis
      proof (cases "truthy (csrfToken c1)")
        case tr: True
        let ?cfg = "cfg\<lparr> csrfRetried := True, x_csrftoken := csrfToken c1 \<rparr>"
        have "url ?cfg \<noteq> u" using cfg by simp
        from pres [OF this, of c1] c1 Some Inr s True tr show ?thesis
          by (simp add: response_rejected_def)
      next
        case fl: False
        have "url (cfg\<lparr> csrfRetried := True \<rparr>) \<noteq> u" using cfg by simp
        from handle_unauthorized_pres [of u P srv self _ err c1, OF pres u(1) this] c1 Some Inr s True fl
        show ?thesis by (simp add: response_rejected_def)
      qed
    qed
  qed
qed

lemma api_pass_pres:
  assumes only: "\<And>q r. P q r \<Longrightarrow> url q = u"
    and pres: "\<And>cfg c. url cfg \<noteq> u \<Longrightarrow>
                   tally P srv (sent (snd (self cfg c))) = tally P srv (sent c)"
    and u: "u \<noteq> ''/auth/token/refresh/''" "u \<noteq> ''/auth/csrf/''" and cfg: "url cfg \<noteq> u"
  shows "tally P srv (sent (snd (api_pass self srv cfg c))) = tally P srv (sent c)"
proof -
  let ?cfg = "request_interceptor c cfg"
  let ?c = "c\<lparr> sent := sent c @ [?cfg] \<rparr>"
  have k: "url ?cfg \<noteq> u" using cfg by (simp add: request_interceptor_keeps)
  with only have "\<not> P ?cfg (srv (sent c) ?cfg)" by blast
  then have c1: "tally P srv (sent ?c) = tally P srv (sent c)"
    by (simp add: tally_snoc)
  show ?thesis
  proof (cases "settle_reply (srv (sent c) ?cfg)")
    case (Inr b)
    with c1 show ?thesis by (simp add: api_pass_def Let_def)
  next
    case (Inl err)
    with response_rejected_pres [of u P srv self ?cfg err ?c, OF pres u k] c1 show ?thesis
      by (simp add: api_pass_def Let_def)
  qed
qed

lemma api_pres:
  assumes only: "\<And>q r. P q r \<Longrightarrow> url q = u"
    and u: "u \<noteq> ''/auth/token/refresh/''" "u \<noteq> ''/auth/csrf/''"
  shows "url cfg \<noteq> u \<Longrightarrow> tally P srv (sent (snd (api n srv cfg c))) = tally P srv (sent c)"
proof (induction n arbitrary: cfg c)
  case 0
  show ?case by simp
next
  case (Suc n)
  have "tally P srv (sent (snd (api_pass (api n srv) srv cfg c))) = tally P srv (sent c)"
  proof (rule api_pass_pres [where P = P and u = u])
    show "\<And>q r. P q r \<Longrightarrow> url q = u" by (rule only)
    show "\<And>cfg c. url cfg \<noteq> u \<Longrightarrow>
            tally P srv (sent (snd (api n srv cfg c))) = tally P srv (sent c)"
      by (rule Suc.IH)
  qed (use u Suc.prems in simp_all)
  then show ?case by simp
qed

text \<open>
  Counting the answers that satisfy \<open>P\<close> against a budget \<open>bud\<close> of the
  configuration: if every recovery that repeats the request lowers the budget by what
  the answer counts for, a call adds at most the budget of its configuration.
\<close>

lemma handle_unauthorized_budget:
  assumes pres: "\<And>cfg c. url cfg \<noteq> u \<Longrightarrow>
                   tally P srv (sent (snd (self cfg c))) = tally P srv (sent c)"
    and bnd: "\<And>cfg c. url cfg = u \<Longrightarrow>
                   tally P srv (sent (snd (self cfg c))) \<le> tally P srv (sent c) + bud cfg"
    and u: "u \<noteq> ''/auth/token/refresh/''" and cfg: "url cfg = u"
    and c401: "\<And>a. status_of err = Some 401 \<Longrightarrow> \<not> retry cfg \<Longrightarrow>
                 w + bud (cfg\<lparr> retry := True, authorization := a \<rparr>) \<le> bud cfg"
    and cfin: "w \<le> bud cfg"
  shows "tally P srv (sent (snd (handle_unauthorized self err cfg c))) + w
           \<le> tally P srv (sent c) + bud cfg"
proof (cases "status_of err = Some 401 \<and> \<not> retry cfg \<and> truthy (getItem (localStorage c) ''refreshToken'')")
  case False
  with cfin show ?thesis by (auto simp: handle_unauthorized_def)
next
  case True
  let ?rq = "refresh_request (js_string (getItem (localStorage c) ''refreshToken''))"
  obtain r c1 where s: "self ?rq c = (r, c1)" by (cases "self ?rq c")
  have "url ?rq \<noteq> u" using u by (simp add: refresh_request_def plain_request_def)
  from pres [OF this, of c] s have c1: "tally P srv (sent c1) = tally P srv (sent c)" by simp
  show ?thesis
  proof (cases r)
    case None
    with s c1 True cfin show ?thesis by (simp add: handle_unauthorized_def)
  next
    case (Some v)
    show ?thesis
    proof (cases v)
      case (Inl e)
      with Some s c1 True cfin show ?thesis by (simp add: handle_unauthorized_def)
    next
      case (Inr b)
      let ?cfg = "cfg\<lparr> retry := True, authorization := Some (''Bearer '' @ js_string (b_access b)) \<rparr>"
      let ?c = "c1\<lparr> localStorage := setItem (localStorage c1) ''token'' (js_string (b_access b)) \<rparr>"
      have "url ?cfg = u" using cfg by simp
      from bnd [OF this, of ?c] c1
      have "tally P srv (sent (snd (self ?cfg ?c))) \<le> tally P srv (sent c) + bud ?cfg" by simp
      moreover have "w + bud ?cfg \<le> bud cfg" using True c401 by blast
      ultimately have "tally P srv (sent (snd (self ?cfg ?c))) + w \<le> tally P srv (sent c) + bud cfg"
        by linarith
      with Some Inr s True show ?thesis by (simp add: handle_unauthorized_def)
    qed
  qed
qed

lemma response_rejected_budget:
  assumes pres: "\<And>cfg c. url cfg \<noteq> u \<Longrightarrow>
                   tally P srv (sent (snd (self cfg c))) = tally P srv (sent c)"
    and bnd: "\<And>cfg c. url cfg = u \<Longrightarrow>
                   tally P srv (sent (snd (self cfg c))) \<le> tally P srv (sent c) + bud cfg"
    and u: "u \<noteq> ''/auth/token/refresh/''" "u \<noteq> ''/auth/csrf/''" and cfg: "url cfg = u"
    and c403: "\<And>t. status_of err = Some 403 \<Longrightarrow> \<not> csrfRetried cfg \<Longrightarrow> \<not> x_csrf_request cfg \<Longrightarrow>
                 w + bud (cfg\<lparr> csrfRetried := True, x_csrftoken := t \<rparr>) \<le> bud cfg"
    and c401: "\<And>a. status_of err = Some 401 \<Longrightarrow> \<not> retry cfg \<Longrightarrow>
                 w + bud (cfg\<lparr> retry := True, authorization := a \<rparr>) \<le> bud cfg"
    and cfin: "w \<le> bud cfg"
  shows "tally P srv (sent (snd (response_rejected self err cfg c))) + w
           \<le> tally P srv (sent c) + bud cfg"
proof (cases "status_of err = Some 403 \<and> \<not> csrfRetried cfg \<and> \<not> x_csrf_request cfg")
  case False
  with handle_unauthorized_budget [of u P srv self bud cfg err w c, OF pres bnd u(1) cfg c401 cfin]
  show ?thesis by (auto simp: response_rejected_def)
next
  case True
  obtain r c1 where s: "getCSRFToken_via self True c = (r, c1)"
    by (cases "getCSRFToken_via self True c")
  from getCSRFToken_via_pres [of u P srv self True c, OF pres u(2)] s
  have c1: "tally P srv (sent c1) = tally P srv (sent c)" by simp
  show ?thesis
  proof (cases r)
    case None
    with s c1 True cfin show ?thesis by (simp add: response_rejected_def)
  next
    case (Some v)
    show ?thesis
    proof (cases v)
      case (Inl e)
      with Some s c1 True cfin show ?thesis by (simp add: response_rejected_def)
    next
      case (Inr t)
      show ?thesis
      proof (cases "truthy (csrfToken c1)")
        case tr: True
        let ?cfg = "cfg\<lparr> csrfRetried := True, x_csrftoken := csrfToken c1 \<rparr>"
        have "url ?cfg = u" using cfg by simp
        from bnd [OF this, of c1] c1
        have "tally P srv (sent (snd (self ?cfg c1))) \<le> tally P srv (sent c) + bud ?cfg" by simp
        moreover have "w + bud ?cfg \<le> bud cfg" using True c403 by blast
        ultimately have "tally P srv (sent (snd (self ?cfg c1))) + w \<le> tally P srv (sent c) + bud cfg"
          by linarith
        with Some Inr s True tr show ?thesis by (simp add: response_rejected_def)
      next
        case fl: False
        from True have "status_of err \<noteq> Some 401" by simp
        then have "handle_unauthorized self err (cfg\<lparr> csrfRetried := True \<rparr>) c1 = (Some (Inl err), c1)"
          by (simp add: handle_unauthorized_def)
        with c1 cfin Some Inr s True fl show ?thesis by (simp add: response_rejected_def)
      qed
    qed
  qed
qed

lemma api_pass_budget:
  assumes only: "\<And>q r. P q r \<Longrightarrow> url q = u"
    and pres: "\<And>cfg c. url cfg \<noteq> u \<Longrightarrow>
                   tally P srv (sent (snd (self cfg c))) = tally P srv (sent c)"
    and bnd: "\<And>cfg c. url cfg = u \<Longrightarrow>
                   tally P srv (sent (snd (self cfg c))) \<le> tally P srv (sent c) + bud cfg"
    and u: "u \<noteq> ''/auth/token/refresh/''" "u \<noteq> ''/auth/csrf/''" and cfg: "url cfg = u"
    and a403: "\<And>q r t. url q = u \<Longrightarrow> reply_status r = Some 403 \<Longrightarrow> \<not> csrfRetried q \<Longrightarrow>
                 \<not> x_csrf_request q \<Longrightarrow>
                 (if P q r then 1 else 0) + bud (q\<lparr> csrfRetried := True, x_csrftoken := t \<rparr>) \<le> bud q"
    and a401: "\<And>q r a. url q = u \<Longrightarrow> reply_status r = Some 401 \<Longrightarrow> \<not> retry q \<Longrightarrow>
                 (if P q r then 1 else 0) + bud (q\<lparr> retry := True, authorization := a \<rparr>) \<le> bud q"
    and afin: "\<And>q r. url q = u \<Longrightarrow> (if P q r then 1 else 0) \<le> bud q"
    and aint: "\<And>c q. bud (request_interceptor c q) = bud q"
  shows "tally P srv (sent (snd (api_pass self srv cfg c))) \<le> tally P srv (sent c) + bud cfg"
proof -
  let ?cfg = "request_interceptor c cfg"
  let ?c = "c\<lparr> sent := sent c @ [?cfg] \<rparr>"
  let ?r = "srv (sent c) ?cfg"
  let ?w = "if P ?cfg ?r then 1 else 0 :: nat"
  have k: "url ?cfg = u" using cfg by (simp add: request_interceptor_keeps)
  have c1: "tally P srv (sent ?c) = tally P srv (sent c) + ?w"
    by (simp add: tally_snoc)
  show ?thesis
  proof (cases "settle_reply ?r")
    case (Inr b)
    with c1 afin [OF k, of ?r] aint [of c cfg] show ?thesis by (simp add: api_pass_def Let_def)
  next
    case (Inl err)
    from settle_reply_status [OF Inl] have st: "status_of err = reply_status ?r" .
    have "tally P srv (sent (snd (response_rejected self err ?cfg ?c))) + ?w
            \<le> tally P srv (sent ?c) + bud ?cfg"
    proof (rule response_rejected_budget [OF pres bnd u k])
      fix t assume "status_of err = Some 403" "\<not> csrfRetried ?cfg" "\<not> x_csrf_request ?cfg"
      with st a403 [OF k, of ?r t]
      show "?w + bud (?cfg\<lparr> csrfRetried := True, x_csrftoken := t \<rparr>) \<le> bud ?cfg" by simp
    next
      fix a assume "status_of err = Some 401" "\<not> retry ?cfg"
      with st a401 [OF k, of ?r a]
      show "?w + bud (?cfg\<lparr> retry := True, authorization := a \<rparr>) \<le> bud ?cfg" by simp
    next
      from afin [OF k, of ?r] show "?w \<le> bud ?cfg" .
    qed
    with c1 aint [of c cfg] Inl show ?thesis by (simp add: api_pass_def Let_def)
  qed
qed

lemma api_budget:
  assumes only: "\<And>q r. P q r \<Longrightarrow> url q = u"
    and u: "u \<noteq> ''/auth/token/refresh/''" "u \<noteq> ''/auth/csrf/''"
    and a403: "\<And>q r t. url q = u \<Longrightarrow> reply_status r = Some 403 \<Longrightarrow> \<not> csrfRetried q \<Longrightarrow>
                 \<not> x_csrf_request q \<Longrightarrow>
                 (if P q r then 1 else 0) + bud (q\<lparr> csrfRetried := True, x_csrftoken := t \<rparr>) \<le> bud q"
    and a401: "\<And>q r a. url q = u \<Longrightarrow> reply_status r = Some 401 \<Longrightarrow> \<not> retry q \<Longrightarrow>
                 (if P q r then 1 else 0) + bud (q\<lparr> retry := True, authorization := a \<rparr>) \<le> bud q"
    and afin: "\<And>q r. url q = u \<Longrightarrow> (if P q r then 1 else 0) \<le> bud q"
    and aint: "\<And>c q. bud (request_interceptor c q) = bud q"
  shows "url cfg = u \<Longrightarrow>
         tally P srv (sent (snd (api n srv cfg c))) \<le> tally P srv (sent c) + bud cfg"
proof (induction n arbitrary: cfg c)
  case 0
  show ?case by simp
next
  case (Suc n)
  have "tally P srv (sent (snd (api_pass (api n srv) srv cfg c))) \<le> tally P srv (sent c) + bud cfg"
  proof (rule api_pass_budget [where P = P and u = u and bud = bud])
    show "\<And>q r. P q r \<Longrightarrow> url q = u" by (rule only)
    show "\<And>cfg c. url cfg \<noteq> u \<Longrightarrow>
            tally P srv (sent (snd (api n srv cfg c))) = tally P srv (sent c)"
      by (rule api_pres [where P = P and u = u]) (use only u in simp_all)
    show "\<And>cfg c. url cfg = u \<Longrightarrow>
            tally P srv (sent (snd (api n srv cfg c))) \<le> tally P srv (sent c) + bud cfg"
      by (rule Suc.IH)
    show "u \<noteq> ''/auth/token/refresh/''" "u \<noteq> ''/auth/csrf/''" "url cfg = u"
      using u Suc.prems by simp_all
    show "\<And>q r t. url q = u \<Longrightarrow> reply_status r = Some 403 \<Longrightarrow> \<not> csrfRetried q \<Longrightarrow>
                 \<not> x_csrf_request q \<Longrightarrow>
                 (if P q r then 1 else 0) + bud (q\<lparr> csrfRetried := True, x_csrftoken := t \<rparr>) \<le> bud q"
      by (rule a403)
    show "\<And>q r a. url q = u \<Longrightarrow> reply_status r = Some 401 \<Longrightarrow> \<not> retry q \<Longrightarrow>
                 (if P q r then 1 else 0) + bud (q\<lparr> retry := True, authorization := a \<rparr>) \<le> bud q"
      by (rule a401)
    show "\<And>q r. url q = u \<Longrightarrow> (if P q r then 1 else 0) \<le> bud q" by (rule afin)
    show "\<And>c q. bud (request_interceptor c q) = bud q" by (rule aint)
  qed
  then show ?case by simp
qed

text \<open>
  A request is sent once, and once more for each retry mark it does not carry yet; the
  handler starts the CSRF recovery on at most one answer to it, and the token refresh
  on at most one.
\<close>

lemma api_csrf_recoveries:
  assumes "url cfg \<noteq> ''/auth/token/refresh/''" "url cfg \<noteq> ''/auth/csrf/''"
  shows "csrf_recoveries srv (url cfg) (sent (snd (api n srv cfg c)))
           \<le> csrf_recoveries srv (url cfg) (sent c) + (if csrfRetried cfg then 0 else 1)"
  unfolding csrf_recoveries_def
  by (rule api_budget [where u = "url cfg" and bud = "\<lambda>q. if csrfRetried q then 0 else 1"])
     (use assms in \<open>simp_all add: request_interceptor_keeps\<close>)

lemma api_token_recoveries:
  assumes "url cfg \<noteq> ''/auth/token/refresh/''" "url cfg \<noteq> ''/auth/csrf/''"
  shows "token_recoveries srv (url cfg) (sent (snd (api n srv cfg c)))
           \<le> token_recoveries srv (url cfg) (sent c) + (if retry cfg then 0 else 1)"
  unfolding token_recoveries_def
  by (rule api_budget [where u = "url cfg" and bud = "\<lambda>q. if retry q then 0 else 1"])
     (use assms in \<open>simp_all add: request_interceptor_keeps\<close>)

lemma api_bound:
  assumes u: "u \<noteq> ''/auth/token/refresh/''" "u \<noteq> ''/auth/csrf/''" and cfg: "url cfg = u"
  shows "requests_to u (sent (snd (api n srv cfg c))) \<le> requests_to u (sent c) + Suc (recoveries_left cfg)"
  unfolding requests_to_tally [where srv = srv]
  by (rule api_budget [where u = u and bud = "\<lambda>q. Suc (recoveries_left q)"])
     (use u cfg in \<open>simp_all add: request_interceptor_keeps recoveries_left_def\<close>)

text \<open>A failure of a class whose mark is set is the result of the call.\<close>

lemma api_csrf_second_failure:
  assumes "csrfRetried cfg" and "srv (sent c) (request_interceptor c cfg) = Reply 403 b"
  shows "api (Suc n) srv cfg c
     = (Some (Inl (HttpError 403 b)), c\<lparr> sent := sent c @ [request_interceptor c cfg] \<rparr>)"
  using assms
  by (simp add: api_pass_def response_rejected_def handle_unauthorized_def settle_reply_def
      status_of_def request_interceptor_keeps Let_def)

lemma api_refresh_second_failure:
  assumes "retry cfg" and "srv (sent c) (request_interceptor c cfg) = Reply 401 b"
  shows "api (Suc n) srv cfg c
     = (Some (Inl (HttpError 401 b)), c\<lparr> sent := sent c @ [request_interceptor c cfg] \<rparr>)"
  using assms
  by (simp add: api_pass_def response_rejected_def handle_unauthorized_def settle_reply_def
      status_of_def request_interceptor_keeps Let_def)

text \<open>
  When the refresh endpoint itself answers 401, the refresh request, sent through the
  same instance, is handled like any other request: the interceptor refreshes again,
  for the refresh request.  At depth \<open>n + 1\<close> the call has sent \<open>n\<close> refresh requests
  and has not settled.
\<close>

lemma refresh_loop:
  assumes "\<not> retry cfg" and "truthy (getItem (localStorage c) ''refreshToken'')"
  shows "fst (api (Suc n) server_401 cfg c) = None
       \<and> localStorage (snd (api (Suc n) server_401 cfg c)) = localStorage c
       \<and> map url (sent (snd (api (Suc n) server_401 cfg c)))
           = map url (sent c) @ url cfg # replicate n ''/auth/token/refresh/''"
  using assms
proof (induction n arbitrary: cfg c)
  case 0
  then show ?case
    by (simp add: api_pass_def response_rejected_def handle_unauthorized_def settle_reply_def
        status_of_def request_interceptor_keeps server_401_def Let_def)
next
  case (Suc n)
  let ?cfg = "request_interceptor c cfg"
  let ?c = "c\<lparr> sent := sent c @ [?cfg] \<rparr>"
  let ?rq = "refresh_request (js_string (getItem (localStorage ?c) ''refreshToken''))"
  have "\<not> retry ?rq" by (simp add: refresh_request_def plain_request_def)
  moreover have "truthy (getItem (localStorage ?c) ''refreshToken'')" using Suc.prems by simp
  ultimately have ih: "fst (api (Suc n) server_401 ?rq ?c) = None
       \<and> localStorage (snd (api (Suc n) server_401 ?rq ?c)) = localStorage ?c
       \<and> map url (sent (snd (api (Suc n) server_401 ?rq ?c)))
           = map url (sent ?c) @ url ?rq # replicate n ''/auth/token/refresh/''"
    by (rule Suc.IH)
  obtain r c2 where s: "api (Suc n) server_401 ?rq ?c = (r, c2)"
    by (cases "api (Suc n) server_401 ?rq ?c")
  with ih have r: "r = None" and l: "localStorage c2 = localStorage c"
    and m: "map url (sent c2) = map url (sent c) @ url cfg # replicate (Suc n) ''/auth/token/refresh/''"
    by (simp_all add: request_interceptor_keeps refresh_request_def plain_request_def)
  have "api_pass (api (Suc n) server_401) server_401 cfg c = (None, c2)"
    using Suc.prems s r
    by (simp add: api_pass_def response_rejected_def handle_unauthorized_def settle_reply_def
        status_of_def request_interceptor_keeps server_401_def Let_def del: api.simps)
  then have "api (Suc (Suc n)) server_401 cfg c = (None, c2)" by simp
  with l m show ?case by (simp del: api.simps)
qed

text \<open>
  Nothing but the sent requests changes in that loop.
\<close>

lemma refresh_loop_state:
  assumes "\<not> retry cfg" and "truthy (getItem (localStorage c) ''refreshToken'')"
  shows "fst (api (Suc n) server_401 cfg c) = None
       \<and> (snd (api (Suc n) server_401 cfg c))\<lparr> sent := sent c \<rparr> = c"
  using assms
proof (induction n arbitrary: cfg c)
  case 0
  then show ?case
    by (simp add: api_pass_def response_rejected_def handle_unauthorized_def settle_reply_def
        status_of_def request_interceptor_keeps server_401_def Let_def)
next
  case (Suc n)
  let ?cfg = "request_interceptor c cfg"
  let ?c = "c\<lparr> sent := sent c @ [?cfg] \<rparr>"
  let ?rq = "refresh_request (js_string (getItem (localStorage ?c) ''refreshToken''))"
  have "\<not> retry ?rq" by (simp add: refresh_request_def plain_request_def)
  moreover have "truthy (getItem (localStorage ?c) ''refreshToken'')" using Suc.prems by simp
  ultimately have ih: "fst (api (Suc n) server_401 ?rq ?c) = None
       \<and> (snd (api (Suc n) server_401 ?rq ?c))\<lparr> sent := sent ?c \<rparr> = ?c"
    by (rule Suc.IH)
  obtain r c2 where s: "api (Suc n) server_401 ?rq ?c = (r, c2)"
    by (cases "api (Suc n) server_401 ?rq ?c")
  with ih have r: "r = None" and l: "c2\<lparr> sent := sent ?c \<rparr> = ?c" by simp_all
  from l have "(c2\<lparr> sent := sent ?c \<rparr>)\<lparr> sent := sent c \<rparr> = ?c\<lparr> sent := sent c \<rparr>" by simp
  then have l2: "c2\<lparr> sent := sent c \<rparr> = c" by simp
  have "api_pass (api (Suc n) server_401) server_401 cfg c = (None, c2)"
    using Suc.prems s r
    by (simp add: api_pass_def response_rejected_def handle_unauthorized_def settle_reply_def
        status_of_def request_interceptor_keeps server_401_def Let_def del: api.simps)
  then have "api (Suc (Suc n)) server_401 cfg c = (None, c2)" by simp
  with l2 show ?case by (simp del: api.simps)
qed

text \<open>
  A call through the instance writes to the keys \<open>token\<close> and \<open>csrfToken\<close> of the
  local storage only.
\<close>

lemma getCSRFToken_call_storage: "localStorage (snd (getCSRFToken_call f c)) = localStorage c"
  by (simp add: getCSRFToken_call_def split: option.splits)

lemma getCSRFToken_settle_storage:
  "k \<noteq> ''csrfToken'' \<Longrightarrow> localStorage (snd (getCSRFToken_settle r c)) k = localStorage c k"
  by (simp add: getCSRFToken_settle_def storage_defs split: sum.splits)

lemma await_promise_storage:
  assumes "k \<noteq> ''csrfToken''"
  shows "localStorage (snd (await_promise c)) k = localStorage c k"
proof (cases "initializationPromise c")
  case None
  then show ?thesis by (simp add: await_promise_def)
next
  case (Some q)
  show ?thesis
  proof (cases q)
    case (Mine p)
    with Some show ?thesis by (simp add: await_promise_def)
  next
    case (Theirs p r)
    show ?thesis
    proof (cases r)
      case None
      with Some Theirs show ?thesis by (simp add: await_promise_def)
    next
      case (Some v)
      obtain t c1 where t: "getCSRFToken_settle v c = (t, c1)" by (cases "getCSRFToken_settle v c")
      with getCSRFToken_settle_storage [OF assms, of v c] have "localStorage c1 k = localStorage c k"
        by simp
      with \<open>initializationPromise c = Some q\<close> Theirs Some t show ?thesis
        by (simp add: await_promise_def)
    qed
  qed
qed

lemma getCSRFToken_via_storage:
  assumes pres: "\<And>cfg c. localStorage (snd (self cfg c)) k = localStorage c k"
    and k: "k \<noteq> ''csrfToken''"
  shows "localStorage (snd (getCSRFToken_via self f c)) k = localStorage c k"
proof (cases "getCSRFToken_call f c")
  case (Pair h c1)
  with getCSRFToken_call_storage [of f c] have c1: "localStorage c1 = localStorage c" by simp
  show ?thesis
  proof (cases h)
    case (Started p)
    obtain r c2 where s: "self csrf_request c1 = (r, c2)" by (cases "self csrf_request c1")
    from pres [of csrf_request c1] s c1 have c2: "localStorage c2 k = localStorage c k" by simp
    show ?thesis
    proof (cases r)
      case None
      with Pair Started s c2 show ?thesis by (simp add: getCSRFToken_via_def)
    next
      case (Some v)
      obtain t c3 where t: "getCSRFToken_settle v c2 = (t, c3)"
        by (cases "getCSRFToken_settle v c2")
      with getCSRFToken_settle_storage [OF k, of v c2] have "localStorage c3 k = localStorage c2 k"
        by simp
      with Some Pair Started s c2 t show ?thesis
        by (simp add: getCSRFToken_via_def)
    qed
  next
    case (Joined p)
    with Pair c1 await_promise_storage [OF k, of c1] show ?thesis
      by (simp add: getCSRFToken_via_def)
  qed (use Pair c1 in \<open>simp_all add: getCSRFToken_via_def\<close>)
qed

lemma handle_unauthorized_storage:
  assumes pres: "\<And>cfg c. localStorage (snd (self cfg c)) k = localStorage c k"
    and k: "k \<noteq> ''token''"
  shows "localStorage (snd (handle_unauthorized self err cfg c)) k = localStorage c k"
proof (cases "status_of err = Some 401 \<and> \<not> retry cfg \<and> truthy (getItem (localStorage c) ''refreshToken'')")
  case False
  then show ?thesis by (auto simp: handle_unauthorized_def)
next
  case True
  let ?rq = "refresh_request (js_string (getItem (localStorage c) ''refreshToken''))"
  obtain r c1 where s: "self ?rq c = (r, c1)" by (cases "self ?rq c")
  from pres [of ?rq c] s have c1: "localStorage c1 k = localStorage c k" by simp
  show ?thesis
  proof (cases r)
    case None
    with s c1 True show ?thesis by (simp add: handle_unauthorized_def)
  next
    case (Some v)
    show ?thesis
    proof (cases v)
      case (Inl e)
      with Some s c1 True show ?thesis by (simp add: handle_unauthorized_def)
    next
      case (Inr b)
      let ?cfg = "cfg\<lparr> retry := True, authorization := Some (''Bearer '' @ js_string (b_access b)) \<rparr>"
      let ?c = "c1\<lparr> localStorage := setItem (localStorage c1) ''token'' (js_string (b_access b)) \<rparr>"
      from pres [of ?cfg ?c] c1 k
      have "localStorage (snd (self ?cfg ?c)) k = localStorage c k" by (simp add: storage_defs)
      with Some Inr s True show ?thesis by (simp add: handle_unauthorized_def)
    qed
  qed
qed

lemma response_rejected_storage:
  assumes pres: "\<And>cfg c. localStorage (snd (self cfg c)) k = localStorage c k"
    and k: "k \<noteq> ''token''" "k \<noteq> ''csrfToken''"
  shows "localStorage (snd (response_rejected self err cfg c)) k = localStorage c k"
proof (cases "status_of err = Some 403 \<and> \<not> csrfRetried cfg \<and> \<not> x_csrf_request cfg")
  case False
  with handle_unauthorized_storage [of self k err cfg c, OF pres k(1)] show ?thesis
    by (auto simp: response_rejected_def)
next
  case True
  obtain r c1 where s: "getCSRFToken_via self True c = (r, c1)"
    by (cases "getCSRFToken_via self True c")
  from getCSRFToken_via_storage [of self k True c, OF pres k(2)] s
  have c1: "localStorage c1 k = localStorage c k" by simp
  show ?thesis
  proof (cases r)
    case None
    with s c1 True show ?thesis by (simp add: response_rejected_def)
  next
    case (Some v)
    show ?thesis
    proof (cases v)
      case (Inl e)
      with Some s c1 True show ?thesis by (simp add: response_rejected_def)
    next
      case (Inr t)
      show ?thesis
      proof (cases "truthy (csrfToken c1)")
        case tr: True
        let ?cfg = "cfg\<lparr> csrfRetried := True, x_csrftoken := csrfToken c1 \<rparr>"
        from pres [of ?cfg c1] c1 Some Inr s True tr show ?thesis
          by (simp add: response_rejected_def)
      next
        case fl: False
        from handle_unauthorized_storage [of self k err _ c1, OF pres k(1)] c1 Some Inr s True fl
        show ?thesis by (simp add: response_rejected_def)
      qed
    qed
  qed
qed

lemma api_pass_storage:
  assumes pres: "\<And>cfg c. localStorage (snd (self cfg c)) k = localStorage c k"
    and k: "k \<noteq> ''token''" "k \<noteq> ''csrfToken''"
  shows "localStorage (snd (api_pass self srv cfg c)) k = localStorage c k"
proof -
  let ?cfg = "request_interceptor c cfg"
  let ?c = "c\<lparr> sent := sent c @ [?cfg] \<rparr>"
  show ?thesis
  proof (cases "settle_reply (srv (sent c) ?cfg)")
    case (Inr b)
    then show ?thesis by (simp add: api_pass_def Let_def)
  next
    case (Inl err)
    with response_rejected_storage [of self k err ?cfg ?c, OF pres k] show ?thesis
      by (simp add: api_pass_def Let_def)
  qed
qed

lemma api_storage:
  assumes k: "k \<noteq> ''token''" "k \<noteq> ''csrfToken''"
  shows "localStorage (snd (api n srv cfg c)) k = localStorage c k"
proof (induction n arbitrary: cfg c)
  case 0
  show ?case by simp
next
  case (Suc n)
  have "localStorage (snd (api_pass (api n srv) srv cfg c)) k = localStorage c k"
    by (rule api_pass_storage [OF _ k]) (rule Suc.IH)
  then show ?case by simp
qed

text \<open>
  When the server answers no refresh request with 401 or 403 and no promise hangs,
  every call settles, within depth 4: the recoveries nest no deeper.
\<close>

lemma api_pass_cases:
  "api_pass self srv cfg c =
     (case settle_reply (srv (sent c) (request_interceptor c cfg)) of
        Inr b \<Rightarrow> (Some (Inr b), c\<lparr> sent := sent c @ [request_interceptor c cfg] \<rparr>)
      | Inl err \<Rightarrow> response_rejected self err (request_interceptor c cfg)
                     (c\<lparr> sent := sent c @ [request_interceptor c cfg] \<rparr>))"
  by (simp add: api_pass_def Let_def)

text \<open>An error that starts no recovery is the result.\<close>

lemma response_rejected_final:
  assumes "status_of err \<noteq> Some 403 \<or> csrfRetried cfg \<or> x_csrf_request cfg"
    and "status_of err \<noteq> Some 401 \<or> retry cfg"
  shows "response_rejected self err cfg c = (Some (Inl err), c)"
  using assms by (auto simp: response_rejected_def handle_unauthorized_def)

lemma refresh_settles:
  assumes "plain_refresh srv" and "url cfg = ''/auth/token/refresh/''"
  shows "fst (api (Suc k) srv cfg c) \<noteq> None
       \<and> snd (api (Suc k) srv cfg c) = c\<lparr> sent := sent c @ [request_interceptor c cfg] \<rparr>"
proof -
  let ?cfg = "request_interceptor c cfg"
  let ?r = "srv (sent c) ?cfg"
  have u: "url ?cfg = ''/auth/token/refresh/''" using assms(2) by (simp add: request_interceptor_keeps)
  with assms(1) have st: "reply_status ?r \<noteq> Some 401" "reply_status ?r \<noteq> Some 403"
    by (simp_all add: plain_refresh_def)
  show ?thesis
  proof (cases "settle_reply ?r")
    case (Inr b)
    then show ?thesis by (simp add: api_pass_cases)
  next
    case (Inl err)
    from settle_reply_status [OF Inl] st have "status_of err \<noteq> Some 401" "status_of err \<noteq> Some 403"
      by simp_all
    then have "response_rejected (api k srv) err ?cfg (c\<lparr> sent := sent c @ [?cfg] \<rparr>)
                 = (Some (Inl err), c\<lparr> sent := sent c @ [?cfg] \<rparr>)"
      by (intro response_rejected_final) simp_all
    with Inl show ?thesis by (simp add: api_pass_cases)
  qed
qed

lemma marked_settles:
  assumes "csrfRetried cfg \<or> x_csrf_request cfg" and "retry cfg"
  shows "fst (api (Suc k) srv cfg c) \<noteq> None"
proof -
  let ?cfg = "request_interceptor c cfg"
  have m: "csrfRetried ?cfg \<or> x_csrf_request ?cfg" "retry ?cfg"
    using assms by (simp_all add: request_interceptor_keeps)
  show ?thesis
  proof (cases "settle_reply (srv (sent c) ?cfg)")
    case (Inr b)
    then show ?thesis by (simp add: api_pass_cases)
  next
    case (Inl err)
    have "response_rejected (api k srv) err ?cfg (c\<lparr> sent := sent c @ [?cfg] \<rparr>)
                 = (Some (Inl err), c\<lparr> sent := sent c @ [?cfg] \<rparr>)"
      by (intro response_rejected_final) (use m in auto)
    with Inl show ?thesis by (simp add: api_pass_cases)
  qed
qed

lemma handle_unauthorized_settles:
  assumes p: "plain_refresh srv"
    and nxt: "\<And>a c'. \<not> retry cfg \<Longrightarrow> initializationPromise c' = initializationPromise c \<Longrightarrow>
                fst (api (Suc k) srv (cfg\<lparr> retry := True, authorization := a \<rparr>) c') \<noteq> None"
  shows "fst (handle_unauthorized (api (Suc k) srv) err cfg c) \<noteq> None"
proof (cases "status_of err = Some 401 \<and> \<not> retry cfg \<and> truthy (getItem (localStorage c) ''refreshToken'')")
  case False
  then show ?thesis by (auto simp: handle_unauthorized_def)
next
  case True
  let ?rq = "refresh_request (js_string (getItem (localStorage c) ''refreshToken''))"
  have "url ?rq = ''/auth/token/refresh/''" by (simp add: refresh_request_def plain_request_def)
  from refresh_settles [OF p this, of k c]
  obtain v c1 where s: "api (Suc k) srv ?rq c = (Some v, c1)"
    and c1: "c1 = c\<lparr> sent := sent c @ [request_interceptor c ?rq] \<rparr>"
    by (cases "api (Suc k) srv ?rq c") auto
  show ?thesis
  proof (cases v)
    case (Inl e)
    with s True show ?thesis by (simp add: handle_unauthorized_def del: api.simps)
  next
    case (Inr b)
    let ?c = "c1\<lparr> localStorage := setItem (localStorage c1) ''token'' (js_string (b_access b)) \<rparr>"
    have "initializationPromise ?c = initializationPromise c" using c1 by simp
    with True nxt
    have "fst (api (Suc k) srv (cfg\<lparr> retry := True,
                   authorization := Some (''Bearer '' @ js_string (b_access b)) \<rparr>) ?c) \<noteq> None"
      by blast
    with s Inr True show ?thesis by (simp add: handle_unauthorized_def del: api.simps)
  qed
qed

text \<open>A request that cannot start the CSRF recovery settles within depth 2.\<close>

lemma csrf_marked_settles:
  assumes p: "plain_refresh srv" and m: "csrfRetried cfg \<or> x_csrf_request cfg"
  shows "fst (api (Suc (Suc k)) srv cfg c) \<noteq> None"
proof -
  let ?cfg = "request_interceptor c cfg"
  let ?c = "c\<lparr> sent := sent c @ [?cfg] \<rparr>"
  have m1: "csrfRetried ?cfg \<or> x_csrf_request ?cfg"
    using m by (simp add: request_interceptor_keeps)
  show ?thesis
  proof (cases "settle_reply (srv (sent c) ?cfg)")
    case (Inr b)
    then show ?thesis by (simp add: api_pass_cases del: api.simps add: api.simps(2) [of "Suc k"])
  next
    case (Inl err)
    have "fst (handle_unauthorized (api (Suc k) srv) err ?cfg ?c) \<noteq> None"
    proof (rule handle_unauthorized_settles [OF p])
      fix a c'
      show "fst (api (Suc k) srv (?cfg\<lparr> retry := True, authorization := a \<rparr>) c') \<noteq> None"
        by (rule marked_settles) (use m1 in simp_all)
    qed
    moreover from m1 have "response_rejected (api (Suc k) srv) err ?cfg ?c
                 = handle_unauthorized (api (Suc k) srv) err ?cfg ?c"
      by (auto simp: response_rejected_def)
    ultimately show ?thesis using Inl
      by (simp add: api_pass_cases del: api.simps add: api.simps(2) [of "Suc k"])
  qed
qed

text \<open>So does an acquisition of the CSRF token; a request that carries \<open>_retry\<close> settles
  within depth 3, and every request within depth 4.\<close>

lemma await_promise_settles:
  assumes "no_hanging_promise c" and "initializationPromise c \<noteq> None"
  shows "fst (await_promise c) \<noteq> None"
proof -
  from assms obtain p r where q: "initializationPromise c = Some (Theirs p (Some r))"
    by (auto simp: no_hanging_promise_def split: option.splits pending.splits)
  obtain t c1 where "getCSRFToken_settle r c = (t, c1)" by (cases "getCSRFToken_settle r c")
  with q show ?thesis by (simp add: await_promise_def)
qed

lemma getCSRFToken_via_settles:
  assumes p: "plain_refresh srv" and h: "no_hanging_promise c"
  shows "fst (getCSRFToken_via (api (Suc (Suc k)) srv) f c) \<noteq> None"
proof (cases "getCSRFToken_call f c")
  case (Pair hd c1)
  show ?thesis
  proof (cases hd)
    case (Cached t)
    with Pair show ?thesis by (simp add: getCSRFToken_via_def del: api.simps)
  next
    case (Joined q)
    with Pair have "c1 = c" "initializationPromise c \<noteq> None"
      by (auto simp: getCSRFToken_call_def split: if_splits option.splits)
    with await_promise_settles [OF h] Pair Joined show ?thesis
      by (simp add: getCSRFToken_via_def del: api.simps)
  next
    case (Started q)
    have "x_csrf_request csrf_request" by (simp add: csrf_request_def)
    then have "fst (api (Suc (Suc k)) srv csrf_request c1) \<noteq> None"
      by (intro csrf_marked_settles [OF p]) simp
    then obtain v c2 where s: "api (Suc (Suc k)) srv csrf_request c1 = (Some v, c2)"
      by (cases "api (Suc (Suc k)) srv csrf_request c1") auto
    obtain t c3 where "getCSRFToken_settle v c2 = (t, c3)" by (cases "getCSRFToken_settle v c2")
    with s Pair Started show ?thesis by (simp add: getCSRFToken_via_def del: api.simps)
  qed
qed

lemma retry_marked_settles:
  assumes p: "plain_refresh srv" and h: "no_hanging_promise c" and r: "retry cfg"
  shows "fst (api (Suc (Suc (Suc k))) srv cfg c) \<noteq> None"
proof -
  let ?cfg = "request_interceptor c cfg"
  let ?c = "c\<lparr> sent := sent c @ [?cfg] \<rparr>"
  let ?self = "api (Suc (Suc k)) srv"
  have r1: "retry ?cfg" using r by (simp add: request_interceptor_keeps)
  have h1: "no_hanging_promise ?c" using h by (simp add: no_hanging_promise_def)
  show ?thesis
  proof (cases "settle_reply (srv (sent c) ?cfg)")
    case (Inr b)
    then show ?thesis
      by (simp add: api_pass_cases del: api.simps add: api.simps(2) [of "Suc (Suc k)"])
  next
    case (Inl err)
    have "fst (response_rejected ?self err ?cfg ?c) \<noteq> None"
    proof (cases "status_of err = Some 403 \<and> \<not> csrfRetried ?cfg \<and> \<not> x_csrf_request ?cfg")
      case False
      with r1 have "response_rejected ?self err ?cfg ?c = (Some (Inl err), ?c)"
        by (intro response_rejected_final) auto
      then show ?thesis by simp
    next
      case True
      from getCSRFToken_via_settles [OF p h1, of k True]
      obtain v c1 where s: "getCSRFToken_via ?self True ?c = (Some v, c1)"
        by (cases "getCSRFToken_via ?self True ?c") auto
      show ?thesis
      proof (cases v)
        case (Inl e)
        with s True show ?thesis by (simp add: response_rejected_def del: api.simps)
      next
        case (Inr t)
        show ?thesis
        proof (cases "truthy (csrfToken c1)")
          case tr: True
          have "fst (?self (?cfg\<lparr> csrfRetried := True, x_csrftoken := csrfToken c1 \<rparr>) c1) \<noteq> None"
            by (rule marked_settles) (use r1 in simp_all)
          with s Inr True tr show ?thesis by (simp add: response_rejected_def del: api.simps)
        next
          case fl: False
          from True have "status_of err \<noteq> Some 401" by simp
          then have "handle_unauthorized ?self err (?cfg\<lparr> csrfRetried := True \<rparr>) c1
                       = (Some (Inl err), c1)"
            by (simp add: handle_unauthorized_def)
          with s Inr True fl show ?thesis by (simp add: response_rejected_def del: api.simps)
        qed
      qed
    qed
    with Inl show ?thesis
      by (simp add: api_pass_cases del: api.simps add: api.simps(2) [of "Suc (Suc k)"])
  qed
qed

lemma api_settles_4:
  assumes p: "plain_refresh srv" and h: "no_hanging_promise c"
  shows "fst (api (Suc (Suc (Suc (Suc k)))) srv cfg c) \<noteq> None"
proof -
  let ?cfg = "request_interceptor c cfg"
  let ?c = "c\<lparr> sent := sent c @ [?cfg] \<rparr>"
  let ?self = "api (Suc (Suc (Suc k))) srv"
  have h1: "no_hanging_promise ?c" using h by (simp add: no_hanging_promise_def)
  show ?thesis
  proof (cases "settle_reply (srv (sent c) ?cfg)")
    case (Inr b)
    then show ?thesis
      by (simp add: api_pass_cases del: api.simps add: api.simps(2) [of "Suc (Suc (Suc k))"])
  next
    case (Inl err)
    have "fst (response_rejected ?self err ?cfg ?c) \<noteq> None"
    proof (cases "status_of err = Some 403 \<and> \<not> csrfRetried ?cfg \<and> \<not> x_csrf_request ?cfg")
      case False
      have "fst (handle_unauthorized ?self err ?cfg ?c) \<noteq> None"
      proof (rule handle_unauthorized_settles [OF p])
        fix a and c' :: client
        assume "initializationPromise c' = initializationPromise ?c"
        with h1 have "no_hanging_promise c'" by (simp add: no_hanging_promise_def)
        then show "fst (?self (?cfg\<lparr> retry := True, authorization := a \<rparr>) c') \<noteq> None"
          by (intro retry_marked_settles [OF p]) simp_all
      qed
      with False show ?thesis by (auto simp: response_rejected_def simp del: api.simps)
    next
      case True
      from getCSRFToken_via_settles [OF p h1, of "Suc k" True]
      obtain v c1 where s: "getCSRFToken_via ?self True ?c = (Some v, c1)"
        by (cases "getCSRFToken_via ?self True ?c") auto
      show ?thesis
      proof (cases v)
        case (Inl e)
        with s True show ?thesis by (simp add: response_rejected_def del: api.simps)
      next
        case (Inr t)
        show ?thesis
        proof (cases "truthy (csrfToken c1)")
          case tr: True
          have "fst (?self (?cfg\<lparr> csrfRetried := True, x_csrftoken := csrfToken c1 \<rparr>) c1) \<noteq> None"
            by (rule csrf_marked_settles [OF p]) simp
          with s Inr True tr show ?thesis by (simp add: response_rejected_def del: api.simps)
        next
          case fl: False
          from True have "status_of err \<noteq> Some 401" by simp
          then have "handle_unauthorized ?self err (?cfg\<lparr> csrfRetried := True \<rparr>) c1
                       = (Some (Inl err), c1)"
            by (simp add: handle_unauthorized_def)
          with s Inr True fl show ?thesis by (simp add: response_rejected_def del: api.simps)
        qed
      qed
    qed
    with Inl show ?thesis
      by (simp add: api_pass_cases del: api.simps add: api.simps(2) [of "Suc (Suc (Suc k))"])
  qed
qed

lemma api_settles:
  assumes "plain_refresh srv" and "no_hanging_promise c"
  shows "fst (api (4 + k) srv cfg c) \<noteq> None"
proof -
  have "4 + k = Suc (Suc (Suc (Suc k)))" by simp
  then show ?thesis using api_settles_4 [OF assms, of k cfg] by (simp only: not_False_eq_True)
qed

lemma getCSRFToken_settles:
  assumes "plain_refresh srv" and "no_hanging_promise c"
  shows "fst (getCSRFToken (2 + k) srv f c) \<noteq> None"
proof -
  have "2 + k = Suc (Suc k)" by simp
  then show ?thesis
    using getCSRFToken_via_settles [OF assms, of k f]
    by (simp only: getCSRFToken_def not_False_eq_True)
qed

section \<open>The customer client: what is sent\<close>

lemma ensureCSRFToken_count:
  "u \<noteq> ''/api/auth/csrf/'' \<Longrightarrow>
   requests_to u (c_sent (snd (ensureCSRFToken srv c))) = requests_to u (c_sent c)"
  by (simp add: ensureCSRFToken_def bare_def requests_to_def customer_csrf_request_def
      plain_request_def split: sum.splits)

lemma customer_request_interceptor_keeps:
  "url (fst (customer_request_interceptor srv cfg c)) = url cfg"
  by (simp add: customer_request_interceptor_def Let_def split: prod.splits)

lemma customer_request_interceptor_count:
  assumes "u \<noteq> ''/api/auth/csrf/''"
  shows "requests_to u (c_sent (snd (customer_request_interceptor srv cfg c))) = requests_to u (c_sent c)"
proof (cases "ensureCSRFToken srv c")
  case (Pair t c')
  with ensureCSRFToken_count [OF assms, of srv c] have "requests_to u (c_sent c') = requests_to u (c_sent c)"
    by simp
  with Pair show ?thesis by (simp add: customer_request_interceptor_def Let_def)
qed

lemma customer_api_retried:
  assumes "retry cfg" and "customer_request_interceptor srv cfg c = (cfg1, c1)"
  shows "customer_api srv cfg c =
     (case settle_reply (srv (c_sent c1) cfg1) of
        Inr b \<Rightarrow> (Inr b, c1\<lparr> c_sent := c_sent c1 @ [cfg1] \<rparr>)
      | Inl err \<Rightarrow> (Inl err, c1\<lparr> c_sent := c_sent c1 @ [cfg1] \<rparr>))"
proof -
  from assms customer_request_interceptor_retry [of srv cfg c] have r: "retry cfg1" by simp
  show ?thesis
    by (subst customer_api.simps) (simp add: assms(2) r Let_def split: sum.splits)
qed

lemma customer_api_retried_count:
  assumes "retry cfg" and "u \<noteq> ''/api/auth/csrf/''" and "url cfg = u"
  shows "requests_to u (c_sent (snd (customer_api srv cfg c))) = Suc (requests_to u (c_sent c))"
proof -
  obtain cfg1 c1 where i: "customer_request_interceptor srv cfg c = (cfg1, c1)"
    by (cases "customer_request_interceptor srv cfg c")
  from i customer_request_interceptor_keeps [of srv cfg c] assms(3) have u1: "url cfg1 = u" by simp
  from i customer_request_interceptor_count [OF assms(2), of srv cfg c]
  have c1: "requests_to u (c_sent c1) = requests_to u (c_sent c)" by simp
  from customer_api_retried [OF assms(1) i] u1 c1 show ?thesis
    by (simp add: requests_to_snoc [unfolded requests_to_def] requests_to_def split: sum.splits)
qed

lemma customer_api_bound:
  assumes u: "u \<noteq> ''/api/auth/csrf/''" "u \<noteq> ''/api/auth/token/refresh/''" and cfg: "url cfg = u"
  shows "requests_to u (c_sent (snd (customer_api srv cfg c)))
           \<le> requests_to u (c_sent c) + (if retry cfg then 1 else 2)"
proof (cases "retry cfg")
  case True
  with customer_api_retried_count [OF True u(1) cfg, of srv c] show ?thesis by simp
next
  case False
  obtain cfg1 c1 where i: "customer_request_interceptor srv cfg c = (cfg1, c1)"
    by (cases "customer_request_interceptor srv cfg c")
  from i customer_request_interceptor_keeps [of srv cfg c] cfg have u1: "url cfg1 = u" by simp
  from i customer_request_interceptor_retry [of srv cfg c] False have r1: "\<not> retry cfg1" by simp
  from i customer_request_interceptor_count [OF u(1), of srv cfg c]
  have c1: "requests_to u (c_sent c1) = requests_to u (c_sent c)" by simp
  let ?c2 = "c1\<lparr> c_sent := c_sent c1 @ [cfg1] \<rparr>"
  have c2: "requests_to u (c_sent ?c2) = Suc (requests_to u (c_sent c))"
    using c1 u1 by (simp add: requests_to_def)
  show ?thesis
  proof (cases "settle_reply (srv (c_sent c1) cfg1)")
    case (Inr b)
    with i c2 False show ?thesis by (subst customer_api.simps) simp
  next
    case (Inl err)
    consider (csrf) "status_of err = Some 403"
      | (refresh) "status_of err \<noteq> Some 403" "status_of err = Some 401"
          "truthy (getItem (c_storage ?c2) ''refresh_token'')"
      | (other) "status_of err \<noteq> Some 403"
          "\<not> (status_of err = Some 401 \<and> truthy (getItem (c_storage ?c2) ''refresh_token''))"
      by blast
    then show ?thesis
    proof cases
      case csrf
      obtain t c3 where e: "ensureCSRFToken srv ?c2 = (t, c3)" by (cases "ensureCSRFToken srv ?c2")
      with ensureCSRFToken_count [OF u(1), of srv ?c2] c2
      have c3: "requests_to u (c_sent c3) = Suc (requests_to u (c_sent c))" by simp
      let ?cfg = "cfg1\<lparr> retry := True, x_csrftoken := t \<rparr>"
      have "requests_to u (c_sent (snd (customer_api srv ?cfg c3))) = Suc (requests_to u (c_sent c3))"
        by (rule customer_api_retried_count) (use u u1 in simp_all)
      with c3 i Inl csrf r1 e False show ?thesis
        by (subst customer_api.simps) (simp add: Let_def)
    next
      case refresh
      let ?rq = "refresh_request (js_string (getItem (c_storage ?c2) ''refresh_token''))
                   \<lparr> url := ''/api/auth/token/refresh/'' \<rparr>"
      obtain r c3 where b: "bare srv ?rq ?c2 = (r, c3)" by (cases "bare srv ?rq ?c2")
      then have c3: "requests_to u (c_sent c3) = Suc (requests_to u (c_sent c))"
        using c2 u(2) by (auto simp: bare_def requests_to_def)
      show ?thesis
      proof (cases r)
        case (Inl e)
        with b c3 i \<open>settle_reply (srv (c_sent c1) cfg1) = Inl err\<close> refresh r1 False show ?thesis
          by (subst customer_api.simps) (simp add: Let_def customer_sign_out_def)
      next
        case (Inr bd)
        let ?cfg = "cfg1\<lparr> retry := True, authorization := Some (''Bearer '' @ js_string (b_access bd)) \<rparr>"
        let ?c4 = "c3\<lparr> c_storage := setItem (c_storage c3) ''access_token'' (js_string (b_access bd)) \<rparr>"
        have "requests_to u (c_sent (snd (customer_api srv ?cfg ?c4))) = Suc (requests_to u (c_sent ?c4))"
          by (rule customer_api_retried_count) (use u u1 in simp_all)
        with b c3 i \<open>settle_reply (srv (c_sent c1) cfg1) = Inl err\<close> refresh r1 False Inr show ?thesis
          by (subst customer_api.simps) (simp add: Let_def)
      qed
    next
      case other
      with i Inl c2 r1 False show ?thesis
        by (subst customer_api.simps) (auto simp: Let_def)
    qed
  qed
qed


text \<open>
  At most one refresh request is made for a request, and none for one that carries the
  mark.
\<close>

lemma customer_retried_other:
  assumes "retry cfg" and "v \<noteq> ''/api/auth/csrf/''" and "url cfg \<noteq> v"
  shows "requests_to v (c_sent (snd (customer_api srv cfg c))) = requests_to v (c_sent c)"
proof -
  obtain cfg1 c1 where i: "customer_request_interceptor srv cfg c = (cfg1, c1)"
    by (cases "customer_request_interceptor srv cfg c")
  from i customer_request_interceptor_keeps [of srv cfg c] assms(3) have u1: "url cfg1 \<noteq> v" by simp
  from i customer_request_interceptor_count [OF assms(2), of srv cfg c]
  have c1: "requests_to v (c_sent c1) = requests_to v (c_sent c)" by simp
  from customer_api_retried [OF assms(1) i] u1 c1 show ?thesis
    by (simp add: requests_to_snoc [unfolded requests_to_def] requests_to_def split: sum.splits)
qed

lemma customer_api_refreshes:
  assumes cfg: "url cfg \<noteq> ''/api/auth/token/refresh/''"
  shows "requests_to ''/api/auth/token/refresh/'' (c_sent (snd (customer_api srv cfg c)))
           \<le> requests_to ''/api/auth/token/refresh/'' (c_sent c) + (if retry cfg then 0 else 1)"
proof (cases "retry cfg")
  case True
  with customer_retried_other [OF True _ cfg, of srv c] show ?thesis by simp
next
  case False
  let ?R = "''/api/auth/token/refresh/''"
  have u: "?R \<noteq> ''/api/auth/csrf/''" by simp

  obtain cfg1 c1 where i: "customer_request_interceptor srv cfg c = (cfg1, c1)"
    by (cases "customer_request_interceptor srv cfg c")
  from i customer_request_interceptor_keeps [of srv cfg c] cfg have u1: "url cfg1 \<noteq> ?R" by simp
  from i customer_request_interceptor_retry [of srv cfg c] False have r1: "\<not> retry cfg1" by simp
  from i customer_request_interceptor_count [OF u, of srv cfg c]
  have c1: "requests_to ?R (c_sent c1) = requests_to ?R (c_sent c)" by simp
  let ?c2 = "c1\<lparr> c_sent := c_sent c1 @ [cfg1] \<rparr>"
  have c2: "requests_to ?R (c_sent ?c2) = requests_to ?R (c_sent c)"
    using c1 u1 by (simp add: requests_to_def)
  show ?thesis
  proof (cases "settle_reply (srv (c_sent c1) cfg1)")
    case (Inr b)
    with i c2 False show ?thesis by (subst customer_api.simps) simp
  next
    case (Inl err)
    consider (csrf) "status_of err = Some 403"
      | (refresh) "status_of err \<noteq> Some 403" "status_of err = Some 401"
          "truthy (getItem (c_storage ?c2) ''refresh_token'')"
      | (other) "status_of err \<noteq> Some 403"
          "\<not> (status_of err = Some 401 \<and> truthy (getItem (c_storage ?c2) ''refresh_token''))"
      by blast
    then show ?thesis
    proof cases
      case csrf
      obtain t c3 where e: "ensureCSRFToken srv ?c2 = (t, c3)" by (cases "ensureCSRFToken srv ?c2")
      with ensureCSRFToken_count [OF u, of srv ?c2] c2
      have c3: "requests_to ?R (c_sent c3) = requests_to ?R (c_sent c)" by simp
      let ?cfg = "cfg1\<lparr> retry := True, x_csrftoken := t \<rparr>"
      have "requests_to ?R (c_sent (snd (customer_api srv ?cfg c3))) = requests_to ?R (c_sent c3)"
        by (rule customer_retried_other) (use u u1 in simp_all)
      with c3 i Inl csrf r1 e False show ?thesis
        by (subst customer_api.simps) (simp add: Let_def)
    next
      case refresh
      let ?rq = "refresh_request (js_string (getItem (c_storage ?c2) ''refresh_token''))
                   \<lparr> url := ''/api/auth/token/refresh/'' \<rparr>"
      obtain r c3 where b: "bare srv ?rq ?c2 = (r, c3)" by (cases "bare srv ?rq ?c2")
      then have c3: "requests_to ?R (c_sent c3) = Suc (requests_to ?R (c_sent c))"
        using c2 by (auto simp: bare_def requests_to_def)
      show ?thesis
      proof (cases r)
        case (Inl e)
        with b c3 i \<open>settle_reply (srv (c_sent c1) cfg1) = Inl err\<close> refresh r1 False show ?thesis
          by (subst customer_api.simps) (simp add: Let_def customer_sign_out_def)
      next
        case (Inr bd)
        let ?cfg = "cfg1\<lparr> retry := True, authorization := Some (''Bearer '' @ js_string (b_access bd)) \<rparr>"
        let ?c4 = "c3\<lparr> c_storage := setItem (c_storage c3) ''access_token'' (js_string (b_access bd)) \<rparr>"
        have "requests_to ?R (c_sent (snd (customer_api srv ?cfg ?c4))) = requests_to ?R (c_sent ?c4)"
          by (rule customer_retried_other) (use u u1 in simp_all)
        with b c3 i \<open>settle_reply (srv (c_sent c1) cfg1) = Inl err\<close> refresh r1 False Inr show ?thesis
          by (subst customer_api.simps) (simp add: Let_def)
      qed
    next
      case other
      with i Inl c2 r1 False show ?thesis
        by (subst customer_api.simps) (auto simp: Let_def)
    qed
  qed
qed

text \<open>The answers on which the handler of the customer client starts a recovery.\<close>

lemma bare_tally:
  assumes only: "\<And>q r. P q r \<Longrightarrow> url q = u" and "url cfg \<noteq> u"
  shows "tally P srv (c_sent (snd (bare srv cfg c))) = tally P srv (c_sent c)"
proof -
  from assms have "\<not> P cfg (srv (c_sent c) cfg)" by blast
  then show ?thesis by (simp add: bare_def tally_snoc)
qed

lemma ensureCSRFToken_tally:
  assumes only: "\<And>q r. P q r \<Longrightarrow> url q = u" and u: "u \<noteq> ''/api/auth/csrf/''"
  shows "tally P srv (c_sent (snd (ensureCSRFToken srv c))) = tally P srv (c_sent c)"
proof (cases "cookie_token c \<noteq> []")
  case True
  then show ?thesis by (simp add: ensureCSRFToken_def)
next
  case False
  have k: "url customer_csrf_request \<noteq> u"
    using u by (simp add: customer_csrf_request_def plain_request_def)
  obtain r c1 where b: "bare srv customer_csrf_request c = (r, c1)"
    by (cases "bare srv customer_csrf_request c")
  with bare_tally [where P = P and u = u and srv = srv and c = c, OF only k]
  have "tally P srv (c_sent c1) = tally P srv (c_sent c)" by simp
  with b False show ?thesis by (cases r) (simp_all add: ensureCSRFToken_def)
qed

lemma customer_request_interceptor_tally:
  assumes only: "\<And>q r. P q r \<Longrightarrow> url q = u" and u: "u \<noteq> ''/api/auth/csrf/''"
  shows "tally P srv (c_sent (snd (customer_request_interceptor srv cfg c))) = tally P srv (c_sent c)"
proof (cases "ensureCSRFToken srv c")
  case (Pair t c')
  with ensureCSRFToken_tally [where P = P and u = u and srv = srv and c = c, OF only u]
  have "tally P srv (c_sent c') = tally P srv (c_sent c)"
    by simp
  with Pair show ?thesis by (simp add: customer_request_interceptor_def Let_def)
qed

lemma customer_retried_tally:
  assumes only: "\<And>q r. P q r \<Longrightarrow> url q = u \<and> \<not> retry q" and u: "u \<noteq> ''/api/auth/csrf/''"
    and r: "retry cfg"
  shows "tally P srv (c_sent (snd (customer_api srv cfg c))) = tally P srv (c_sent c)"
proof -
  obtain cfg1 c1 where i: "customer_request_interceptor srv cfg c = (cfg1, c1)"
    by (cases "customer_request_interceptor srv cfg c")
  from i r customer_request_interceptor_retry [of srv cfg c] have r1: "retry cfg1" by simp
  with only have np: "\<not> P cfg1 (srv (c_sent c1) cfg1)" by blast
  have o: "\<And>q r. P q r \<Longrightarrow> url q = u" using only by blast
  from i customer_request_interceptor_tally [where P = P and u = u and srv = srv and cfg = cfg and c = c, OF o u]
  have c1: "tally P srv (c_sent c1) = tally P srv (c_sent c)" by simp
  from customer_api_retried [OF r i] np c1 show ?thesis
    by (simp add: tally_snoc split: sum.splits)
qed

lemma customer_api_recoveries:
  assumes u: "url cfg \<noteq> ''/api/auth/csrf/''" "url cfg \<noteq> ''/api/auth/token/refresh/''"
  shows "customer_recoveries srv (url cfg) (c_sent (snd (customer_api srv cfg c)))
           \<le> customer_recoveries srv (url cfg) (c_sent c) + (if retry cfg then 0 else 1)"
proof -
  let ?P = "\<lambda>q r. url q = url cfg \<and> (reply_status r = Some 403 \<or> reply_status r = Some 401)
                   \<and> \<not> retry q"
  have only: "\<And>q r. ?P q r \<Longrightarrow> url q = url cfg \<and> \<not> retry q" by blast
  have o: "\<And>q r. ?P q r \<Longrightarrow> url q = url cfg" by blast
  have rt: "tally ?P srv (c_sent (snd (customer_api srv q k))) = tally ?P srv (c_sent k)"
    if "retry q" for q k
    by (rule customer_retried_tally [where P = ?P and u = "url cfg"]) (use u that in simp_all)
  have ti: "tally ?P srv (c_sent (snd (customer_request_interceptor srv q k))) = tally ?P srv (c_sent k)"
    for q k
    by (rule customer_request_interceptor_tally [where u = "url cfg"]) (use u in simp_all)
  have te: "tally ?P srv (c_sent (snd (ensureCSRFToken srv k))) = tally ?P srv (c_sent k)" for k
    by (rule ensureCSRFToken_tally [where u = "url cfg"]) (use u in simp_all)
  have tb: "tally ?P srv (c_sent (snd (bare srv q k))) = tally ?P srv (c_sent k)"
    if "url q \<noteq> url cfg" for q k
    by (rule bare_tally [where u = "url cfg"]) (use that in simp_all)
  have "tally ?P srv (c_sent (snd (customer_api srv cfg c)))
           \<le> tally ?P srv (c_sent c) + (if retry cfg then 0 else 1)"
  proof (cases "retry cfg")
    case True
    with rt [of cfg c] show ?thesis by simp
  next
    case False
    obtain cfg1 c1 where i: "customer_request_interceptor srv cfg c = (cfg1, c1)"
      by (cases "customer_request_interceptor srv cfg c")
    from i customer_request_interceptor_retry [of srv cfg c] False have r1: "\<not> retry cfg1" by simp
    from i ti [of cfg c]
    have c1: "tally ?P srv (c_sent c1) = tally ?P srv (c_sent c)" by simp
    let ?c2 = "c1\<lparr> c_sent := c_sent c1 @ [cfg1] \<rparr>"
    have c2: "tally ?P srv (c_sent ?c2) \<le> tally ?P srv (c_sent c) + 1"
      using c1 by (simp add: tally_snoc)
    show ?thesis
    proof (cases "settle_reply (srv (c_sent c1) cfg1)")
      case (Inr b)
      with i c2 False show ?thesis by (subst customer_api.simps) simp
    next
      case (Inl err)
      consider (csrf) "status_of err = Some 403"
        | (refresh) "status_of err \<noteq> Some 403" "status_of err = Some 401"
            "truthy (getItem (c_storage ?c2) ''refresh_token'')"
        | (other) "status_of err \<noteq> Some 403"
            "\<not> (status_of err = Some 401 \<and> truthy (getItem (c_storage ?c2) ''refresh_token''))"
        by blast
      then show ?thesis
      proof cases
        case csrf
        obtain t c3 where e: "ensureCSRFToken srv ?c2 = (t, c3)" by (cases "ensureCSRFToken srv ?c2")
        with te [of ?c2] c2
        have c3: "tally ?P srv (c_sent c3) \<le> tally ?P srv (c_sent c) + 1" by simp
        let ?cfg = "cfg1\<lparr> retry := True, x_csrftoken := t \<rparr>"
        have "tally ?P srv (c_sent (snd (customer_api srv ?cfg c3))) = tally ?P srv (c_sent c3)"
          by (rule rt) simp
        with c3 i Inl csrf r1 e False show ?thesis
          by (subst customer_api.simps) (simp add: Let_def)
      next
        case refresh
        let ?rq = "refresh_request (js_string (getItem (c_storage ?c2) ''refresh_token''))
                     \<lparr> url := ''/api/auth/token/refresh/'' \<rparr>"
        obtain r c3 where b: "bare srv ?rq ?c2 = (r, c3)" by (cases "bare srv ?rq ?c2")
        have "url ?rq \<noteq> url cfg" using u(2) by simp
        from tb [OF this, of ?c2] b c2
        have c3: "tally ?P srv (c_sent c3) \<le> tally ?P srv (c_sent c) + 1" by simp
        show ?thesis
        proof (cases r)
          case (Inl e)
          with b c3 i \<open>settle_reply (srv (c_sent c1) cfg1) = Inl err\<close> refresh r1 False show ?thesis
            by (subst customer_api.simps) (simp add: Let_def customer_sign_out_def)
        next
          case (Inr bd)
          let ?cfg = "cfg1\<lparr> retry := True, authorization := Some (''Bearer '' @ js_string (b_access bd)) \<rparr>"
          let ?c4 = "c3\<lparr> c_storage := setItem (c_storage c3) ''access_token'' (js_string (b_access bd)) \<rparr>"
          have "tally ?P srv (c_sent (snd (customer_api srv ?cfg ?c4))) = tally ?P srv (c_sent ?c4)"
            by (rule rt) simp
          with b c3 i \<open>settle_reply (srv (c_sent c1) cfg1) = Inl err\<close> refresh r1 False Inr show ?thesis
            by (subst customer_api.simps) (simp add: Let_def)
        qed
      next
        case other
        with i Inl c2 r1 False show ?thesis
          by (subst customer_api.simps) (auto simp: Let_def)
      qed
    qed
  qed
  then show ?thesis by (simp add: customer_recoveries_def)
qed

section \<open>Logout\<close>

lemma portal_dispatch_no_case:
  "portal_dispatch Logout_pending w = w" "portal_dispatch (Logout_fulfilled d) w = w"
  "portal_dispatch (Logout_rejected p) w = w"
  by (simp_all add: portal_dispatch_def)

lemma portal_clearAuth_auth:
  "p_auth (portal_dispatch ClearAuth w) =
     (p_auth w)\<lparr> user := None, owner := None, restaurants := [], staff := [],
               token := None, refreshToken := None, isAuthenticated := False,
               isOwner := False, requires2FA := False, tempLoginData := None,
               error := None, loginError := None, registerError := None,
               staffError := None, verificationError := None, successMessage := None \<rparr>"
  by (simp add: portal_dispatch_def clearAuth_def)

lemma portal_clearAuth_storage:
  "localStorage (p_client (portal_dispatch ClearAuth w)) k =
     (if k = ''token'' \<or> k = ''refreshToken'' \<or> k = ''csrfToken''
         \<or> k = ''pendingVerificationEmail'' \<or> k = ''pendingUserType'' then None
      else localStorage (p_client w) k)"
  by (simp add: portal_dispatch_def clearAuth_def storage_defs)

lemma svc_logout_fst:
  "fst (svc_logout n srv w) = fst (api n srv logout_request (p_client w))"
  by (simp add: svc_logout_def split: prod.splits option.splits sum.splits)

lemma svc_logout_auth: "p_auth (snd (svc_logout n srv w)) = p_auth w"
  by (simp add: svc_logout_def split: prod.splits option.splits sum.splits)

lemma svc_logout_storage:
  assumes "k \<noteq> ''token''" "k \<noteq> ''csrfToken''" "k \<noteq> ''refreshToken''"
  shows "localStorage (p_client (snd (svc_logout n srv w))) k = localStorage (p_client w) k"
proof -
  obtain r c1 where a: "api n srv logout_request (p_client w) = (r, c1)"
    by (cases "api n srv logout_request (p_client w)")
  with api_storage [OF assms(1,2), of n srv logout_request "p_client w"]
  have "localStorage c1 k = localStorage (p_client w) k" by simp
  with a assms show ?thesis
    by (simp add: svc_logout_def storage_defs split: option.splits sum.splits)
qed

lemma svc_logout_unsettled:
  assumes "fst (api n srv logout_request (p_client w)) = None"
  shows "localStorage (p_client (snd (svc_logout n srv w)))
           = localStorage (snd (api n srv logout_request (p_client w)))"
proof -
  obtain r c1 where a: "api n srv logout_request (p_client w) = (r, c1)"
    by (cases "api n srv logout_request (p_client w)")
  with assms have "r = None" by simp
  with a show ?thesis by (simp add: svc_logout_def)
qed

lemma logout_unsettled:
  assumes "fst (api n srv logout_request (p_client w)) = None"
  shows "fst (logout n srv w) = None" and "p_auth (snd (logout n srv w)) = p_auth w"
    and "localStorage (p_client (snd (logout n srv w)))
           = localStorage (snd (api n srv logout_request (p_client w)))"
proof -
  obtain r w1 where s: "svc_logout n srv w = (r, w1)" by (cases "svc_logout n srv w")
  with svc_logout_fst [of n srv w] assms have r: "r = None" by simp
  from s svc_logout_auth [of n srv w] have a: "p_auth w1 = p_auth w" by simp
  from s svc_logout_unsettled [OF assms]
  have l: "localStorage (p_client w1) = localStorage (snd (api n srv logout_request (p_client w)))"
    by simp
  from s r show "fst (logout n srv w) = None" by (simp add: logout_def portal_dispatch_no_case)
  from s r a show "p_auth (snd (logout n srv w)) = p_auth w"
    by (simp add: logout_def portal_dispatch_no_case)
  from s r l show "localStorage (p_client (snd (logout n srv w)))
           = localStorage (snd (api n srv logout_request (p_client w)))"
    by (simp add: logout_def portal_dispatch_no_case)
qed

lemma logout_settled:
  assumes "fst (api n srv logout_request (p_client w)) \<noteq> None"
  shows "(\<exists>d. fst (logout n srv w) = Some (Logout_fulfilled d))
           \<or> (\<exists>p. fst (logout n srv w) = Some (Logout_rejected p))"
    and "snd (logout n srv w) = portal_dispatch ClearAuth (snd (svc_logout n srv w))"
proof -
  obtain r w1 where s: "svc_logout n srv w = (r, w1)" by (cases "svc_logout n srv w")
  with svc_logout_fst [of n srv w] assms obtain v where r: "r = Some v" by auto
  from s r show "(\<exists>d. fst (logout n srv w) = Some (Logout_fulfilled d))
           \<or> (\<exists>p. fst (logout n srv w) = Some (Logout_rejected p))"
    by (cases v) (simp_all add: logout_def portal_dispatch_no_case)
  from s r show "snd (logout n srv w) = portal_dispatch ClearAuth (snd (svc_logout n srv w))"
    by (cases v) (simp_all add: logout_def portal_dispatch_no_case)
qed

lemma logout_deeper:
  assumes "fst (api n srv logout_request (p_client w)) \<noteq> None"
  shows "logout (n + k) srv w = logout n srv w"
proof -
  from api_settled_deeper [OF assms, of k]
  have "svc_logout (n + k) srv w = svc_logout n srv w" by (simp add: svc_logout_def)
  then show ?thesis by (simp add: logout_def portal_dispatch_no_case)
qed

lemma logout_auth:
  assumes "fst (api n srv logout_request (p_client w)) \<noteq> None"
  shows "p_auth (snd (logout n srv w)) =
     (p_auth w)\<lparr> user := None, owner := None, restaurants := [], staff := [],
               token := None, refreshToken := None, isAuthenticated := False,
               isOwner := False, requires2FA := False, tempLoginData := None,
               error := None, loginError := None, registerError := None,
               staffError := None, verificationError := None, successMessage := None \<rparr>"
  by (simp only: logout_settled(2) [OF assms] portal_clearAuth_auth svc_logout_auth)

lemma logout_storage:
  assumes "fst (api n srv logout_request (p_client w)) \<noteq> None"
  shows "localStorage (p_client (snd (logout n srv w))) k =
     (if k = ''token'' \<or> k = ''refreshToken'' \<or> k = ''csrfToken''
         \<or> k = ''pendingVerificationEmail'' \<or> k = ''pendingUserType'' then None
      else localStorage (p_client w) k)"
  using svc_logout_storage [of k n srv w]
  by (simp add: logout_settled(2) [OF assms] portal_clearAuth_storage)

lemma logout_twice:
  assumes a: "fst (api n srv logout_request (p_client w)) \<noteq> None"
    and b: "fst (api m srvb logout_request (p_client (snd (logout n srv w)))) \<noteq> None"
  shows "p_auth (snd (logout m srvb (snd (logout n srv w)))) = p_auth (snd (logout n srv w))"
    and "localStorage (p_client (snd (logout m srvb (snd (logout n srv w)))))
           = localStorage (p_client (snd (logout n srv w)))"
proof -
  show "p_auth (snd (logout m srvb (snd (logout n srv w)))) = p_auth (snd (logout n srv w))"
    by (simp add: logout_auth [OF b] logout_auth [OF a])
  show "localStorage (p_client (snd (logout m srvb (snd (logout n srv w)))))
           = localStorage (p_client (snd (logout n srv w)))"
    by (rule ext) (simp add: logout_storage [OF b] logout_storage [OF a])
qed

lemma cleared_is_initial_but_status:
  "s\<lparr> user := None, owner := None, restaurants := [], staff := [],
      token := None, refreshToken := None, isAuthenticated := False,
      isOwner := False, requires2FA := False, tempLoginData := None,
      error := None, loginError := None, registerError := None,
      staffError := None, verificationError := None, successMessage := None \<rparr>
   = (initialState Map.empty)
       \<lparr> loading := loading s, loginLoading := loginLoading s,
         registerLoading := registerLoading s, staffLoading := staffLoading s,
         verificationLoading := verificationLoading s,
         csrfInitialized := csrfInitialized s, csrfLoading := csrfLoading s,
         csrfError := csrfError s \<rparr>"
  by (cases s) (simp add: initialState_def storage_defs truthy_def)

text \<open>
  C4, as the code has it.  The logout request settles, and the dispatched logout with
  it, whenever the server answers no refresh request with 401 or 403 and no CSRF
  acquisition hangs.  Whenever the logout request has settled, with an answer or
  with a failure, the dispatched logout settles with its fulfilled or its rejected
  action, never with an exception, and in the same way at every greater depth.  It
  leaves the session equal to the initial state of an empty storage in every field
  except the five loading flags and the three CSRF status fields, which keep their
  values; \<open>isAuthenticated\<close> is false and the five persisted keys are gone.  A second
  logout whose request has settled changes neither the session nor the storage.
\<close>

theorem logout_resets_authentication:
  "(plain_refresh srvs \<and> no_hanging_promise (p_client ws) \<longrightarrow>
      fst (api (4 + j) srvs logout_request (p_client ws)) \<noteq> None
      \<and> ((\<exists>d. fst (logout (4 + j) srvs ws) = Some (Logout_fulfilled d))
           \<or> (\<exists>p. fst (logout (4 + j) srvs ws) = Some (Logout_rejected p))))
   \<and> (fst (api n srv logout_request (p_client w)) \<noteq> None \<longrightarrow>
     ((\<exists>d. fst (logout n srv w) = Some (Logout_fulfilled d))
        \<or> (\<exists>p. fst (logout n srv w) = Some (Logout_rejected p)))
   \<and> logout (n + k) srv w = logout n srv w
   \<and> p_auth (snd (logout n srv w)) = (initialState Map.empty)
          \<lparr> loading := loading (p_auth w), loginLoading := loginLoading (p_auth w),
            registerLoading := registerLoading (p_auth w), staffLoading := staffLoading (p_auth w),
            verificationLoading := verificationLoading (p_auth w),
            csrfInitialized := csrfInitialized (p_auth w), csrfLoading := csrfLoading (p_auth w),
            csrfError := csrfError (p_auth w) \<rparr>
   \<and> isAuthenticated (p_auth (snd (logout n srv w))) = False
   \<and> getItem (localStorage (p_client (snd (logout n srv w)))) ''token'' = None
   \<and> getItem (localStorage (p_client (snd (logout n srv w)))) ''refreshToken'' = None
   \<and> getItem (localStorage (p_client (snd (logout n srv w)))) ''csrfToken'' = None
   \<and> getItem (localStorage (p_client (snd (logout n srv w)))) ''pendingVerificationEmail'' = None
   \<and> getItem (localStorage (p_client (snd (logout n srv w)))) ''pendingUserType'' = None
   \<and> (fst (api m srvb logout_request (p_client (snd (logout n srv w)))) \<noteq> None \<longrightarrow>
        p_auth (snd (logout m srvb (snd (logout n srv w)))) = p_auth (snd (logout n srv w))
        \<and> localStorage (p_client (snd (logout m srvb (snd (logout n srv w)))))
            = localStorage (p_client (snd (logout n srv w)))))"
  (is "?settles \<and> ?resets")
proof (rule conjI)
  show ?settles
  proof (intro impI, elim conjE)
    assume p: "plain_refresh srvs" and h: "no_hanging_promise (p_client ws)"
    have s: "fst (api (4 + j) srvs logout_request (p_client ws)) \<noteq> None"
      by (rule api_settles [OF p h])
    from s logout_settled(1) [OF s]
    show "fst (api (4 + j) srvs logout_request (p_client ws)) \<noteq> None
      \<and> ((\<exists>d. fst (logout (4 + j) srvs ws) = Some (Logout_fulfilled d))
           \<or> (\<exists>p. fst (logout (4 + j) srvs ws) = Some (Logout_rejected p)))"
      by blast
  qed
next
  show ?resets
  proof (intro impI)
  assume s: "fst (api n srv logout_request (p_client w)) \<noteq> None"
  have a: "p_auth (snd (logout n srv w)) = (initialState Map.empty)
          \<lparr> loading := loading (p_auth w), loginLoading := loginLoading (p_auth w),
            registerLoading := registerLoading (p_auth w), staffLoading := staffLoading (p_auth w),
            verificationLoading := verificationLoading (p_auth w),
            csrfInitialized := csrfInitialized (p_auth w), csrfLoading := csrfLoading (p_auth w),
            csrfError := csrfError (p_auth w) \<rparr>"
    by (simp only: logout_auth [OF s] cleared_is_initial_but_status)
  have b: "isAuthenticated (p_auth (snd (logout n srv w))) = False"
    by (simp add: logout_auth [OF s])
  have c: "getItem (localStorage (p_client (snd (logout n srv w)))) ''token'' = None"
     "getItem (localStorage (p_client (snd (logout n srv w)))) ''refreshToken'' = None"
     "getItem (localStorage (p_client (snd (logout n srv w)))) ''csrfToken'' = None"
     "getItem (localStorage (p_client (snd (logout n srv w)))) ''pendingVerificationEmail'' = None"
     "getItem (localStorage (p_client (snd (logout n srv w)))) ''pendingUserType'' = None"
    by (simp_all add: getItem_def logout_storage [OF s])
  from logout_settled(1) [OF s] logout_deeper [OF s, of k] a b c
    logout_twice [OF s, of m srvb]
  show "((\<exists>d. fst (logout n srv w) = Some (Logout_fulfilled d))
        \<or> (\<exists>p. fst (logout n srv w) = Some (Logout_rejected p)))
   \<and> logout (n + k) srv w = logout n srv w
   \<and> p_auth (snd (logout n srv w)) = (initialState Map.empty)
          \<lparr> loading := loading (p_auth w), loginLoading := loginLoading (p_auth w),
            registerLoading := registerLoading (p_auth w), staffLoading := staffLoading (p_auth w),
            verificationLoading := verificationLoading (p_auth w),
            csrfInitialized := csrfInitialized (p_auth w), csrfLoading := csrfLoading (p_auth w),
            csrfError := csrfError (p_auth w) \<rparr>
   \<and> isAuthenticated (p_auth (snd (logout n srv w))) = False
   \<and> getItem (localStorage (p_client (snd (logout n srv w)))) ''token'' = None
   \<and> getItem (localStorage (p_client (snd (logout n srv w)))) ''refreshToken'' = None
   \<and> getItem (localStorage (p_client (snd (logout n srv w)))) ''csrfToken'' = None
   \<and> getItem (localStorage (p_client (snd (logout n srv w)))) ''pendingVerificationEmail'' = None
   \<and> getItem (localStorage (p_client (snd (logout n srv w)))) ''pendingUserType'' = None
   \<and> (fst (api m srvb logout_request (p_client (snd (logout n srv w)))) \<noteq> None \<longrightarrow>
        p_auth (snd (logout m srvb (snd (logout n srv w)))) = p_auth (snd (logout n srv w))
        \<and> localStorage (p_client (snd (logout m srvb (snd (logout n srv w)))))
            = localStorage (p_client (snd (logout n srv w))))"
    by blast
  qed
qed

lemma stale_portal_client: "p_client stale_portal = load_client stale_storage"
  by (simp add: stale_portal_def portal_dispatch_def new_portal_def load_client_def)

lemma stale_portal_auth:
  "isAuthenticated (p_auth stale_portal)" "csrfInitialized (p_auth stale_portal)"
  by (simp_all add: stale_portal_def portal_dispatch_def new_portal_def initialState_def
        stale_storage_def storage_defs truthy_def)

lemma logout_strict_run:
  "fst (api 3 server_strict logout_request (load_client stale_storage)) = Some (Inr no_body)"
  by (simp add: numeral_3_eq_3 http_defs storage_defs server_strict_def load_client_def
        stale_storage_def no_body_def logout_request_def)

text \<open>
  The theorem at a logout that the server refuses first for its CSRF token and then
  for its access token and accepts at last, followed by a second logout while the
  server cannot be reached.  That server answers the refresh request with new tokens,
  so the logout request settles.
\<close>

theorem logout_resets_authentication_witness:
  "plain_refresh server_strict \<and> no_hanging_promise (p_client stale_portal)
   \<and> fst (api 4 server_strict logout_request (p_client stale_portal)) \<noteq> None
   \<and> ((\<exists>d. fst (logout 4 server_strict stale_portal) = Some (Logout_fulfilled d))
        \<or> (\<exists>p. fst (logout 4 server_strict stale_portal) = Some (Logout_rejected p)))
   \<and> fst (api 3 server_strict logout_request (p_client stale_portal)) \<noteq> None
   \<and> isAuthenticated (p_auth stale_portal)
   \<and> ((\<exists>d. fst (logout 3 server_strict stale_portal) = Some (Logout_fulfilled d))
        \<or> (\<exists>p. fst (logout 3 server_strict stale_portal) = Some (Logout_rejected p)))
   \<and> isAuthenticated (p_auth (snd (logout 3 server_strict stale_portal))) = False
   \<and> getItem (localStorage (p_client (snd (logout 3 server_strict stale_portal)))) ''token'' = None
   \<and> getItem (localStorage (p_client (snd (logout 3 server_strict stale_portal)))) ''refreshToken'' = None
   \<and> getItem (localStorage (p_client (snd (logout 3 server_strict stale_portal)))) ''csrfToken'' = None
   \<and> fst (api 1 server_down logout_request (p_client (snd (logout 3 server_strict stale_portal)))) \<noteq> None
   \<and> p_auth (snd (logout 1 server_down (snd (logout 3 server_strict stale_portal))))
        = p_auth (snd (logout 3 server_strict stale_portal))
   \<and> localStorage (p_client (snd (logout 1 server_down (snd (logout 3 server_strict stale_portal)))))
        = localStorage (p_client (snd (logout 3 server_strict stale_portal)))"
proof -
  have h1: "fst (api 3 server_strict logout_request (p_client stale_portal)) \<noteq> None"
    by (simp add: stale_portal_client logout_strict_run)
  have h2: "fst (api 1 server_down logout_request c) \<noteq> None" for c
    by (simp add: http_defs server_down_def logout_request_def)
  have h3: "plain_refresh server_strict"
    by (simp add: plain_refresh_def server_strict_def reply_status_def)
  have h4: "no_hanging_promise (p_client stale_portal)"
    by (simp add: stale_portal_client no_hanging_promise_def load_client_def)
  note t = logout_resets_authentication
             [of server_strict stale_portal 0 3 server_strict stale_portal 0 1 server_down]
  from h3 h4 t have b: "fst (api 4 server_strict logout_request (p_client stale_portal)) \<noteq> None
   \<and> ((\<exists>d. fst (logout 4 server_strict stale_portal) = Some (Logout_fulfilled d))
        \<or> (\<exists>p. fst (logout 4 server_strict stale_portal) = Some (Logout_rejected p)))"
    by simp
  from h1 t have a: "((\<exists>d. fst (logout 3 server_strict stale_portal) = Some (Logout_fulfilled d))
        \<or> (\<exists>p. fst (logout 3 server_strict stale_portal) = Some (Logout_rejected p)))
   \<and> isAuthenticated (p_auth (snd (logout 3 server_strict stale_portal))) = False
   \<and> getItem (localStorage (p_client (snd (logout 3 server_strict stale_portal)))) ''token'' = None
   \<and> getItem (localStorage (p_client (snd (logout 3 server_strict stale_portal)))) ''refreshToken'' = None
   \<and> getItem (localStorage (p_client (snd (logout 3 server_strict stale_portal)))) ''csrfToken'' = None
   \<and> (fst (api 1 server_down logout_request (p_client (snd (logout 3 server_strict stale_portal)))) \<noteq> None \<longrightarrow>
        p_auth (snd (logout 1 server_down (snd (logout 3 server_strict stale_portal))))
        = p_auth (snd (logout 3 server_strict stale_portal))
   \<and> localStorage (p_client (snd (logout 1 server_down (snd (logout 3 server_strict stale_portal)))))
        = localStorage (p_client (snd (logout 3 server_strict stale_portal))))"
    by blast
  from a b h1 h2 [of "p_client (snd (logout 3 server_strict stale_portal))"] h3 h4
    stale_portal_auth(1)
  show ?thesis by blast
qed

text \<open>
  The session after a logout is not the initial state: once the CSRF initialisation of
  the application start has completed, \<open>csrfInitialized\<close> is true and a logout leaves
  it so.
\<close>

theorem logout_keeps_csrf_status:
  "fst (logout 1 server_ok stale_portal) = Some (Logout_fulfilled (logout_answer no_body))
   \<and> csrfInitialized (p_auth (snd (logout 1 server_ok stale_portal)))
   \<and> p_auth (snd (logout 1 server_ok stale_portal))
        \<noteq> initialState (localStorage (p_client (snd (logout 1 server_ok stale_portal))))"
proof -
  have r: "api 1 server_ok logout_request (load_client stale_storage)
     = (Some (Inr no_body),
        (load_client stale_storage)
          \<lparr> sent := [request_interceptor (load_client stale_storage) logout_request] \<rparr>)"
    by (simp add: api_pass_def settle_reply_def server_ok_def load_client_def Let_def)
  then have s: "fst (api 1 server_ok logout_request (p_client stale_portal)) \<noteq> None"
    by (simp add: stale_portal_client)
  have a: "fst (logout 1 server_ok stale_portal) = Some (Logout_fulfilled (logout_answer no_body))"
    using r by (simp add: logout_def svc_logout_def portal_dispatch_no_case stale_portal_client)
  have b: "csrfInitialized (p_auth (snd (logout 1 server_ok stale_portal)))"
    using logout_auth [OF s] stale_portal_auth by simp
  have c: "\<not> csrfInitialized (initialState st)" for st by (simp add: initialState_def)
  from a b c show ?thesis by metis
qed

text \<open>
  While the logout request has not settled, \<open>clearAuth\<close> has not been dispatched.
  When the server answers the logout request and the refresh request with 401, the
  request never settles: at every depth the thunk has not settled, the session is
  still authenticated and both tokens are still stored.
\<close>

lemma logout_never_settles_on_401:
  "fst (logout n server_401 stale_portal) = None
   \<and> isAuthenticated (p_auth (snd (logout n server_401 stale_portal)))
   \<and> getItem (localStorage (p_client (snd (logout n server_401 stale_portal)))) ''token'' = Some ''a1''
   \<and> getItem (localStorage (p_client (snd (logout n server_401 stale_portal)))) ''refreshToken''
        = Some ''r1''
   \<and> requests_to ''/auth/token/refresh/''
        (sent (snd (api n server_401 logout_request (p_client stale_portal)))) = n - 1"
proof -
  have u: "fst (api n server_401 logout_request (load_client stale_storage)) = None
     \<and> localStorage (snd (api n server_401 logout_request (load_client stale_storage))) = stale_storage
     \<and> requests_to ''/auth/token/refresh/''
        (sent (snd (api n server_401 logout_request (load_client stale_storage)))) = n - 1"
  proof (cases n)
    case 0
    then show ?thesis by (simp add: requests_to_def load_client_def)
  next
    case (Suc k)
    have a: "\<not> retry logout_request" by (simp add: logout_request_def plain_request_def)
    have b: "truthy (getItem (localStorage (load_client stale_storage)) ''refreshToken'')"
      by (simp add: load_client_def stale_storage_def getItem_def truthy_def)
    have c: "requests_to u xs = length (filter (\<lambda>v. v = u) (map url xs))" for u xs
      by (simp add: requests_to_def filter_map comp_def)
    from refresh_loop [OF a b, of k] Suc show ?thesis
      by (simp add: c load_client_def logout_request_def plain_request_def)
  qed
  then have s: "fst (api n server_401 logout_request (p_client stale_portal)) = None"
    by (simp add: stale_portal_client)
  have t: "getItem stale_storage ''token'' = Some ''a1''"
          "getItem stale_storage ''refreshToken'' = Some ''r1''"
    by (simp_all add: stale_storage_def storage_defs)
  from logout_unsettled [OF s] u stale_portal_auth(1) t show ?thesis
    by (simp add: stale_portal_client)
qed

section \<open>Acquiring the CSRF token from several callers\<close>

text \<open>
  The owner client.  Callers that ask for a new token (or find none cached) while no
  request is pending: the first starts the request, every later one joins its promise,
  the attempt counter grows by one, and all receive what the one request settles with.
\<close>

lemma getCSRFToken_call_joined:
  "initializationPromise c = Some q \<Longrightarrow> f \<or> \<not> truthy (csrfToken c) \<Longrightarrow>
   getCSRFToken_call f c = (Joined (promise_id q), c)"
  by (cases f) (simp_all add: getCSRFToken_call_def)

lemma getCSRFToken_calls_joined:
  "initializationPromise c = Some q \<Longrightarrow> (\<forall>f\<in>set fs. f) \<or> \<not> truthy (csrfToken c) \<Longrightarrow>
   getCSRFToken_calls fs c = (replicate (length fs) (Joined (promise_id q)), c)"
proof (induction fs)
  case Nil
  show ?case by simp
next
  case (Cons f fs)
  from Cons.prems have a: "getCSRFToken_call f c = (Joined (promise_id q), c)"
    by (intro getCSRFToken_call_joined) auto
  from Cons.prems have b: "getCSRFToken_calls fs c = (replicate (length fs) (Joined (promise_id q)), c)"
    by (intro Cons.IH) auto
  from a b show ?case by simp
qed

lemma getCSRFToken_single_flight:
  assumes "initializationPromise c = None"
    and "(\<forall>f\<in>set (f0 # fs). f) \<or> \<not> truthy (csrfToken c)"
  shows "getCSRFToken_calls (f0 # fs) c
     = (Started (Suc (initializationCount c))
          # replicate (length fs) (Joined (Suc (initializationCount c))),
        c\<lparr> initializationCount := Suc (initializationCount c),
           initializationPromise := Some (Mine (Suc (initializationCount c))) \<rparr>)"
proof -
  let ?c1 = "c\<lparr> initializationCount := Suc (initializationCount c),
           initializationPromise := Some (Mine (Suc (initializationCount c))) \<rparr>"
  have "f0 \<or> \<not> truthy (csrfToken c)" using assms(2) by auto
  then have a: "getCSRFToken_call f0 c = (Started (Suc (initializationCount c)), ?c1)"
    using assms(1) by (cases f0) (simp_all add: getCSRFToken_call_def)
  have b: "getCSRFToken_calls fs ?c1
             = (replicate (length fs) (Joined (promise_id (Mine (Suc (initializationCount c))))), ?c1)"
  proof (rule getCSRFToken_calls_joined)
    show "initializationPromise ?c1 = Some (Mine (Suc (initializationCount c)))" by simp
    from assms(2) show "(\<forall>f\<in>set fs. f) \<or> \<not> truthy (csrfToken ?c1)" by auto
  qed
  from a b show ?thesis by simp
qed

lemma getCSRFToken_one_request_for_all:
  assumes "initializationPromise c = None"
    and "(\<forall>f\<in>set (f0 # fs). f) \<or> \<not> truthy (csrfToken c)"
  shows "started (fst (getCSRFToken_calls (f0 # fs) c)) = 1"
    and "initializationCount (snd (getCSRFToken_calls (f0 # fs) c)) = Suc (initializationCount c)"
    and "map (received (Suc (initializationCount c)) t) (fst (getCSRFToken_calls (f0 # fs) c))
           = replicate (Suc (length fs)) (Some t)"
  by (simp_all only: getCSRFToken_single_flight [OF assms] fst_conv snd_conv)
     (simp_all add: started_def received_def)

text \<open>
  The customer client has no pending promise to join: without a cookie every caller
  starts a request of its own.
\<close>

lemma ensureCSRFToken_calls_no_cookie:
  "cookie_token c = [] \<Longrightarrow>
   ensureCSRFToken_calls n c
     = (replicate n Fetching, c\<lparr> c_sent := c_sent c @ replicate n customer_csrf_request \<rparr>)"
proof (induction n arbitrary: c)
  case 0
  then show ?case by simp
next
  case (Suc n)
  let ?c1 = "c\<lparr> c_sent := c_sent c @ [customer_csrf_request] \<rparr>"
  have "cookie_token ?c1 = []" using Suc.prems by (simp add: cookie_token_def)
  from Suc.IH [OF this] Suc.prems show ?case
    by (simp add: ensureCSRFToken_call_def replicate_app_Cons_same)
qed

text \<open>
  C1 in the customer client: two callers of \<open>ensureCSRFToken\<close> before either request
  has settled, with no \<open>csrftoken\<close> cookie.  Both start a request to the CSRF
  endpoint, so two requests are sent where C1 allows one.
\<close>

theorem ensureCSRFToken_concurrent_fetches:
  "fst (ensureCSRFToken_calls 2 (new_customer Map.empty)) = [Fetching, Fetching]
   \<and> requests_to ''/api/auth/csrf/''
        (c_sent (snd (ensureCSRFToken_calls 2 (new_customer Map.empty)))) = 2"
proof -
  have "cookie_token (new_customer Map.empty) = []"
    by (simp add: cookie_token_def new_customer_def)
  from ensureCSRFToken_calls_no_cookie [OF this, of "Suc (Suc 0)"] show ?thesis
    unfolding numeral_2_eq_2
    by (simp add: new_customer_def requests_to_def customer_csrf_request_def plain_request_def)
qed

section \<open>A request answered with 401\<close>

text \<open>
  C3 in the owner client, with an expired access token and a refresh token the server
  refuses with 400, at every depth from 2 on.  The refresh endpoint is called once,
  and after its failure the original error is rejected while both tokens are still in
  the storage.
\<close>

theorem owner_refresh_failure_keeps_tokens:
  "fst (api (2 + k) server_expired (plain_request ''/owner/restaurants/'' GET) (load_client stale_storage))
     = Some (Inl (HttpError 401 no_body))
   \<and> getItem (localStorage (snd (api (2 + k) server_expired
        (plain_request ''/owner/restaurants/'' GET) (load_client stale_storage)))) ''token'' = Some ''a1''
   \<and> getItem (localStorage (snd (api (2 + k) server_expired
        (plain_request ''/owner/restaurants/'' GET) (load_client stale_storage)))) ''refreshToken'' = Some ''r1''
   \<and> map url (sent (snd (api (2 + k) server_expired
        (plain_request ''/owner/restaurants/'' GET) (load_client stale_storage))))
       = [''/owner/restaurants/'', ''/auth/token/refresh/'']"
proof -
  let ?run = "api (Suc (Suc 0)) server_expired (plain_request ''/owner/restaurants/'' GET)
                (load_client stale_storage)"
  have a: "fst ?run = Some (Inl (HttpError 401 no_body))"
    by (simp add: http_defs storage_defs server_expired_def load_client_def stale_storage_def
          no_body_def)
  have b: "getItem (localStorage (snd ?run)) ''token'' = Some ''a1''"
          "getItem (localStorage (snd ?run)) ''refreshToken'' = Some ''r1''"
          "map url (sent (snd ?run)) = [''/owner/restaurants/'', ''/auth/token/refresh/'']"
    by (simp_all add: http_defs storage_defs server_expired_def load_client_def
          stale_storage_def no_body_def)
  from a have "fst (api 2 server_expired (plain_request ''/owner/restaurants/'' GET)
                (load_client stale_storage)) \<noteq> None" by (simp add: numeral_2_eq_2)
  from api_settled_deeper [OF this, of k]
  have "api (2 + k) server_expired (plain_request ''/owner/restaurants/'' GET) (load_client stale_storage)
          = ?run" by (simp add: numeral_2_eq_2)
  with a b show ?thesis by simp
qed

text \<open>
  When the refresh succeeds the owner client stores the new access token and sends the
  original request once more.
\<close>

lemma owner_refresh_success:
  "fst (api (Suc (Suc 0)) server_strict (plain_request ''/orders/'' POST)
          (load_client (stale_storage(''csrfToken'' \<mapsto> ''c2'')))) = Some (Inr no_body)
   \<and> getItem (localStorage (snd (api (Suc (Suc 0)) server_strict
          (plain_request ''/orders/'' POST)
          (load_client (stale_storage(''csrfToken'' \<mapsto> ''c2'')))))) ''token'' = Some ''a2''
   \<and> map url (sent (snd (api (Suc (Suc 0)) server_strict
          (plain_request ''/orders/'' POST)
          (load_client (stale_storage(''csrfToken'' \<mapsto> ''c2''))))))
       = [''/orders/'', ''/auth/token/refresh/'', ''/orders/'']"
  by (simp add: http_defs storage_defs server_strict_def load_client_def stale_storage_def
        no_body_def)

text \<open>
  With a refresh endpoint that answers 401 the same request never settles, and the
  number of refresh requests grows with the depth.
\<close>

lemma owner_refresh_401_never_settles:
  "fst (api n server_401 (plain_request ''/owner/restaurants/'' GET) (load_client stale_storage)) = None
   \<and> requests_to ''/auth/token/refresh/''
        (sent (snd (api n server_401 (plain_request ''/owner/restaurants/'' GET)
                      (load_client stale_storage))))
      = n - 1"
proof (cases n)
  case 0
  then show ?thesis by (simp add: requests_to_def load_client_def)
next
  case (Suc k)
  have a: "\<not> retry (plain_request ''/owner/restaurants/'' GET)" by (simp add: plain_request_def)
  have b: "truthy (getItem (localStorage (load_client stale_storage)) ''refreshToken'')"
    by (simp add: load_client_def stale_storage_def getItem_def truthy_def)
  have c: "requests_to u xs = length (filter (\<lambda>v. v = u) (map url xs))" for u xs
    by (simp add: requests_to_def filter_map comp_def)
  from refresh_loop [OF a b, of k] Suc show ?thesis
    by (simp add: c load_client_def plain_request_def)
qed

text \<open>
  The customer client does what C3 says: after the failed refresh the tokens
  are removed and the page is sent to \<open>/login\<close>.
\<close>

lemma customer_refresh_failure_signs_out:
  "fst (customer_api server_expired (plain_request ''/api/orders/'' GET)
          (new_customer [''access_token'' \<mapsto> ''a1'', ''refresh_token'' \<mapsto> ''r1'']))
     = Inl (HttpError 400 no_body)
   \<and> getItem (c_storage (snd (customer_api server_expired (plain_request ''/api/orders/'' GET)
          (new_customer [''access_token'' \<mapsto> ''a1'', ''refresh_token'' \<mapsto> ''r1'']))))
        ''access_token'' = None
   \<and> getItem (c_storage (snd (customer_api server_expired (plain_request ''/api/orders/'' GET)
          (new_customer [''access_token'' \<mapsto> ''a1'', ''refresh_token'' \<mapsto> ''r1'']))))
        ''refresh_token'' = None
   \<and> location_href (snd (customer_api server_expired (plain_request ''/api/orders/'' GET)
          (new_customer [''access_token'' \<mapsto> ''a1'', ''refresh_token'' \<mapsto> ''r1''])))
        = Some ''/login''
   \<and> \<not> customer_isAuthenticated (c_storage (snd (customer_api server_expired
          (plain_request ''/api/orders/'' GET)
          (new_customer [''access_token'' \<mapsto> ''a1'', ''refresh_token'' \<mapsto> ''r1'']))))
   \<and> map url (c_sent (snd (customer_api server_expired (plain_request ''/api/orders/'' GET)
          (new_customer [''access_token'' \<mapsto> ''a1'', ''refresh_token'' \<mapsto> ''r1'']))))
       = [''/api/orders/'', ''/api/auth/token/refresh/'']"
  by (subst customer_api.simps)
     (simp add: customer_request_interceptor_def ensureCSRFToken_def bare_def settle_reply_def
        status_of_def server_expired_def new_customer_def plain_request_def refresh_request_def
        customer_sign_out_def customer_isAuthenticated_def storage_defs truthy_def js_string_def
        no_body_def Let_def)

section \<open>Recovery at most once\<close>

lemma customer_second_failure:
  assumes "retry cfg"
    and "settle_reply (srv (c_sent (snd (customer_request_interceptor srv cfg c)))
                           (fst (customer_request_interceptor srv cfg c))) = Inl err"
  shows "customer_api srv cfg c
     = (Inl err, (snd (customer_request_interceptor srv cfg c))
                   \<lparr> c_sent := c_sent (snd (customer_request_interceptor srv cfg c))
                                @ [fst (customer_request_interceptor srv cfg c)] \<rparr>)"
proof -
  obtain cfg1 c1 where i: "customer_request_interceptor srv cfg c = (cfg1, c1)"
    by (cases "customer_request_interceptor srv cfg c")
  from customer_api_retried [OF assms(1) i] assms(2) i show ?thesis by simp
qed

text \<open>
  C5, as the code has it.  In the owner client, for a request to a URL other than the
  two recovery endpoints, at any depth, from any state of the client and whether or
  not the call settles: the handler starts the CSRF recovery on at most one answer to
  the request, and on none if the request carries \<open>_csrfRetried\<close>; it starts the
  token refresh on at most one answer to the request, and on none if the request
  carries \<open>_retry\<close>; and the request is sent once, and once more for each of the
  two marks it does not carry.  Both recoveries may be started for one request.  A 403
  on a request that carries \<open>_csrfRetried\<close>, and a 401 on a request that carries
  \<open>_retry\<close>, is the result of the call, with nothing sent after it.  In the
  customer client the one mark \<open>_retry\<close> guards both recoveries: the handler
  starts a recovery, of either class, on at most one answer to the request, at most
  one refresh request is made, the request is sent at most twice, and any failure of a
  request that carries the mark is the result of the call.  A call through the owner
  client settles whenever the server answers no refresh request with 401 or 403 and no
  CSRF acquisition hangs.
\<close>

theorem recovery_bounded_by_retry_marks:
  "(url cfg \<noteq> ''/auth/csrf/'' \<and> url cfg \<noteq> ''/auth/token/refresh/'' \<longrightarrow>
      csrf_recoveries srv (url cfg) (sent (snd (api n srv cfg c)))
        \<le> csrf_recoveries srv (url cfg) (sent c) + (if csrfRetried cfg then 0 else 1)
      \<and> token_recoveries srv (url cfg) (sent (snd (api n srv cfg c)))
        \<le> token_recoveries srv (url cfg) (sent c) + (if retry cfg then 0 else 1)
      \<and> requests_to (url cfg) (sent (snd (api n srv cfg c)))
        \<le> requests_to (url cfg) (sent c) + 1
            + (if csrfRetried cfg then 0 else 1) + (if retry cfg then 0 else 1))
   \<and> (csrfRetried cfgf \<and> srvf (sent cf) (request_interceptor cf cfgf) = Reply 403 bf \<longrightarrow>
        api (Suc nf) srvf cfgf cf
          = (Some (Inl (HttpError 403 bf)), cf\<lparr> sent := sent cf @ [request_interceptor cf cfgf] \<rparr>))
   \<and> (retry cfgr \<and> srvr (sent cr) (request_interceptor cr cfgr) = Reply 401 br \<longrightarrow>
        api (Suc nr) srvr cfgr cr
          = (Some (Inl (HttpError 401 br)), cr\<lparr> sent := sent cr @ [request_interceptor cr cfgr] \<rparr>))
   \<and> (url cfgk \<noteq> ''/api/auth/csrf/'' \<and> url cfgk \<noteq> ''/api/auth/token/refresh/'' \<longrightarrow>
        customer_recoveries srvk (url cfgk) (c_sent (snd (customer_api srvk cfgk ck)))
          \<le> customer_recoveries srvk (url cfgk) (c_sent ck) + (if retry cfgk then 0 else 1)
        \<and> requests_to ''/api/auth/token/refresh/'' (c_sent (snd (customer_api srvk cfgk ck)))
          \<le> requests_to ''/api/auth/token/refresh/'' (c_sent ck) + (if retry cfgk then 0 else 1)
        \<and> requests_to (url cfgk) (c_sent (snd (customer_api srvk cfgk ck)))
          \<le> requests_to (url cfgk) (c_sent ck) + (if retry cfgk then 1 else 2))
   \<and> (retry cfgm
        \<and> settle_reply (srvm (c_sent (snd (customer_request_interceptor srvm cfgm cm)))
                              (fst (customer_request_interceptor srvm cfgm cm))) = Inl errm \<longrightarrow>
        customer_api srvm cfgm cm
          = (Inl errm, (snd (customer_request_interceptor srvm cfgm cm))
                \<lparr> c_sent := c_sent (snd (customer_request_interceptor srvm cfgm cm))
                             @ [fst (customer_request_interceptor srvm cfgm cm)] \<rparr>))
   \<and> (plain_refresh srvp \<and> no_hanging_promise cp \<longrightarrow>
        fst (api (4 + np) srvp cfgp cp) \<noteq> None)"
proof -
  have a: "url cfg \<noteq> ''/auth/csrf/'' \<Longrightarrow> url cfg \<noteq> ''/auth/token/refresh/'' \<Longrightarrow>
      requests_to (url cfg) (sent (snd (api n srv cfg c)))
        \<le> requests_to (url cfg) (sent c) + 1
            + (if csrfRetried cfg then 0 else 1) + (if retry cfg then 0 else 1)"
    using api_bound [of "url cfg" cfg n srv c] by (simp add: recoveries_left_def)
  have a1: "url cfg \<noteq> ''/auth/csrf/'' \<Longrightarrow> url cfg \<noteq> ''/auth/token/refresh/'' \<Longrightarrow>
      csrf_recoveries srv (url cfg) (sent (snd (api n srv cfg c)))
        \<le> csrf_recoveries srv (url cfg) (sent c) + (if csrfRetried cfg then 0 else 1)"
    by (rule api_csrf_recoveries)
  have a2: "url cfg \<noteq> ''/auth/csrf/'' \<Longrightarrow> url cfg \<noteq> ''/auth/token/refresh/'' \<Longrightarrow>
      token_recoveries srv (url cfg) (sent (snd (api n srv cfg c)))
        \<le> token_recoveries srv (url cfg) (sent c) + (if retry cfg then 0 else 1)"
    by (rule api_token_recoveries)
  have b: "url cfgk \<noteq> ''/api/auth/csrf/'' \<Longrightarrow> url cfgk \<noteq> ''/api/auth/token/refresh/'' \<Longrightarrow>
        requests_to (url cfgk) (c_sent (snd (customer_api srvk cfgk ck)))
          \<le> requests_to (url cfgk) (c_sent ck) + (if retry cfgk then 1 else 2)"
    using customer_api_bound [of "url cfgk" cfgk srvk ck] by simp
  have b1: "url cfgk \<noteq> ''/api/auth/csrf/'' \<Longrightarrow> url cfgk \<noteq> ''/api/auth/token/refresh/'' \<Longrightarrow>
        customer_recoveries srvk (url cfgk) (c_sent (snd (customer_api srvk cfgk ck)))
          \<le> customer_recoveries srvk (url cfgk) (c_sent ck) + (if retry cfgk then 0 else 1)"
    by (rule customer_api_recoveries)
  have b2: "url cfgk \<noteq> ''/api/auth/token/refresh/'' \<Longrightarrow>
        requests_to ''/api/auth/token/refresh/'' (c_sent (snd (customer_api srvk cfgk ck)))
          \<le> requests_to ''/api/auth/token/refresh/'' (c_sent ck) + (if retry cfgk then 0 else 1)"
    by (rule customer_api_refreshes)
  from a a1 a2 b b1 b2 api_csrf_second_failure [of cfgf srvf cf bf nf]
    api_refresh_second_failure [of cfgr srvr cr br nr]
    customer_second_failure [of cfgm srvm cm errm]
    api_settles [of srvp cp np cfgp]
  show ?thesis by blast
qed

theorem recovery_bounded_by_retry_marks_witness:
  "url (plain_request ''/orders/'' POST) \<noteq> ''/auth/csrf/''
   \<and> url (plain_request ''/orders/'' POST) \<noteq> ''/auth/token/refresh/''
   \<and> csrf_recoveries server_strict ''/orders/''
        (sent (snd (api 3 server_strict (plain_request ''/orders/'' POST)
          (load_client stale_storage)))) \<le> 1
   \<and> token_recoveries server_strict ''/orders/''
        (sent (snd (api 3 server_strict (plain_request ''/orders/'' POST)
          (load_client stale_storage)))) \<le> 1
   \<and> requests_to ''/orders/'' (sent (snd (api 3 server_strict (plain_request ''/orders/'' POST)
          (load_client stale_storage)))) \<le> 3
   \<and> csrfRetried ((plain_request ''/orders/'' POST)\<lparr> csrfRetried := True \<rparr>)
   \<and> server_strict (sent (load_client stale_storage))
         (request_interceptor (load_client stale_storage)
            ((plain_request ''/orders/'' POST)\<lparr> csrfRetried := True \<rparr>)) = Reply 403 no_body
   \<and> fst (api 1 server_strict ((plain_request ''/orders/'' POST)\<lparr> csrfRetried := True \<rparr>)
            (load_client stale_storage)) = Some (Inl (HttpError 403 no_body))
   \<and> retry ((plain_request ''/owner/restaurants/'' GET)\<lparr> retry := True \<rparr>)
   \<and> server_401 (sent (load_client stale_storage))
         (request_interceptor (load_client stale_storage)
            ((plain_request ''/owner/restaurants/'' GET)\<lparr> retry := True \<rparr>)) = Reply 401 no_body
   \<and> fst (api 1 server_401 ((plain_request ''/owner/restaurants/'' GET)\<lparr> retry := True \<rparr>)
            (load_client stale_storage)) = Some (Inl (HttpError 401 no_body))
   \<and> url (plain_request ''/api/orders/'' GET) \<noteq> ''/api/auth/csrf/''
   \<and> url (plain_request ''/api/orders/'' GET) \<noteq> ''/api/auth/token/refresh/''
   \<and> customer_recoveries server_expired ''/api/orders/'' (c_sent (snd (customer_api server_expired
          (plain_request ''/api/orders/'' GET) (new_customer Map.empty)))) \<le> 1
   \<and> requests_to ''/api/auth/token/refresh/'' (c_sent (snd (customer_api server_expired
          (plain_request ''/api/orders/'' GET) (new_customer Map.empty)))) \<le> 1
   \<and> requests_to ''/api/orders/'' (c_sent (snd (customer_api server_expired
          (plain_request ''/api/orders/'' GET) (new_customer Map.empty)))) \<le> 2
   \<and> retry ((plain_request ''/api/orders/'' GET)\<lparr> retry := True \<rparr>)
   \<and> fst (customer_api server_expired ((plain_request ''/api/orders/'' GET)\<lparr> retry := True \<rparr>)
            (new_customer Map.empty)) = Inl (HttpError 401 no_body)
   \<and> plain_refresh server_strict \<and> no_hanging_promise (load_client stale_storage)
   \<and> fst (api 4 server_strict (plain_request ''/orders/'' POST) (load_client stale_storage))
        \<noteq> None"
proof -
  have h6: "plain_refresh server_strict \<and> no_hanging_promise (load_client stale_storage)"
    by (simp add: plain_refresh_def server_strict_def reply_status_def no_hanging_promise_def
          load_client_def)
  have h1: "url (plain_request ''/orders/'' POST) \<noteq> ''/auth/csrf/''
       \<and> url (plain_request ''/orders/'' POST) \<noteq> ''/auth/token/refresh/''"
    by (simp add: plain_request_def)
  have h2: "csrfRetried ((plain_request ''/orders/'' POST)\<lparr> csrfRetried := True \<rparr>)
     \<and> server_strict (sent (load_client stale_storage))
         (request_interceptor (load_client stale_storage)
            ((plain_request ''/orders/'' POST)\<lparr> csrfRetried := True \<rparr>)) = Reply 403 no_body"
    by (simp add: http_defs storage_defs server_strict_def load_client_def stale_storage_def)
  have h3: "retry ((plain_request ''/owner/restaurants/'' GET)\<lparr> retry := True \<rparr>)
     \<and> server_401 (sent (load_client stale_storage))
         (request_interceptor (load_client stale_storage)
            ((plain_request ''/owner/restaurants/'' GET)\<lparr> retry := True \<rparr>)) = Reply 401 no_body"
    by (simp add: server_401_def)
  have h4: "url (plain_request ''/api/orders/'' GET) \<noteq> ''/api/auth/csrf/''
       \<and> url (plain_request ''/api/orders/'' GET) \<noteq> ''/api/auth/token/refresh/''"
    by (simp add: plain_request_def)
  have h5: "retry ((plain_request ''/api/orders/'' GET)\<lparr> retry := True \<rparr>)
     \<and> settle_reply (server_expired
          (c_sent (snd (customer_request_interceptor server_expired
             ((plain_request ''/api/orders/'' GET)\<lparr> retry := True \<rparr>) (new_customer Map.empty))))
          (fst (customer_request_interceptor server_expired
             ((plain_request ''/api/orders/'' GET)\<lparr> retry := True \<rparr>) (new_customer Map.empty))))
        = Inl (HttpError 401 no_body)"
    by (simp add: customer_request_interceptor_def settle_reply_def server_expired_def
          plain_request_def new_customer_def storage_defs truthy_def Let_def)
  have z: "csrf_recoveries srv u [] = 0" "token_recoveries srv u [] = 0"
    "customer_recoveries srv u [] = 0" for srv u
    by (simp_all add: csrf_recoveries_def token_recoveries_def customer_recoveries_def tally_empty)
  from h1 h2 h3 h4 h5 h6
    recovery_bounded_by_retry_marks
      [where cfg = "plain_request ''/orders/'' POST" and n = 3 and srv = server_strict
         and c = "load_client stale_storage"
         and cfgf = "(plain_request ''/orders/'' POST)\<lparr> csrfRetried := True \<rparr>"
         and srvf = server_strict and cf = "load_client stale_storage" and bf = no_body and nf = 0
         and cfgr = "(plain_request ''/owner/restaurants/'' GET)\<lparr> retry := True \<rparr>"
         and srvr = server_401 and cr = "load_client stale_storage" and br = no_body and nr = 0
         and cfgk = "plain_request ''/api/orders/'' GET" and srvk = server_expired
         and ck = "new_customer Map.empty"
         and cfgm = "(plain_request ''/api/orders/'' GET)\<lparr> retry := True \<rparr>"
         and srvm = server_expired and cm = "new_customer Map.empty"
         and errm = "HttpError 401 no_body"
         and srvp = server_strict and cp = "load_client stale_storage" and np = 0
         and cfgp = "plain_request ''/orders/'' POST"]
  show ?thesis
    by (simp add: plain_request_def load_client_def requests_to_def new_customer_def z)
qed

text \<open>
  The two recoveries are not exclusive in the owner client: one request, refused first
  for its CSRF token and then for its access token, gets a new CSRF token and a new
  access token and is sent three times.
\<close>

theorem owner_both_recoveries_for_one_request:
  "fst (api 3 server_strict (plain_request ''/orders/'' POST) (load_client stale_storage))
     = Some (Inr no_body)
   \<and> map url (sent (snd (api 3 server_strict (plain_request ''/orders/'' POST)
                           (load_client stale_storage))))
       = [''/orders/'', ''/auth/csrf/'', ''/orders/'', ''/auth/token/refresh/'', ''/orders/'']
   \<and> csrf_recoveries server_strict ''/orders/''
        (sent (snd (api 3 server_strict (plain_request ''/orders/'' POST)
                           (load_client stale_storage)))) = 1
   \<and> token_recoveries server_strict ''/orders/''
        (sent (snd (api 3 server_strict (plain_request ''/orders/'' POST)
                           (load_client stale_storage)))) = 1"
  by (simp add: numeral_3_eq_3 http_defs storage_defs server_strict_def load_client_def
        stale_storage_def no_body_def csrf_recoveries_def token_recoveries_def tally_def
        reply_status_def)

text \<open>The same at every greater depth.\<close>

lemma owner_both_recoveries_at_every_depth:
  "api (3 + k) server_strict (plain_request ''/orders/'' POST) (load_client stale_storage)
     = api 3 server_strict (plain_request ''/orders/'' POST) (load_client stale_storage)"
proof -
  have "fst (api 3 server_strict (plain_request ''/orders/'' POST) (load_client stale_storage))
          \<noteq> None"
    by (simp add: numeral_3_eq_3 http_defs storage_defs server_strict_def load_client_def
          stale_storage_def no_body_def)
  from api_settled_deeper [OF this, of k] show ?thesis .
qed

text \<open>
  The same request made while another caller's request for a CSRF token is under way:
  the handler waits for that request, takes the token it brings and sends the request
  again, without a request for a token of its own.
\<close>

lemma owner_joined_caller_resends:
  "fst (api 3 server_strict (plain_request ''/orders/'' POST)
          ((load_client stale_storage)
             \<lparr> initializationPromise :=
                 Some (Theirs 1 (Some (Inr \<lparr> b_csrfToken = Some ''c2'', b_access = None \<rparr>))) \<rparr>))
     = Some (Inr no_body)
   \<and> map url (sent (snd (api 3 server_strict (plain_request ''/orders/'' POST)
          ((load_client stale_storage)
             \<lparr> initializationPromise :=
                 Some (Theirs 1 (Some (Inr \<lparr> b_csrfToken = Some ''c2'', b_access = None \<rparr>))) \<rparr>))))
       = [''/orders/'', ''/orders/'', ''/auth/token/refresh/'', ''/orders/'']"
  by (simp add: numeral_3_eq_3 http_defs storage_defs server_strict_def load_client_def
        stale_storage_def no_body_def)

section \<open>A failed CSRF acquisition\<close>

lemma getCSRFToken_settle_failure:
  "fst (getCSRFToken_settle (Inl x) y) = Inl x"
  "initializationPromise (snd (getCSRFToken_settle (Inl x) y)) = None"
  by (simp_all add: getCSRFToken_settle_def)

lemma getCSRFToken_settle_released:
  "initializationPromise (snd (getCSRFToken_settle r c)) = None"
  by (simp add: getCSRFToken_settle_def split: sum.splits)

lemma getCSRFToken_settle_no_token:
  assumes "\<not> truthy (b_csrfToken b)"
  shows "getCSRFToken_settle (Inr b) c
           = (Inl (PlainError ''No CSRF token in response''), c\<lparr> initializationPromise := None \<rparr>)"
  using assms by (simp add: getCSRFToken_settle_def)

lemma getCSRFToken_started:
  assumes "initializationPromise c = None" and "f \<or> \<not> truthy (csrfToken c)"
  shows "getCSRFToken_call f c
     = (Started (Suc (initializationCount c)),
        c\<lparr> initializationCount := Suc (initializationCount c),
           initializationPromise := Some (Mine (Suc (initializationCount c))) \<rparr>)"
  using assms by (cases f) (simp_all add: getCSRFToken_call_def)

lemma getCSRFToken_via_settled:
  assumes "initializationPromise c = None" and "f \<or> \<not> truthy (csrfToken c)"
    and "self csrf_request (snd (getCSRFToken_call f c)) = (Some r, c2)"
  shows "getCSRFToken_via self f c
           = (Some (fst (getCSRFToken_settle r c2)), snd (getCSRFToken_settle r c2))"
  using assms(3) getCSRFToken_started [OF assms(1,2)]
  by (simp add: getCSRFToken_via_def split: prod.splits)

lemma api_extends_deeper: "extends (api n srv) (api (n + k) srv)"
  unfolding extends_def using api_settled_deeper [of n srv _ _ k] by blast

lemma getCSRFToken_failure:
  assumes p: "initializationPromise c = None" and f: "f \<or> \<not> truthy (csrfToken c)"
    and r: "fst (api n srv csrf_request (snd (getCSRFToken_call f c))) = Some (Inl e)"
  shows "fst (getCSRFToken n srv f c) = Some (Inl e)
       \<and> initializationPromise (snd (getCSRFToken n srv f c)) = None
       \<and> getCSRFToken (n + k) srv f c = getCSRFToken n srv f c"
proof -
  obtain c2 where s: "api n srv csrf_request (snd (getCSRFToken_call f c)) = (Some (Inl e), c2)"
    using r by (cases "api n srv csrf_request (snd (getCSRFToken_call f c))") simp
  from getCSRFToken_via_settled [where self = "api n srv", OF p f s]
  have v: "getCSRFToken n srv f c
       = (Some (fst (getCSRFToken_settle (Inl e) c2)), snd (getCSRFToken_settle (Inl e) c2))"
    by (simp add: getCSRFToken_def)
  from v have a: "fst (getCSRFToken n srv f c) = Some (Inl e)"
    by (simp add: getCSRFToken_settle_failure)
  from v have b: "initializationPromise (snd (getCSRFToken n srv f c)) = None"
    by (simp add: getCSRFToken_settle_failure)
  from v have "fst (getCSRFToken_via (api n srv) f c) \<noteq> None" by (simp add: getCSRFToken_def)
  from getCSRFToken_via_extends [OF api_extends_deeper this]
  have "getCSRFToken (n + k) srv f c = getCSRFToken n srv f c"
    by (simp add: getCSRFToken_def)
  with a b show ?thesis by simp
qed

lemma getCSRFToken_no_token:
  assumes p: "initializationPromise c = None" and f: "f \<or> \<not> truthy (csrfToken c)"
    and r: "fst (api n srv csrf_request (snd (getCSRFToken_call f c))) = Some (Inr b)"
    and b: "\<not> truthy (b_csrfToken b)"
  shows "fst (getCSRFToken n srv f c) = Some (Inl (PlainError ''No CSRF token in response''))
       \<and> initializationPromise (snd (getCSRFToken n srv f c)) = None"
proof -
  obtain c2 where s: "api n srv csrf_request (snd (getCSRFToken_call f c)) = (Some (Inr b), c2)"
    using r by (cases "api n srv csrf_request (snd (getCSRFToken_call f c))") simp
  from getCSRFToken_via_settled [where self = "api n srv", OF p f s]
  have v: "getCSRFToken n srv f c
       = (Some (fst (getCSRFToken_settle (Inr b) c2)), snd (getCSRFToken_settle (Inr b) c2))"
    by (simp add: getCSRFToken_def)
  from v b show ?thesis
    by (simp add: getCSRFToken_settle_no_token)
qed

text \<open>
  Callers that ask for a new token, or find none cached, while no request is pending
  hold the same promise, and what it settles with is what each of them receives.  A
  caller that finds the request of another caller under way receives what that request
  comes to.
\<close>

lemma getCSRFToken_waiters:
  assumes "initializationPromise c = None"
    and "(\<forall>f\<in>set (f0 # fs). f) \<or> \<not> truthy (csrfToken c)"
  shows "fst (settle_pending (Inl e) (snd (getCSRFToken_calls (f0 # fs) c)))
           = Some (Suc (initializationCount c), Inl e)
       \<and> map (received (Suc (initializationCount c)) (Inl e)) (fst (getCSRFToken_calls (f0 # fs) c))
           = replicate (Suc (length fs)) (Some (Inl e))"
proof -
  note f = getCSRFToken_single_flight [OF assms]
  have a: "fst (settle_pending (Inl e) (snd (getCSRFToken_calls (f0 # fs) c)))
           = Some (Suc (initializationCount c), Inl e)"
    by (simp only: f snd_conv)
       (simp add: settle_pending_def getCSRFToken_settle_def split: prod.splits)
  have b: "map (received (Suc (initializationCount c)) (Inl e)) (fst (getCSRFToken_calls (f0 # fs) c))
           = replicate (Suc (length fs)) (Some (Inl e))"
    by (simp only: f fst_conv) (simp add: received_def)
  from a b show ?thesis by simp
qed

lemma getCSRFToken_joins_other:
  assumes "initializationPromise c = Some (Theirs p (Some (Inl e)))"
    and "f \<or> \<not> truthy (csrfToken c)"
  shows "fst (getCSRFToken_via self f c) = Some (Inl e)
       \<and> initializationPromise (snd (getCSRFToken_via self f c)) = None"
proof -
  from assms have j: "getCSRFToken_call f c = (Joined p, c)"
    by (cases f) (simp_all add: getCSRFToken_call_def)
  obtain t c1 where t: "getCSRFToken_settle (Inl e) c = (t, c1)"
    by (cases "getCSRFToken_settle (Inl e) c")
  with getCSRFToken_settle_failure [of e c] have "t = Inl e" "initializationPromise c1 = None"
    by simp_all
  with j t assms(1) show ?thesis
    by (simp add: getCSRFToken_via_def await_promise_def)
qed

text \<open>\<open>initializeCSRF\<close> swallows the failure of \<open>initializeApp\<close>.\<close>

lemma initializeCSRF_swallows:
  assumes "fst (initializeApp n srv (p_client w)) = Some (Inl e)"
  shows "fst (initializeCSRF n srv w) = Some InitializeCSRF_fulfilled
       \<and> csrfError (p_auth (snd (initializeCSRF n srv w))) = None
       \<and> csrfInitialized (p_auth (snd (initializeCSRF n srv w)))"
proof -
  let ?w0 = "portal_dispatch InitializeCSRF_pending w"
  have c: "p_client ?w0 = p_client w" by (simp add: portal_dispatch_def)
  have a: "csrfError (p_auth ?w0) = None" by (simp add: portal_dispatch_def)
  obtain r c1 where s: "initializeApp n srv (p_client ?w0) = (r, c1)"
    by (cases "initializeApp n srv (p_client ?w0)")
  with assms c have r: "r = Some (Inl e)" by simp
  show ?thesis
  proof (cases "csrfInitialized (p_auth ?w0)")
    case True
    with a show ?thesis by (simp add: initializeCSRF_def Let_def portal_dispatch_def)
  next
    case False
    with a s r show ?thesis by (simp add: initializeCSRF_def Let_def portal_dispatch_def)
  qed
qed

text \<open>
  C6, as the code has it.  An acquisition of the token settles whenever the server
  answers no refresh request with 401 or 403 and no earlier acquisition hangs.  When
  the request for the token has settled with a failure, the cached token is forgotten, in memory and in the storage, if the status is 403 or
  401, and kept otherwise; an answer without a token is a failure of its own, which
  keeps the cached token too.  In each case the failure is what \<open>getCSRFToken\<close>
  rejects with, at the depth at which the request has settled and at every greater
  one, for the caller that started the request, for every caller that holds the same
  promise, and for a caller that joined the request of another caller; and no promise
  stays pending.  \<open>initializeCSRF\<close> is fulfilled all the same and leaves
  \<open>csrfError\<close> empty and \<open>csrfInitialized\<close> true.
\<close>

theorem csrf_failure_handling:
  "(plain_refresh srvs \<and> no_hanging_promise cs \<longrightarrow>
       fst (getCSRFToken (2 + ns) srvs fa cs) \<noteq> None)
   \<and> ((status_of e = Some 403 \<or> status_of e = Some 401) \<longrightarrow>
       csrfToken (snd (getCSRFToken_settle (Inl e) c)) = None
       \<and> getItem (localStorage (snd (getCSRFToken_settle (Inl e) c))) ''csrfToken'' = None)
   \<and> (status_of en \<noteq> Some 403 \<and> status_of en \<noteq> Some 401 \<longrightarrow>
       csrfToken (snd (getCSRFToken_settle (Inl en) cn)) = csrfToken cn
       \<and> localStorage (snd (getCSRFToken_settle (Inl en) cn)) = localStorage cn)
   \<and> (\<not> truthy (b_csrfToken bt) \<longrightarrow>
       fst (getCSRFToken_settle (Inr bt) ct) = Inl (PlainError ''No CSRF token in response'')
       \<and> csrfToken (snd (getCSRFToken_settle (Inr bt) ct)) = csrfToken ct
       \<and> localStorage (snd (getCSRFToken_settle (Inr bt) ct)) = localStorage ct
       \<and> initializationPromise (snd (getCSRFToken_settle (Inr bt) ct)) = None)
   \<and> fst (getCSRFToken_settle (Inl ex) cx) = Inl ex
   \<and> initializationPromise (snd (getCSRFToken_settle (Inl ex) cx)) = None
   \<and> (initializationPromise cp = None \<and> (fp \<or> \<not> truthy (csrfToken cp))
        \<and> fst (api n srv csrf_request (snd (getCSRFToken_call fp cp))) = Some (Inl ep) \<longrightarrow>
       fst (getCSRFToken n srv fp cp) = Some (Inl ep)
       \<and> initializationPromise (snd (getCSRFToken n srv fp cp)) = None
       \<and> getCSRFToken (n + d) srv fp cp = getCSRFToken n srv fp cp)
   \<and> (initializationPromise cq = None \<and> (fq \<or> \<not> truthy (csrfToken cq))
        \<and> fst (api m srvq csrf_request (snd (getCSRFToken_call fq cq))) = Some (Inr bq)
        \<and> \<not> truthy (b_csrfToken bq) \<longrightarrow>
       fst (getCSRFToken m srvq fq cq) = Some (Inl (PlainError ''No CSRF token in response''))
       \<and> initializationPromise (snd (getCSRFToken m srvq fq cq)) = None)
   \<and> (initializationPromise cw = None \<and> ((\<forall>f\<in>set (fw # fs). f) \<or> \<not> truthy (csrfToken cw)) \<longrightarrow>
       fst (settle_pending (Inl ew) (snd (getCSRFToken_calls (fw # fs) cw)))
         = Some (Suc (initializationCount cw), Inl ew)
       \<and> map (received (Suc (initializationCount cw)) (Inl ew))
             (fst (getCSRFToken_calls (fw # fs) cw))
           = replicate (Suc (length fs)) (Some (Inl ew)))
   \<and> (initializationPromise cj = Some (Theirs pj (Some (Inl ej)))
        \<and> (fj \<or> \<not> truthy (csrfToken cj)) \<longrightarrow>
       fst (getCSRFToken_via self fj cj) = Some (Inl ej)
       \<and> initializationPromise (snd (getCSRFToken_via self fj cj)) = None)
   \<and> (fst (initializeApp ni srvi (p_client wi)) = Some (Inl ei) \<longrightarrow>
       fst (initializeCSRF ni srvi wi) = Some InitializeCSRF_fulfilled
       \<and> csrfError (p_auth (snd (initializeCSRF ni srvi wi))) = None
       \<and> csrfInitialized (p_auth (snd (initializeCSRF ni srvi wi))))"
proof -
  have a: "(status_of e = Some 403 \<or> status_of e = Some 401) \<Longrightarrow>
       csrfToken (snd (getCSRFToken_settle (Inl e) c)) = None
       \<and> getItem (localStorage (snd (getCSRFToken_settle (Inl e) c))) ''csrfToken'' = None"
    by (auto simp: getCSRFToken_settle_def storage_defs)
  have b: "status_of en \<noteq> Some 403 \<Longrightarrow> status_of en \<noteq> Some 401 \<Longrightarrow>
       csrfToken (snd (getCSRFToken_settle (Inl en) cn)) = csrfToken cn
       \<and> localStorage (snd (getCSRFToken_settle (Inl en) cn)) = localStorage cn"
    by (simp add: getCSRFToken_settle_def)
  have t: "\<not> truthy (b_csrfToken bt) \<Longrightarrow>
       fst (getCSRFToken_settle (Inr bt) ct) = Inl (PlainError ''No CSRF token in response'')
       \<and> csrfToken (snd (getCSRFToken_settle (Inr bt) ct)) = csrfToken ct
       \<and> localStorage (snd (getCSRFToken_settle (Inr bt) ct)) = localStorage ct
       \<and> initializationPromise (snd (getCSRFToken_settle (Inr bt) ct)) = None"
    by (simp add: getCSRFToken_settle_no_token)
  have w: "fst (settle_pending (Inl ew) (snd (getCSRFToken_calls (fw # fs) cw)))
         = Some (Suc (initializationCount cw), Inl ew)
       \<and> map (received (Suc (initializationCount cw)) (Inl ew))
             (fst (getCSRFToken_calls (fw # fs) cw))
           = replicate (Suc (length fs)) (Some (Inl ew))"
    if "initializationPromise cw = None"
      and "(\<forall>f\<in>set (fw # fs). f) \<or> \<not> truthy (csrfToken cw)"
    by (rule getCSRFToken_waiters [OF that])
  have i: "fst (initializeCSRF ni srvi wi) = Some InitializeCSRF_fulfilled
       \<and> csrfError (p_auth (snd (initializeCSRF ni srvi wi))) = None
       \<and> csrfInitialized (p_auth (snd (initializeCSRF ni srvi wi)))"
    if "fst (initializeApp ni srvi (p_client wi)) = Some (Inl ei)"
    by (rule initializeCSRF_swallows [OF that])
  have f: "fst (getCSRFToken n srv fp cp) = Some (Inl ep)
       \<and> initializationPromise (snd (getCSRFToken n srv fp cp)) = None
       \<and> getCSRFToken (n + d) srv fp cp = getCSRFToken n srv fp cp"
    if "initializationPromise cp = None" and "fp \<or> \<not> truthy (csrfToken cp)"
      and "fst (api n srv csrf_request (snd (getCSRFToken_call fp cp))) = Some (Inl ep)"
    by (rule getCSRFToken_failure [OF that])
  have g: "fst (getCSRFToken m srvq fq cq) = Some (Inl (PlainError ''No CSRF token in response''))
       \<and> initializationPromise (snd (getCSRFToken m srvq fq cq)) = None"
    if "initializationPromise cq = None" and "fq \<or> \<not> truthy (csrfToken cq)"
      and "fst (api m srvq csrf_request (snd (getCSRFToken_call fq cq))) = Some (Inr bq)"
      and "\<not> truthy (b_csrfToken bq)"
    by (rule getCSRFToken_no_token [OF that])
  have j: "fst (getCSRFToken_via self fj cj) = Some (Inl ej)
       \<and> initializationPromise (snd (getCSRFToken_via self fj cj)) = None"
    if "initializationPromise cj = Some (Theirs pj (Some (Inl ej)))"
      and "fj \<or> \<not> truthy (csrfToken cj)"
    by (rule getCSRFToken_joins_other [OF that])
  from a b t getCSRFToken_settle_failure [of ex cx] f g w j i
    getCSRFToken_settles [of srvs cs ns fa]
  show ?thesis by blast
qed

theorem csrf_failure_handling_witness:
  "plain_refresh server_down \<and> no_hanging_promise (load_client stale_storage)
   \<and> fst (getCSRFToken 2 server_down True (load_client stale_storage)) \<noteq> None
   \<and> status_of (HttpError 403 no_body) = Some 403
   \<and> csrfToken (snd (getCSRFToken_settle (Inl (HttpError 403 no_body))
                       (load_client stale_storage))) = None
   \<and> getItem (localStorage (snd (getCSRFToken_settle (Inl (HttpError 403 no_body))
                       (load_client stale_storage)))) ''csrfToken'' = None
   \<and> status_of NetworkError \<noteq> Some 403 \<and> status_of NetworkError \<noteq> Some 401
   \<and> csrfToken (snd (getCSRFToken_settle (Inl NetworkError) (load_client stale_storage)))
        = Some ''c1''
   \<and> \<not> truthy (b_csrfToken no_body)
   \<and> fst (getCSRFToken_settle (Inr no_body) (load_client stale_storage))
        = Inl (PlainError ''No CSRF token in response'')
   \<and> csrfToken (snd (getCSRFToken_settle (Inr no_body) (load_client stale_storage))) = Some ''c1''
   \<and> initializationPromise (load_client stale_storage) = None
   \<and> fst (api 1 server_down csrf_request (snd (getCSRFToken_call True (load_client stale_storage))))
        = Some (Inl NetworkError)
   \<and> fst (getCSRFToken 1 server_down True (load_client stale_storage)) = Some (Inl NetworkError)
   \<and> initializationPromise (snd (getCSRFToken 1 server_down True (load_client stale_storage))) = None
   \<and> initializationPromise (load_client Map.empty) = None
   \<and> \<not> truthy (csrfToken (load_client Map.empty))
   \<and> fst (api 1 server_ok csrf_request (snd (getCSRFToken_call False (load_client Map.empty))))
        = Some (Inr no_body)
   \<and> fst (getCSRFToken 1 server_ok False (load_client Map.empty))
        = Some (Inl (PlainError ''No CSRF token in response''))
   \<and> fst (settle_pending (Inl NetworkError)
             (snd (getCSRFToken_calls [False, True, False] (load_client Map.empty))))
        = Some (1, Inl NetworkError)
   \<and> map (received 1 (Inl NetworkError))
          (fst (getCSRFToken_calls [False, True, False] (load_client Map.empty)))
        = [Some (Inl NetworkError), Some (Inl NetworkError), Some (Inl NetworkError)]
   \<and> initializationPromise ((load_client stale_storage)
          \<lparr> initializationPromise := Some (Theirs 1 (Some (Inl NetworkError))) \<rparr>)
        = Some (Theirs 1 (Some (Inl NetworkError)))
   \<and> fst (getCSRFToken_via (api 0 server_down) True ((load_client stale_storage)
          \<lparr> initializationPromise := Some (Theirs 1 (Some (Inl NetworkError))) \<rparr>))
        = Some (Inl NetworkError)
   \<and> fst (initializeApp 1 server_down (p_client (new_portal Map.empty))) = Some (Inl NetworkError)
   \<and> fst (initializeCSRF 1 server_down (new_portal Map.empty)) = Some InitializeCSRF_fulfilled
   \<and> csrfError (p_auth (snd (initializeCSRF 1 server_down (new_portal Map.empty)))) = None"
proof -
  have h1: "status_of (HttpError 403 no_body) = Some 403"
           "status_of NetworkError \<noteq> Some 403 \<and> status_of NetworkError \<noteq> Some 401"
    by (simp_all add: status_of_def)
  have h2: "initializationPromise (load_client stale_storage) = None"
           "initializationPromise (load_client Map.empty) = None"
           "initializationCount (load_client Map.empty) = 0"
           "\<not> truthy (csrfToken (load_client Map.empty))"
    by (simp_all add: load_client_def storage_defs truthy_def)
  have h3: "fst (api 1 server_down csrf_request
                  (snd (getCSRFToken_call True (load_client stale_storage))))
        = Some (Inl NetworkError)"
    by (simp add: http_defs server_down_def load_client_def)
  have h4: "csrfToken (load_client stale_storage) = Some ''c1''"
    by (simp add: load_client_def stale_storage_def storage_defs)
  have h5: "\<not> truthy (b_csrfToken no_body)" by (simp add: no_body_def truthy_def)
  have h6: "fst (api 1 server_ok csrf_request
                  (snd (getCSRFToken_call False (load_client Map.empty))))
        = Some (Inr no_body)"
    by (simp add: http_defs storage_defs server_ok_def load_client_def)
  have h7: "initializationPromise ((load_client stale_storage)
          \<lparr> initializationPromise := Some (Theirs 1 (Some (Inl NetworkError))) \<rparr>)
        = Some (Theirs 1 (Some (Inl NetworkError)))" by simp
  have h8: "fst (initializeApp 1 server_down (p_client (new_portal Map.empty)))
        = Some (Inl NetworkError)"
    by (simp add: initializeApp_def getCSRFToken_def http_defs storage_defs server_down_def
          new_portal_def load_client_def)
  have h9: "plain_refresh server_down" "no_hanging_promise (load_client stale_storage)"
    by (simp_all add: plain_refresh_def server_down_def reply_status_def no_hanging_promise_def
          load_client_def)
  from h1 h2 h3 h4 h5 h6 h7 h8 h9
    csrf_failure_handling
      [where srvs = server_down and cs = "load_client stale_storage" and ns = 0 and fa = True
         and e = "HttpError 403 no_body" and c = "load_client stale_storage"
         and en = NetworkError and cn = "load_client stale_storage"
         and bt = no_body and ct = "load_client stale_storage"
         and ex = NetworkError and cx = "load_client stale_storage"
         and cp = "load_client stale_storage" and fp = True and n = 1 and srv = server_down
         and ep = NetworkError and d = 0
         and cq = "load_client Map.empty" and fq = False and m = 1 and srvq = server_ok
         and bq = no_body
         and cw = "load_client Map.empty" and fw = False and fs = "[True, False]"
         and ew = NetworkError
         and cj = "(load_client stale_storage)
                     \<lparr> initializationPromise := Some (Theirs 1 (Some (Inl NetworkError))) \<rparr>"
         and fj = True and pj = 1 and ej = NetworkError and self = "api 0 server_down"
         and ni = 1 and srvi = server_down and wi = "new_portal Map.empty" and ei = NetworkError]
  show ?thesis by simp
qed

text \<open>
  A network failure with a cached token: the failure reaches the caller, the token
  stays cached in memory and in the storage, and the session records no
  \<open>csrfError\<close>.
\<close>

theorem csrf_network_failure_keeps_token:
  "fst (getCSRFToken 1 server_down True (load_client stale_storage)) = Some (Inl NetworkError)
   \<and> csrfToken (snd (getCSRFToken 1 server_down True (load_client stale_storage))) = Some ''c1''
   \<and> getItem (localStorage (snd (getCSRFToken 1 server_down True (load_client stale_storage))))
        ''csrfToken'' = Some ''c1''
   \<and> fst (initializeApp 1 server_down (load_client Map.empty)) = Some (Inl NetworkError)
   \<and> fst (initializeCSRF 1 server_down (new_portal Map.empty)) = Some InitializeCSRF_fulfilled
   \<and> csrfError (p_auth (snd (initializeCSRF 1 server_down (new_portal Map.empty)))) = None"
proof -
  have a: "fst (getCSRFToken 1 server_down True (load_client stale_storage)) = Some (Inl NetworkError)
   \<and> csrfToken (snd (getCSRFToken 1 server_down True (load_client stale_storage))) = Some ''c1''
   \<and> getItem (localStorage (snd (getCSRFToken 1 server_down True (load_client stale_storage))))
        ''csrfToken'' = Some ''c1''"
    by (simp add: getCSRFToken_def http_defs storage_defs server_down_def load_client_def
          stale_storage_def)
  have b: "fst (initializeApp 1 server_down (load_client Map.empty)) = Some (Inl NetworkError)"
    by (simp add: initializeApp_def getCSRFToken_def http_defs storage_defs server_down_def
          load_client_def)
  then have "fst (initializeApp 1 server_down (p_client (new_portal Map.empty)))
               = Some (Inl NetworkError)"
    by (simp add: new_portal_def)
  from initializeCSRF_swallows [OF this] a b show ?thesis by simp
qed

text \<open>The same at every greater depth.\<close>

lemma csrf_network_failure_at_every_depth:
  "getCSRFToken (1 + k) server_down True (load_client stale_storage)
     = getCSRFToken 1 server_down True (load_client stale_storage)"
proof -
  have "fst (getCSRFToken_via (api 1 server_down) True (load_client stale_storage)) \<noteq> None"
    by (simp add: http_defs server_down_def load_client_def)
  from getCSRFToken_via_extends [OF api_extends_deeper this] show ?thesis
    by (simp add: getCSRFToken_def)
qed

text \<open>
  The request for the token need not settle.  When the server answers it and the
  refresh request with 401, the handler of the request for the token refreshes without
  end: at every depth \<open>getCSRFToken\<close> has not settled, its promise is still pending
  and the cached token is still there.
\<close>

lemma csrf_401_never_settles:
  "fst (getCSRFToken n server_401 True (load_client stale_storage)) = None
   \<and> initializationPromise (snd (getCSRFToken n server_401 True (load_client stale_storage)))
        = Some (Mine 1)
   \<and> csrfToken (snd (getCSRFToken n server_401 True (load_client stale_storage))) = Some ''c1''
   \<and> getItem (localStorage (snd (getCSRFToken n server_401 True (load_client stale_storage))))
        ''csrfToken'' = Some ''c1''"
proof -
  let ?c = "load_client stale_storage"
  let ?c1 = "?c\<lparr> initializationCount := Suc (initializationCount ?c),
           initializationPromise := Some (Mine (Suc (initializationCount ?c))) \<rparr>"
  have p: "initializationPromise ?c = None" by (simp add: load_client_def)
  have st: "getCSRFToken_call True ?c = (Started (Suc (initializationCount ?c)), ?c1)"
    by (rule getCSRFToken_started [OF p]) simp
  obtain r c2 where s: "api n server_401 csrf_request ?c1 = (r, c2)"
    by (cases "api n server_401 csrf_request ?c1")
  have "r = None \<and> c2\<lparr> sent := sent ?c1 \<rparr> = ?c1"
  proof (cases n)
    case 0
    with s show ?thesis by auto
  next
    case (Suc k)
    have a: "\<not> retry csrf_request" by (simp add: csrf_request_def plain_request_def)
    have b: "truthy (getItem (localStorage ?c1) ''refreshToken'')"
      by (simp add: load_client_def stale_storage_def getItem_def truthy_def)
    from refresh_loop_state [OF a b, of k] Suc s show ?thesis by simp
  qed
  then have r: "r = None" and e: "c2\<lparr> sent := sent ?c1 \<rparr> = ?c1" by simp_all
  from e have "initializationPromise (c2\<lparr> sent := sent ?c1 \<rparr>) = initializationPromise ?c1"
    "csrfToken (c2\<lparr> sent := sent ?c1 \<rparr>) = csrfToken ?c1"
    "localStorage (c2\<lparr> sent := sent ?c1 \<rparr>) = localStorage ?c1" by simp_all
  then have f: "initializationPromise c2 = Some (Mine 1)" "csrfToken c2 = Some ''c1''"
    "localStorage c2 = stale_storage"
    by (simp_all add: load_client_def stale_storage_def storage_defs)
  have "getCSRFToken n server_401 True ?c = (None, c2)"
    using st s r by (simp add: getCSRFToken_def getCSRFToken_via_def)
  with f show ?thesis by (simp add: stale_storage_def storage_defs)
qed

text \<open>
  When the refresh request is answered with 403 instead, its handler asks for a new
  CSRF token while the request for the token is being handled, finds the promise of
  that request pending and waits for it: two requests are sent, and nothing settles
  at any depth.
\<close>

lemma csrf_acquisition_waits_for_itself:
  "fst (getCSRFToken (2 + k) server_locked True (load_client stale_storage)) = None
   \<and> map url (sent (snd (getCSRFToken (2 + k) server_locked True (load_client stale_storage))))
        = [''/auth/csrf/'', ''/auth/token/refresh/'']
   \<and> initializationPromise (snd (getCSRFToken (2 + k) server_locked True (load_client stale_storage)))
        = Some (Mine 1)"
proof -
  have "2 + k = Suc (Suc k)" by simp
  then show ?thesis
    by (simp add: getCSRFToken_def http_defs storage_defs server_locked_def load_client_def
          stale_storage_def no_body_def del: api.simps add: api.simps(2))
qed

end
